(* ===== verification/Turn_Prelude.thy ===== *)
theory Turn_Prelude
  imports Main "HOL-Library.Word"
begin

text \<open>
  The vocabulary every component of the development shares: the machine integers of the
  Rust source, byte strings in network order (the \<open>put_u16\<close>, \<open>put_u32\<close> and
  \<open>from_be_bytes\<close> of the source), the outcome of code that may panic, and the generic
  facts on words, lists and options that the component proofs rewrite with.

  Conventions. \<open>u8\<close>, \<open>u16\<close>, \<open>u32\<close> and \<open>u64\<close> are words of that width; their
  arithmetic wraps, as it does in the release profile the \<open>Makefile\<close> builds. A
  \<open>usize\<close> that counts bytes or elements held in memory is a \<open>nat\<close>. An
  \<open>Instant\<close> and a \<open>Duration\<close> are a \<open>nat\<close> number of nanoseconds, so that the
  truncated subtraction of \<open>nat\<close> is the saturating \<open>Instant::elapsed\<close>.
\<close>

unbundle bit_operations_syntax

section \<open>Machine integers and byte strings\<close>

type_synonym u8 = "8 word"
type_synonym u16 = "16 word"
type_synonym u32 = "32 word"
type_synonym u64 = "64 word"
type_synonym bytes = "u8 list"

text \<open>Named collections: byte-order facts, and the facts that evaluate a codec.\<close>

named_theorems byte_order \<open>reading back what was written in network byte order\<close>
named_theorems rust_simps \<open>evaluation of the outcome combinators\<close>

definition put_u16 :: "u16 \<Rightarrow> bytes" where
  "put_u16 w = [ucast (drop_bit 8 w), ucast w]"

definition put_u32 :: "u32 \<Rightarrow> bytes" where
  "put_u32 w = [ucast (drop_bit 24 w), ucast (drop_bit 16 w), ucast (drop_bit 8 w), ucast w]"

definition be16 :: "u8 \<Rightarrow> u8 \<Rightarrow> u16" where
  "be16 a b = push_bit 8 (ucast a) OR ucast b"

definition be32 :: "u8 \<Rightarrow> u8 \<Rightarrow> u8 \<Rightarrow> u8 \<Rightarrow> u32" where
  "be32 a b c d = push_bit 24 (ucast a) OR push_bit 16 (ucast b) OR push_bit 8 (ucast c) OR ucast d"

lemma be16_put [byte_order, simp]: "be16 (ucast (drop_bit 8 w)) (ucast (w :: u16)) = w"
  by (rule bit_word_eqI) (auto simp: be16_def bit_simps)

lemma be32_put [byte_order, simp]:
  "be32 (ucast (drop_bit 24 w)) (ucast (drop_bit 16 w)) (ucast (drop_bit 8 w)) (ucast (w :: u32)) = w"
proof (rule bit_word_eqI)
  fix n assume "n < LENGTH(32)"
  then consider "n < 8" | "8 \<le> n" "n < 16" | "16 \<le> n" "n < 24" | "24 \<le> n" "n < 32"
    by fastforce
  then show "bit (be32 (ucast (drop_bit 24 w)) (ucast (drop_bit 16 w)) (ucast (drop_bit 8 w))
      (ucast w)) n = bit w n"
    by cases (auto simp add: be32_def bit_simps less_diff_conv2)
qed

lemma hi_be16 [byte_order, simp]: "ucast (drop_bit 8 (be16 a b)) = a"
  by (rule bit_word_eqI) (auto simp: be16_def bit_simps dest: bit_imp_le_length)

lemma lo_be16 [byte_order, simp]: "ucast (be16 a b) = b"
  by (rule bit_word_eqI) (auto simp: be16_def bit_simps)

lemma length_put_u16 [simp]: "length (put_u16 w) = 2"
  by (simp add: put_u16_def)

lemma length_put_u32 [simp]: "length (put_u32 w) = 4"
  by (simp add: put_u32_def)

lemma unat_of_nat_u16 [simp]: "n < 65536 \<Longrightarrow> unat (word_of_nat n :: u16) = n"
  by (simp add: unat_of_nat)

lemma unat_u16_less [simp]: "unat (w :: u16) < 65536"
  using unsigned_less [of w, where ?'a = nat] by simp

lemma unat_u16_le [simp]: "unat (w :: u16) \<le> 65535"
  using unat_u16_less [of w] by linarith

section \<open>Lists and slices\<close>

text \<open>\<open>slice_bytes data i j\<close> is the Rust slice \<open>&data[i..j]\<close>, used where \<open>i \<le> j \<le> len\<close>.\<close>

definition slice_bytes :: "'a list \<Rightarrow> nat \<Rightarrow> nat \<Rightarrow> 'a list" where
  "slice_bytes xs i j = take (j - i) (drop i xs)"

lemma length_slice_bytes [simp]:
  "j \<le> length xs \<Longrightarrow> length (slice_bytes xs i j) = j - i"
  by (simp add: slice_bytes_def)

lemma slice_bytes_take: "j \<le> n \<Longrightarrow> slice_bytes (take n xs) i j = slice_bytes xs i j"
  by (simp add: slice_bytes_def drop_take min_def)

lemma append_sep_inj:
  assumes "xs @ c # ys = xs' @ c # ys'" and "c \<notin> set xs" and "c \<notin> set xs'"
  shows "xs = xs' \<and> ys = ys'"
  using assms by (induction xs arbitrary: xs') (auto simp: append_eq_Cons_conv Cons_eq_append_conv)

section \<open>Outcomes of code that may panic\<close>

text \<open>
  An index out of range, an arithmetic trap or a \<open>get_u32\<close> past the end of a buffer
  panics in Rust: the task that runs the code is torn down. \<open>Panics\<close> is that outcome.
\<close>

datatype 'a rust = Returns 'a | Panics

fun rbind :: "'a rust \<Rightarrow> ('a \<Rightarrow> 'b rust) \<Rightarrow> 'b rust" where
  "rbind Panics f = Panics"
| "rbind (Returns x) f = f x"

lemma rbind_eq_Returns [rust_simps]:
  "rbind m f = Returns y \<longleftrightarrow> (\<exists>x. m = Returns x \<and> f x = Returns y)"
  by (cases m) auto

lemma rbind_eq_Panics [rust_simps]:
  "rbind m f = Panics \<longleftrightarrow> m = Panics \<or> (\<exists>x. m = Returns x \<and> f x = Panics)"
  by (cases m) auto

text \<open>Indexing a slice: \<open>xs[i]\<close> panics when \<open>i\<close> is out of range.\<close>

definition index :: "'a list \<Rightarrow> nat \<Rightarrow> 'a rust" where
  "index xs i = (if i < length xs then Returns (xs ! i) else Panics)"

text \<open>The slice \<open>&xs[..n]\<close> panics when the list is shorter than \<open>n\<close>.\<close>

definition prefix_slice :: "'a list \<Rightarrow> nat \<Rightarrow> 'a list rust" where
  "prefix_slice xs n = (if n \<le> length xs then Returns (take n xs) else Panics)"

section \<open>Saturating arithmetic\<close>

definition sat_add_u64 :: "u64 \<Rightarrow> u64 \<Rightarrow> u64" where
  "sat_add_u64 a b = (if unat a + unat b < 2 ^ 64 then a + b else - 1)"

definition sat_mul_u64 :: "u64 \<Rightarrow> u64 \<Rightarrow> u64" where
  "sat_mul_u64 a b = (if unat a * unat b < 2 ^ 64 then a * b else - 1)"

lemma unat_max_u64: "unat (- 1 :: u64) = 2 ^ 64 - 1"
  by (simp add: unsigned_minus_1_eq_mask mask_eq_exp_minus_1)

lemma unat_sat_add_u64: "unat (sat_add_u64 a b) = min (unat a + unat b) (2 ^ 64 - 1)"
  by (auto simp: sat_add_u64_def unat_word_ariths unat_max_u64)

lemma unat_sat_mul_u64: "unat (sat_mul_u64 a b) = min (unat a * unat b) (2 ^ 64 - 1)"
  by (auto simp: sat_mul_u64_def unat_word_ariths unat_max_u64)

end
