(* ===== verification/Hash_Map.thy ===== *)
theory Hash_Map
  imports Turn_Prelude "HOL-Library.AList" "HOL-Library.Multiset"
begin

text \<open>
  The standard library's \<open>HashMap\<close>, which the allocation table, the channel table, the
  nonce map, the user table and the bandwidth manager all keep their entries in.

  A \<open>HashMap\<close> is an association list with distinct keys, in the order in which the map is
  iterated. Rust leaves that order unspecified: what the code computes from it has to be the
  same for every permutation of the list, and the lemmas at the end of this theory are the
  ones that say so. The locale \<open>rust_map\<close> is the contract the clients rely on; its
  interpretation \<open>hm\<close> discharges it for the association lists.
\<close>

type_synonym ('k, 'v) hashmap = "('k \<times> 'v) list"

section \<open>Operations\<close>

definition hm_wf :: "('k, 'v) hashmap \<Rightarrow> bool" where
  "hm_wf m \<longleftrightarrow> distinct (map fst m)"

definition hm_get :: "('k, 'v) hashmap \<Rightarrow> 'k \<Rightarrow> 'v option" where
  "hm_get m = map_of m"

definition hm_insert :: "'k \<Rightarrow> 'v \<Rightarrow> ('k, 'v) hashmap \<Rightarrow> ('k, 'v) hashmap" where
  "hm_insert k v m = AList.update k v m"

definition hm_remove :: "'k \<Rightarrow> ('k, 'v) hashmap \<Rightarrow> ('k, 'v) hashmap" where
  "hm_remove k m = AList.delete k m"

definition hm_retain :: "('k \<Rightarrow> 'v \<Rightarrow> bool) \<Rightarrow> ('k, 'v) hashmap \<Rightarrow> ('k, 'v) hashmap" where
  "hm_retain P m = filter (\<lambda>(k, v). P k v) m"

definition hm_len :: "('k, 'v) hashmap \<Rightarrow> nat" where
  "hm_len m = length m"

definition hm_values :: "('k, 'v) hashmap \<Rightarrow> 'v list" where
  "hm_values m = map snd m"

section \<open>The contract of a map\<close>

locale rust_map =
  fixes get :: "'m \<Rightarrow> 'k \<Rightarrow> 'v option"
    and insert :: "'k \<Rightarrow> 'v \<Rightarrow> 'm \<Rightarrow> 'm"
    and remove :: "'k \<Rightarrow> 'm \<Rightarrow> 'm"
    and retain :: "('k \<Rightarrow> 'v \<Rightarrow> bool) \<Rightarrow> 'm \<Rightarrow> 'm"
    and len :: "'m \<Rightarrow> nat"
    and wf :: "'m \<Rightarrow> bool"
  assumes get_insert: "get (insert k v m) = (get m)(k \<mapsto> v)"
    and get_remove: "get (remove k m) = (get m)(k := None)"
    and get_retain: "wf m \<Longrightarrow> get (retain P m) k =
          (case get m k of None \<Rightarrow> None | Some v \<Rightarrow> if P k v then Some v else None)"
    and finite_dom: "finite (dom (get m))"
    and len_card: "wf m \<Longrightarrow> len m = card (dom (get m))"
    and wf_insert: "wf m \<Longrightarrow> wf (insert k v m)"
    and wf_remove: "wf m \<Longrightarrow> wf (remove k m)"
    and wf_retain: "wf m \<Longrightarrow> wf (retain P m)"
begin

lemmas wf_ops = wf_insert wf_remove wf_retain

lemma get_insert_same: "get (insert k v m) k = Some v"
  by (simp add: get_insert)

lemma get_insert_other: "k' \<noteq> k \<Longrightarrow> get (insert k v m) k' = get m k'"
  by (simp add: get_insert)

lemma get_remove_same: "get (remove k m) k = None"
  by (simp add: get_remove)

lemma get_remove_other: "k' \<noteq> k \<Longrightarrow> get (remove k m) k' = get m k'"
  by (simp add: get_remove)

lemma get_remove_SomeD: "get (remove k m) k' = Some v \<Longrightarrow> k' \<noteq> k \<and> get m k' = Some v"
  by (auto simp: get_remove split: if_splits)

lemma get_retain_Some:
  "wf m \<Longrightarrow> get (retain P m) k = Some v \<longleftrightarrow> get m k = Some v \<and> P k v"
  by (auto simp: get_retain split: option.splits if_splits)

lemma remove_insert_new: "get m k = None \<Longrightarrow> get (remove k (insert k v m)) = get m"
  by (auto simp: get_insert get_remove)

lemma len_insert_new:
  assumes "wf m" and "get m k = None"
  shows "len (insert k v m) = Suc (len m)"
proof -
  have "k \<notin> dom (get m)" using assms(2) by auto
  then show ?thesis
    using assms(1) by (simp add: len_card wf_insert get_insert finite_dom)
qed

lemma len_remove:
  assumes "wf m" and "get m k = Some v"
  shows "len m = Suc (len (remove k m))"
proof -
  have k: "k \<in> dom (get m)" using assms(2) by auto
  have "dom (get (remove k m)) = dom (get m) - {k}" by (simp add: get_remove)
  then show ?thesis
    using assms(1) card_Suc_Diff1 [OF finite_dom k] by (simp add: len_card wf_remove)
qed

lemma len_retain_le: "wf m \<Longrightarrow> len (retain P m) \<le> len m"
proof -
  assume m: "wf m"
  then have "dom (get (retain P m)) \<subseteq> dom (get m)"
    by (auto simp: get_retain_Some)
  then show ?thesis
    by (simp add: len_card wf_retain m card_mono finite_dom)
qed

end

section \<open>The association lists satisfy it\<close>

lemma hm_get_insert: "hm_get (hm_insert k v m) = (hm_get m)(k \<mapsto> v)"
  by (auto simp: hm_get_def hm_insert_def update_conv')

lemma hm_get_remove: "hm_get (hm_remove k m) = (hm_get m)(k := None)"
  by (auto simp: hm_get_def hm_remove_def delete_conv')

lemma hm_get_filter:
  "distinct (map fst m) \<Longrightarrow> map_of (filter (\<lambda>(k, v). P k v) m) k =
     (case map_of m k of None \<Rightarrow> None | Some v \<Rightarrow> if P k v then Some v else None)"
  by (induction m) (auto split: option.splits simp: map_of_eq_None_iff image_iff)

interpretation hm: rust_map hm_get hm_insert hm_remove hm_retain hm_len hm_wf
proof
  show "finite (dom (hm_get m))" for m :: "('a, 'b) hashmap"
    by (simp add: hm_get_def finite_dom_map_of)
  show "hm_wf m \<Longrightarrow> hm_len m = card (dom (hm_get m))" for m :: "('a, 'b) hashmap"
    by (simp add: hm_wf_def hm_len_def hm_get_def dom_map_of_conv_image_fst distinct_card
        flip: set_map)
  show "hm_wf m \<Longrightarrow> hm_wf (hm_retain P m)" for m :: "('a, 'b) hashmap" and P
    by (simp add: hm_wf_def hm_retain_def distinct_map_filter)
qed (auto simp: update_conv' delete_conv' hm_get_filter hm_wf_def hm_get_def hm_retain_def
    hm_insert_def hm_remove_def distinct_update distinct_delete)

section \<open>Entries and iteration order\<close>

lemma hm_get_Some_iff: "hm_wf m \<Longrightarrow> hm_get m k = Some v \<longleftrightarrow> (k, v) \<in> set m"
  by (simp add: hm_wf_def hm_get_def)

lemma hm_values_iff: "hm_wf m \<Longrightarrow> v \<in> set (hm_values m) \<longleftrightarrow> (\<exists>k. hm_get m k = Some v)"
  by (force simp: hm_values_def hm_get_Some_iff)

lemma hm_wf_empty [simp]: "hm_wf []"
  by (simp add: hm_wf_def)

lemma hm_get_empty [simp]: "hm_get [] k = None"
  by (simp add: hm_get_def)

lemma hm_len_empty [simp]: "hm_len [] = 0"
  by (simp add: hm_len_def)

lemma hm_wf_perm: "mset m = mset m' \<Longrightarrow> hm_wf m \<longleftrightarrow> hm_wf m'"
  unfolding hm_wf_def by (metis distinct_count_atmost_1 mset_map set_mset_mset)

lemma hm_get_perm: "hm_wf m \<Longrightarrow> mset m = mset m' \<Longrightarrow> hm_get m = hm_get m'"
  by (rule ext) (metis hm_get_Some_iff hm_wf_perm not_Some_eq set_mset_mset)

text \<open>
  The first value that satisfies \<open>P\<close> in iteration order. When at most one value does, it
  is the same in every order.
\<close>

lemma find_SomeD: "find P xs = Some x \<Longrightarrow> x \<in> set xs \<and> P x"
  by (induction xs) (auto split: if_splits)

lemma find_Some_unique:
  assumes "\<And>x y. x \<in> set xs \<Longrightarrow> y \<in> set xs \<Longrightarrow> P x \<Longrightarrow> P y \<Longrightarrow> x = y"
    and "x \<in> set xs" and "P x"
  shows "find P xs = Some x"
  using assms by (induction xs) auto

lemma find_perm:
  assumes uniq: "\<And>x y. x \<in> set xs \<Longrightarrow> y \<in> set xs \<Longrightarrow> P x \<Longrightarrow> P y \<Longrightarrow> x = y"
    and perm: "mset xs = mset ys"
  shows "find P xs = find P ys"
proof (cases "\<exists>x \<in> set xs. P x")
  case True
  then obtain x where x: "x \<in> set xs" "P x" by blast
  have eq: "set ys = set xs" using perm by (metis set_mset_mset)
  have "find P ys = Some x"
    by (rule find_Some_unique) (use uniq x eq in auto)
  moreover have "find P xs = Some x"
    by (rule find_Some_unique) (use uniq x in auto)
  ultimately show ?thesis by simp
next
  case False
  then have "find P xs = None" by (simp add: find_None_iff)
  moreover have "find P ys = None"
    using False perm by (metis find_None_iff set_mset_mset)
  ultimately show ?thesis by simp
qed

lemma hm_values_perm: "mset m = mset m' \<Longrightarrow> mset (hm_values m) = mset (hm_values m')"
  by (simp add: hm_values_def)

end
