(* ===== verification/Rust_Text.thy ===== *)
theory Rust_Text
  imports Turn_Prelude "HOL-Library.Sublist"
begin

text \<open>
  The string operations of the standard library the source uses. A Rust \<open>String\<close> is its
  UTF-8 bytes; an Isabelle \<open>char\<close> is a byte, so a \<open>string\<close> models it and a literal
  \<open>''abc''\<close> is the literal of the source. The separators the code splits at are ASCII, so
  splitting bytes and splitting characters agree.
\<close>

section \<open>Bytes of a string\<close>

definition as_bytes :: "string \<Rightarrow> bytes" where
  "as_bytes s = map (\<lambda>c. word_of_nat (of_char c)) s"

definition of_bytes :: "bytes \<Rightarrow> string" where
  "of_bytes bs = map (\<lambda>b. char_of (unat b)) bs"

lemma of_bytes_as_bytes [simp]: "of_bytes (as_bytes s) = s"
  by (induction s) (simp_all add: of_bytes_def as_bytes_def unat_of_nat)

lemma as_bytes_of_bytes [simp]: "as_bytes (of_bytes bs) = bs"
proof (induction bs)
  case (Cons b bs)
  have "unat b < 256" using unsigned_less [of b, where ?'a = nat] by simp
  with Cons show ?case by (simp add: of_bytes_def as_bytes_def)
qed (simp add: of_bytes_def as_bytes_def)

lemma length_as_bytes [simp]: "length (as_bytes s) = length s"
  by (simp add: as_bytes_def)

lemma as_bytes_append [simp]: "as_bytes (s @ t) = as_bytes s @ as_bytes t"
  by (simp add: as_bytes_def)

section \<open>Decimal numbers\<close>

definition is_digit :: "char \<Rightarrow> bool" where
  "is_digit c \<longleftrightarrow> 48 \<le> (of_char c :: nat) \<and> (of_char c :: nat) \<le> 57"

definition digit_val :: "char \<Rightarrow> nat" where
  "digit_val c = of_char c - 48"

definition digit_char :: "nat \<Rightarrow> char" where
  "digit_char d = char_of (48 + d)"

text \<open>\<open>format!("{}", n)\<close> of an unsigned integer.\<close>

fun show_nat :: "nat \<Rightarrow> string" where
  "show_nat n = (if n < 10 then [digit_char n] else show_nat (n div 10) @ [digit_char (n mod 10)])"

declare show_nat.simps [simp del]

definition digits_val :: "string \<Rightarrow> nat" where
  "digits_val s = foldl (\<lambda>acc c. 10 * acc + digit_val c) 0 s"

text \<open>
  \<open>str::parse\<close> at an unsigned type of \<open>w\<close> bits: an optional \<open>+\<close>, then at least one
  digit and nothing else, with a value below \<open>2 ^ w\<close>; every other text is an error.
\<close>

definition parse_uint :: "nat \<Rightarrow> string \<Rightarrow> nat option" where
  "parse_uint w s =
     (let ds = (if s \<noteq> [] \<and> hd s = CHR ''+'' then tl s else s) in
      if ds \<noteq> [] \<and> list_all is_digit ds \<and> digits_val ds < 2 ^ w then Some (digits_val ds)
      else None)"

lemma of_char_digit_char: "d < 10 \<Longrightarrow> of_char (digit_char d) = 48 + d"
  by (simp add: digit_char_def)

lemma is_digit_digit_char [simp]: "d < 10 \<Longrightarrow> is_digit (digit_char d)"
  by (simp add: is_digit_def of_char_digit_char)

lemma digit_val_digit_char [simp]: "d < 10 \<Longrightarrow> digit_val (digit_char d) = d"
  by (simp add: digit_val_def of_char_digit_char)

lemma show_nat_digits: "list_all is_digit (show_nat n)"
proof (induction n rule: show_nat.induct)
  case (1 n)
  then show ?case by (subst show_nat.simps) auto
qed

lemma show_nat_not_Nil [simp]: "show_nat n \<noteq> []"
  by (subst show_nat.simps) simp

lemma digits_val_show_nat [simp]: "digits_val (show_nat n) = n"
proof (induction n rule: show_nat.induct)
  case (1 n)
  show ?case
  proof (cases "n < 10")
    case False
    then have "digits_val (show_nat n) = 10 * digits_val (show_nat (n div 10)) + n mod 10"
      by (subst show_nat.simps) (simp add: digits_val_def)
    with 1 False show ?thesis by simp
  qed (subst show_nat.simps, simp add: digits_val_def)
qed

lemma show_nat_inj: "show_nat m = show_nat n \<Longrightarrow> m = n"
  by (metis digits_val_show_nat)

lemma not_digit_notin_show_nat: "\<not> is_digit c \<Longrightarrow> c \<notin> set (show_nat n)"
  using show_nat_digits [of n] by (auto simp: list_all_iff)

lemma separators_not_digits [simp]:
  "\<not> is_digit CHR ''.''" "\<not> is_digit CHR '':''" "\<not> is_digit CHR ''+''" "\<not> is_digit CHR ''/''"
  by (simp_all add: is_digit_def of_char_def)

lemma show_nat_no_sep [simp]:
  "CHR ''.'' \<notin> set (show_nat n)" "CHR '':'' \<notin> set (show_nat n)"
  "CHR ''+'' \<notin> set (show_nat n)" "CHR ''/'' \<notin> set (show_nat n)"
  by (simp_all add: not_digit_notin_show_nat)

text \<open>Parsing what was printed gives the number back, whenever it fits the type.\<close>

lemma parse_uint_show_nat: "parse_uint w (show_nat n) = (if n < 2 ^ w then Some n else None)"
proof -
  have "hd (show_nat n) \<noteq> CHR ''+''"
    by (metis hd_in_set show_nat_no_sep(3) show_nat_not_Nil)
  then show ?thesis by (simp add: parse_uint_def show_nat_digits Let_def)
qed

lemma parse_uint_bound: "parse_uint w s = Some n \<Longrightarrow> n < 2 ^ w"
  by (auto simp: parse_uint_def Let_def split: if_splits)

section \<open>Splitting\<close>

text \<open>\<open>s.split(c).collect()\<close>: the pieces between the separators, one more than separators.\<close>

fun split_on :: "char \<Rightarrow> string \<Rightarrow> string list" where
  "split_on c [] = [[]]"
| "split_on c (x # xs) =
     (if x = c then [] # split_on c xs
      else (case split_on c xs of [] \<Rightarrow> [[x]] | p # ps \<Rightarrow> (x # p) # ps))"

lemma split_on_not_Nil [simp]: "split_on c s \<noteq> []"
  by (induction s) (auto split: list.splits)

lemma split_on_no_sep: "c \<notin> set s \<Longrightarrow> split_on c s = [s]"
  by (induction s) auto

lemma split_on_append:
  "c \<notin> set s \<Longrightarrow> split_on c (s @ c # t) = s # split_on c t"
  by (induction s) auto

lemma length_split_on: "length (split_on c s) = Suc (count_list s c)"
  by (induction s) (auto split: list.splits)

section \<open>Lossy UTF-8 decoding\<close>

text \<open>
  \<open>String::from_utf8_lossy\<close>: well-formed sequences are kept; each maximal ill-formed
  prefix of a sequence becomes U+FFFD, the bytes EF BF BD. \<open>utf8_step bs\<close> is the length of
  the first chunk of a non-empty input and whether it is well formed.
\<close>

definition cont :: "bytes \<Rightarrow> nat \<Rightarrow> u8 \<Rightarrow> u8 \<Rightarrow> bool" where
  "cont bs i lo hi \<longleftrightarrow> i < length bs \<and> lo \<le> bs ! i \<and> bs ! i \<le> hi"

definition utf8_step :: "bytes \<Rightarrow> nat \<times> bool" where
  "utf8_step bs =
     (let b = bs ! 0;
          tail2 = (\<lambda>lo hi. if \<not> cont bs 1 lo hi then (1, False)
                    else if \<not> cont bs 2 0x80 0xBF then (2, False) else (3, True));
          tail3 = (\<lambda>lo hi. if \<not> cont bs 1 lo hi then (1, False)
                    else if \<not> cont bs 2 0x80 0xBF then (2, False)
                    else if \<not> cont bs 3 0x80 0xBF then (3, False) else (4, True)) in
      if b < 0x80 then (1, True)
      else if 0xC2 \<le> b \<and> b \<le> 0xDF then
        (if cont bs 1 0x80 0xBF then (2, True) else (1, False))
      else if b = 0xE0 then tail2 0xA0 0xBF
      else if b = 0xED then tail2 0x80 0x9F
      else if 0xE1 \<le> b \<and> b \<le> 0xEF then tail2 0x80 0xBF
      else if b = 0xF0 then tail3 0x90 0xBF
      else if 0xF1 \<le> b \<and> b \<le> 0xF3 then tail3 0x80 0xBF
      else if b = 0xF4 then tail3 0x80 0x8F
      else (1, False))"

lemma utf8_step_pos: "0 < fst (utf8_step bs)"
  by (simp add: utf8_step_def Let_def)

lemma utf8_step_drops: "(n, ok) = utf8_step bs \<Longrightarrow> 0 < n"
  using utf8_step_pos [of bs] by (metis fst_conv)

function utf8_lossy :: "bytes \<Rightarrow> bytes" where
  "utf8_lossy bs =
     (if bs = [] then []
      else case utf8_step bs of (n, ok) \<Rightarrow>
        (if ok then take n bs else [0xEF, 0xBF, 0xBD]) @ utf8_lossy (drop n bs))"
  by pat_completeness auto
termination
  by (relation "measure length") (auto dest: utf8_step_drops)

declare utf8_lossy.simps [simp del]

definition from_utf8_lossy :: "bytes \<Rightarrow> string" where
  "from_utf8_lossy bs = of_bytes (utf8_lossy bs)"

text \<open>Decoding leaves ASCII alone: what an ASCII user name or nonce says is what is read.\<close>

lemma utf8_lossy_ascii: "list_all (\<lambda>b. b < 0x80) bs \<Longrightarrow> utf8_lossy bs = bs"
proof (induction bs)
  case (Cons b bs)
  then have "utf8_step (b # bs) = (1, True)" by (simp add: utf8_step_def Let_def)
  with Cons show ?case by (subst utf8_lossy.simps) simp
qed (simp add: utf8_lossy.simps)

definition is_ascii :: "string \<Rightarrow> bool" where
  "is_ascii s \<longleftrightarrow> list_all (\<lambda>c. (of_char c :: nat) < 128) s"

lemma from_utf8_lossy_ascii: "is_ascii s \<Longrightarrow> from_utf8_lossy (as_bytes s) = s"
proof -
  assume s: "is_ascii s"
  have "list_all (\<lambda>b. b < 0x80) (as_bytes s)"
    using s by (auto simp: as_bytes_def is_ascii_def list_all_iff word_less_nat_alt unat_of_nat)
  then show ?thesis by (simp add: from_utf8_lossy_def utf8_lossy_ascii)
qed

end
