(* ===== verification/Net_Addr.thy ===== *)
theory Net_Addr
  imports Rust_Text
begin

text \<open>
  \<open>std::net\<close> addresses and their \<open>Display\<close> form. The access-control list matches the
  printed client address, and the bandwidth manager keys its trackers by the printed relay
  address, so the printer is part of the model. A \<open>SocketAddrV6\<close> carries its flow
  information and scope identifier, which take part in its equality.
\<close>

datatype ipv4_addr = Ipv4 u8 u8 u8 u8

datatype ip_addr = IpV4 ipv4_addr | IpV6 "128 word"

datatype socket_addr =
    SocketV4 ipv4_addr u16
  | SocketV6 "128 word" u16 u32 u32  \<comment> \<open>address, port, flow information, scope\<close>

fun octets :: "ipv4_addr \<Rightarrow> bytes" where
  "octets (Ipv4 a b c d) = [a, b, c, d]"

fun sock_ip :: "socket_addr \<Rightarrow> ip_addr" where
  "sock_ip (SocketV4 ip port) = IpV4 ip"
| "sock_ip (SocketV6 ip port flow scope) = IpV6 ip"

fun sock_port :: "socket_addr \<Rightarrow> u16" where
  "sock_port (SocketV4 ip port) = port"
| "sock_port (SocketV6 ip port flow scope) = port"

text \<open>\<open>SocketAddr::new\<close>: flow information and scope start at zero.\<close>

fun socket_new :: "ip_addr \<Rightarrow> u16 \<Rightarrow> socket_addr" where
  "socket_new (IpV4 ip) port = SocketV4 ip port"
| "socket_new (IpV6 ip) port = SocketV6 ip port 0 0"

lemma sock_ip_new [simp]: "sock_ip (socket_new ip port) = ip"
  by (cases ip) simp_all

lemma sock_port_new [simp]: "sock_port (socket_new ip port) = port"
  by (cases ip) simp_all

section \<open>Display\<close>

fun ipv4_to_string :: "ipv4_addr \<Rightarrow> string" where
  "ipv4_to_string (Ipv4 a b c d) =
     show_nat (unat a) @ CHR ''.'' # show_nat (unat b) @ CHR ''.'' #
     show_nat (unat c) @ CHR ''.'' # show_nat (unat d)"

definition segments :: "128 word \<Rightarrow> u16 list" where
  "segments w = map (\<lambda>i. ucast (drop_bit (16 * (7 - i)) w)) [0..<8]"

definition hex_char :: "nat \<Rightarrow> char" where
  "hex_char d = (if d < 10 then char_of (48 + d) else char_of (87 + d))"

fun show_hex :: "nat \<Rightarrow> string" where
  "show_hex n = (if n < 16 then [hex_char n] else show_hex (n div 16) @ [hex_char (n mod 16)])"

declare show_hex.simps [simp del]

fun join_with :: "string \<Rightarrow> string list \<Rightarrow> string" where
  "join_with sep [] = []"
| "join_with sep [p] = p"
| "join_with sep (p # q # ps) = p @ sep @ join_with sep (q # ps)"

definition fmt_subslice :: "u16 list \<Rightarrow> string" where
  "fmt_subslice ss = join_with '':'' (map (\<lambda>s. show_hex (unat s)) ss)"

text \<open>
  The longest run of zero segments, the first one of that length: the loop state is the
  index, the longest span and the current span, each span a start and a length.
\<close>

fun longest_zeroes :: "nat \<Rightarrow> u16 list \<Rightarrow> nat \<times> nat \<Rightarrow> nat \<times> nat \<Rightarrow> nat \<times> nat" where
  "longest_zeroes i [] longest current = longest"
| "longest_zeroes i (s # ss) longest current =
     (if s = 0 then
        (let cur = (if snd current = 0 then i else fst current, Suc (snd current)) in
         longest_zeroes (Suc i) ss (if snd cur > snd longest then cur else longest) cur)
      else longest_zeroes (Suc i) ss longest (0, 0))"

definition ipv6_to_string :: "128 word \<Rightarrow> string" where
  "ipv6_to_string w =
     (let ss = segments w in
      if take 6 ss = [0, 0, 0, 0, 0, 0xFFFF] then
        ''::ffff:'' @ ipv4_to_string
          (Ipv4 (ucast (drop_bit 24 w)) (ucast (drop_bit 16 w)) (ucast (drop_bit 8 w)) (ucast w))
      else case longest_zeroes 0 ss (0, 0) (0, 0) of (start, n) \<Rightarrow>
        if n > 1 then fmt_subslice (take start ss) @ ''::'' @ fmt_subslice (drop (start + n) ss)
        else fmt_subslice ss)"

fun ip_to_string :: "ip_addr \<Rightarrow> string" where
  "ip_to_string (IpV4 ip) = ipv4_to_string ip"
| "ip_to_string (IpV6 ip) = ipv6_to_string ip"

fun sock_to_string :: "socket_addr \<Rightarrow> string" where
  "sock_to_string (SocketV4 ip port) = ipv4_to_string ip @ CHR '':'' # show_nat (unat port)"
| "sock_to_string (SocketV6 ip port flow scope) =
     CHR ''['' # ipv6_to_string ip @
     (if scope = 0 then [] else CHR ''%'' # show_nat (unat scope)) @
     '']:'' @ show_nat (unat port)"

section \<open>Printed IPv4 addresses\<close>

lemma split_ipv4_to_string:
  "split_on CHR ''.'' (ipv4_to_string (Ipv4 a b c d)) =
     [show_nat (unat a), show_nat (unat b), show_nat (unat c), show_nat (unat d)]"
  by (simp add: split_on_append split_on_no_sep)

lemma ipv4_to_string_inj: "ipv4_to_string x = ipv4_to_string y \<Longrightarrow> x = y"
proof -
  assume eq: "ipv4_to_string x = ipv4_to_string y"
  obtain a b c d where x: "x = Ipv4 a b c d" by (cases x)
  obtain a' b' c' d' where y: "y = Ipv4 a' b' c' d'" by (cases y)
  from eq x y have "[show_nat (unat a), show_nat (unat b), show_nat (unat c), show_nat (unat d)] =
      [show_nat (unat a'), show_nat (unat b'), show_nat (unat c'), show_nat (unat d')]"
    by (metis split_ipv4_to_string)
  then show ?thesis by (simp add: x y) (metis show_nat_inj unsigned_word_eqI)
qed

lemma colon_notin_ipv4 [simp]: "CHR '':'' \<notin> set (ipv4_to_string ip)"
  by (cases ip) simp

lemma slash_notin_ipv4 [simp]: "CHR ''/'' \<notin> set (ipv4_to_string ip)"
  by (cases ip) simp

lemma sock_to_string_v4_inj:
  assumes "sock_to_string (SocketV4 ip p) = sock_to_string (SocketV4 ip' p')"
  shows "ip = ip' \<and> p = p'"
proof -
  from assms have "ipv4_to_string ip @ CHR '':'' # show_nat (unat p) =
      ipv4_to_string ip' @ CHR '':'' # show_nat (unat p')" by simp
  then have "ipv4_to_string ip = ipv4_to_string ip' \<and> show_nat (unat p) = show_nat (unat p')"
    by (rule append_sep_inj) simp_all
  then show ?thesis by (metis ipv4_to_string_inj show_nat_inj unsigned_word_eqI)
qed

end
