(* ===== verification/Stun_Message.thy ===== *)
theory Stun_Message
  imports Net_Addr
begin

text \<open>
  The STUN/TURN wire format of \<open>src/message.rs\<close>: message header, attributes, whole
  messages, XOR-encoded addresses, error responses and the hand-written Binding response.
  A transaction identifier is a \<open>[u8; 12]\<close> in the source and a byte list here; the
  predicate \<open>msg_ok\<close> carries its length. Byte buffers grow by appending, so each
  \<open>encode(&self, buf)\<close> is the function that returns what it appends.
\<close>

section \<open>Header\<close>

datatype stun_method = Binding | Allocate | Refresh | Send | Data | CreatePermission | ChannelBind

datatype event_type = Request | Indication | Success | Error

datatype error_code =
    TryAlternate | BadRequest | Unauthorized | Forbidden | NotFound | AllocationMismatch
  | StaleCredentials | UnsupportedTransport | AllocationQuotaReached | RoleConflict
  | ServerError | InsufficientCapacity

fun method_u16 :: "stun_method \<Rightarrow> u16" where
  "method_u16 Binding = 0x0001"
| "method_u16 Allocate = 0x0003"
| "method_u16 Refresh = 0x0004"
| "method_u16 Send = 0x0006"
| "method_u16 Data = 0x0007"
| "method_u16 CreatePermission = 0x0008"
| "method_u16 ChannelBind = 0x0009"

fun event_u16 :: "event_type \<Rightarrow> u16" where
  "event_u16 Request = 0"
| "event_u16 Indication = 1"
| "event_u16 Success = 2"
| "event_u16 Error = 3"

fun code :: "error_code \<Rightarrow> u16" where
  "code TryAlternate = 300"
| "code BadRequest = 400"
| "code Unauthorized = 401"
| "code Forbidden = 403"
| "code NotFound = 404"
| "code AllocationMismatch = 437"
| "code StaleCredentials = 438"
| "code UnsupportedTransport = 442"
| "code AllocationQuotaReached = 486"
| "code RoleConflict = 487"
| "code ServerError = 500"
| "code InsufficientCapacity = 508"

text \<open>The derived \<open>Debug\<close> text of an error code, the default reason phrase.\<close>

fun code_debug :: "error_code \<Rightarrow> string" where
  "code_debug TryAlternate = ''TryAlternate''"
| "code_debug BadRequest = ''BadRequest''"
| "code_debug Unauthorized = ''Unauthorized''"
| "code_debug Forbidden = ''Forbidden''"
| "code_debug NotFound = ''NotFound''"
| "code_debug AllocationMismatch = ''AllocationMismatch''"
| "code_debug StaleCredentials = ''StaleCredentials''"
| "code_debug UnsupportedTransport = ''UnsupportedTransport''"
| "code_debug AllocationQuotaReached = ''AllocationQuotaReached''"
| "code_debug RoleConflict = ''RoleConflict''"
| "code_debug ServerError = ''ServerError''"
| "code_debug InsufficientCapacity = ''InsufficientCapacity''"

record message_header =
  hdr_method :: stun_method
  hdr_event_type :: event_type
  message_length :: u16
  magic_cookie :: u32
  transaction_id :: bytes

definition MAGIC :: u32 where
  "MAGIC = 0x2112A442"

definition method_of_val :: "u16 \<Rightarrow> stun_method option" where
  "method_of_val v =
     (if v = 0x0001 then Some Binding
      else if v = 0x0003 then Some Allocate
      else if v = 0x0004 then Some Refresh
      else if v = 0x0006 then Some Send
      else if v = 0x0007 then Some Data
      else if v = 0x0008 then Some CreatePermission
      else if v = 0x0009 then Some ChannelBind
      else None)"

definition event_of_class :: "u16 \<Rightarrow> event_type option" where
  "event_of_class c =
     (if c = 0 then Some Request
      else if c = 1 then Some Indication
      else if c = 2 then Some Success
      else if c = 3 then Some Error
      else None)"

text \<open>RFC 5389 type field: the method bits are interleaved with the two class bits.\<close>

definition method_bits :: "u16 \<Rightarrow> u16" where
  "method_bits v =
     (v AND 0x000F) OR (drop_bit 1 v AND 0x0070) OR (drop_bit 2 v AND 0x0F80)"

definition class_bits :: "u16 \<Rightarrow> u16" where
  "class_bits v = (drop_bit 4 v AND 1) OR (drop_bit 7 v AND 2)"

text \<open>The RFC 3489 fallback reads class and method from other bits.\<close>

definition method_bits_3489 :: "u16 \<Rightarrow> u16" where
  "method_bits_3489 v =
     (let first = (ucast (drop_bit 8 v) :: u8); second = (ucast (v AND 0xFF) :: u8)
      in push_bit 7 (ucast (first AND 0x3E)) OR ucast (second AND 0x0F))"

definition class_bits_3489 :: "u16 \<Rightarrow> u16" where
  "class_bits_3489 v =
     (let first = (ucast (drop_bit 8 v) :: u8); second = (ucast (v AND 0xFF) :: u8)
      in ucast ((first AND 0x01) OR drop_bit 3 (second AND 0x10)))"

definition header_parse :: "bytes \<Rightarrow> message_header option" where
  "header_parse data =
     (if length data < 20 then None
      else if data ! 4 = 0x21 \<and> data ! 5 = 0x12 \<and> data ! 6 = 0xA4 \<and> data ! 7 = 0x42 then
        (let value = be16 (data ! 0) (data ! 1) in
         case method_of_val (method_bits value) of None \<Rightarrow> None
         | Some m \<Rightarrow>
           (case event_of_class (class_bits value) of None \<Rightarrow> None
            | Some e \<Rightarrow> Some \<lparr>hdr_method = m, hdr_event_type = e,
                message_length = be16 (data ! 2) (data ! 3), magic_cookie = 0x2112A442,
                transaction_id = slice_bytes data 8 20\<rparr>))
      else if length data < 16 then None
      else
        (let msg_type = be16 (data ! 0) (data ! 1) in
         case method_of_val (method_bits_3489 msg_type) of None \<Rightarrow> None
         | Some m \<Rightarrow>
           (case event_of_class (class_bits_3489 msg_type) of None \<Rightarrow> None
            | Some e \<Rightarrow> Some \<lparr>hdr_method = m, hdr_event_type = e,
                message_length = be16 (data ! 2) (data ! 3), magic_cookie = 0x2112A442,
                transaction_id = slice_bytes data 4 16\<rparr>)))"

definition type_field :: "stun_method \<Rightarrow> event_type \<Rightarrow> u16" where
  "type_field m e =
     (let method_val = method_u16 m; class_val = event_u16 e;
          a = method_val AND 0x000F; b = method_val AND 0x0070; d = method_val AND 0x0F80;
          method_enc = a + push_bit 1 b + push_bit 2 d;
          c0 = push_bit 4 (class_val AND 1); c1 = push_bit 7 (class_val AND 2)
      in method_enc + c0 + c1)"

definition header_encode :: "message_header \<Rightarrow> bytes" where
  "header_encode h =
     put_u16 (type_field (hdr_method h) (hdr_event_type h)) @ put_u16 (message_length h) @
     put_u32 (magic_cookie h) @ transaction_id h"

section \<open>Attributes\<close>

record attribute =
  attr_type :: u16
  attr_value :: bytes

definition XOR_MAPPED_ADDRESS :: u16 where "XOR_MAPPED_ADDRESS = 0x0020"
definition XOR_RELAYED_ADDRESS :: u16 where "XOR_RELAYED_ADDRESS = 0x0016"
definition REALM :: u16 where "REALM = 0x0014"
definition NONCE :: u16 where "NONCE = 0x0015"
definition USERNAME :: u16 where "USERNAME = 0x0006"
definition MESSAGE_INTEGRITY :: u16 where "MESSAGE_INTEGRITY = 0x0008"
definition LIFETIME :: u16 where "LIFETIME = 0x000D"
definition DATA :: u16 where "DATA = 0x0013"
definition CHANNEL_NUMBER :: u16 where "CHANNEL_NUMBER = 0x000C"
definition PEER_ADDRESS :: u16 where "PEER_ADDRESS = 0x0012"
definition REQUESTED_TRANSPORT :: u16 where "REQUESTED_TRANSPORT = 0x0019"
definition ERROR_CODE :: u16 where "ERROR_CODE = 0x0009"
definition SOFTWARE :: u16 where "SOFTWARE = 0x8022"

lemmas attribute_types =
  XOR_MAPPED_ADDRESS_def XOR_RELAYED_ADDRESS_def REALM_def NONCE_def USERNAME_def
  MESSAGE_INTEGRITY_def LIFETIME_def DATA_def CHANNEL_NUMBER_def PEER_ADDRESS_def
  REQUESTED_TRANSPORT_def ERROR_CODE_def SOFTWARE_def

definition attr_decode :: "bytes \<Rightarrow> attribute option" where
  "attr_decode data =
     (if length data < 4 then None
      else let ty = be16 (data ! 0) (data ! 1); len = unat (be16 (data ! 2) (data ! 3)) in
        if len > length data - 4 then None
        else if len > 65535 then None
        else Some \<lparr>attr_type = ty, attr_value = slice_bytes data 4 (4 + len)\<rparr>)"

text \<open>The length is cast to \<open>u16\<close>, and the padding is computed from the cast length.\<close>

definition attr_encode :: "attribute \<Rightarrow> bytes" where
  "attr_encode a =
     (let len = (word_of_nat (length (attr_value a)) :: u16);
          padding = (4 - len mod 4) mod 4
      in put_u16 (attr_type a) @ put_u16 len @ attr_value a @
         (if padding > 0 then take (unat padding) [0, 0, 0, 0] else []))"

section \<open>Messages\<close>

record message =
  header :: message_header
  attributes :: "attribute list"

function parse_attrs :: "bytes \<Rightarrow> nat \<Rightarrow> nat \<Rightarrow> attribute list \<Rightarrow> attribute list option" where
  "parse_attrs data offset end_offset attrs =
     (if offset < end_offset then
        if offset + 4 > end_offset then None
        else case attr_decode (slice_bytes data offset end_offset) of
          None \<Rightarrow> Some attrs
        | Some attr \<Rightarrow>
            (let attr_len = length (attr_value attr) + 4;
                 padding = (4 - attr_len mod 4) mod 4;
                 total_attr_size = attr_len + padding
             in if total_attr_size = 0 \<or> offset + total_attr_size > end_offset then None
                else parse_attrs data (offset + total_attr_size) end_offset (attrs @ [attr]))
      else Some attrs)"
  by pat_completeness auto
termination by (relation "measure (\<lambda>(data, offset, end_offset, attrs). end_offset - offset)") auto

declare parse_attrs.simps [simp del]

definition message_parse :: "bytes \<Rightarrow> message option" where
  "message_parse data =
     (if length data < 20 then None
      else case header_parse data of None \<Rightarrow> None
        | Some h \<Rightarrow>
          (let total_length = 20 + unat (message_length h) in
           if total_length > length data then None
           else case parse_attrs data 20 total_length [] of None \<Rightarrow> None
             | Some attrs \<Rightarrow> Some \<lparr>header = h, attributes = attrs\<rparr>))"

definition attrs_encode :: "attribute list \<Rightarrow> bytes" where
  "attrs_encode attrs = concat (map attr_encode attrs)"

definition message_encode :: "message \<Rightarrow> bytes" where
  "message_encode m =
     (let attr_buf = attrs_encode (attributes m)
      in header_encode ((header m)\<lparr>message_length := word_of_nat (length attr_buf),
           magic_cookie := 0x2112A442\<rparr>) @ attr_buf)"

definition add_attribute :: "attribute \<Rightarrow> message \<Rightarrow> message" where
  "add_attribute a m = m\<lparr>attributes := attributes m @ [a]\<rparr>"

definition get_attribute :: "message \<Rightarrow> u16 \<Rightarrow> attribute option" where
  "get_attribute m ty = List.find (\<lambda>a. attr_type a = ty) (attributes m)"

section \<open>Addresses and canned responses\<close>

definition cookie_hi :: "u32 \<Rightarrow> u16" where
  "cookie_hi c = ucast (drop_bit 16 c)"

fun encode_xor_address :: "socket_addr \<Rightarrow> u32 \<Rightarrow> bytes" where
  "encode_xor_address (SocketV4 (Ipv4 a b c d) port) cookie =
     [0, 0x01] @ put_u16 (port XOR cookie_hi cookie) @
     [a XOR ucast (drop_bit 24 cookie), b XOR ucast (drop_bit 16 cookie),
      c XOR ucast (drop_bit 8 cookie), d XOR ucast cookie]"
| "encode_xor_address (SocketV6 ip port flow scope) cookie =
     [0, 0x02] @ put_u16 (port XOR cookie_hi cookie) @ put_u32 0"

definition decode_xor_address :: "bytes \<Rightarrow> u32 \<Rightarrow> socket_addr option" where
  "decode_xor_address data cookie =
     (if length data < 8 then None
      else let family = data ! 1; port = be16 (data ! 2) (data ! 3) XOR cookie_hi cookie in
        if family = 0x01 then
          Some (SocketV4 (Ipv4 (data ! 4 XOR ucast (drop_bit 24 cookie))
                               (data ! 5 XOR ucast (drop_bit 16 cookie))
                               (data ! 6 XOR ucast (drop_bit 8 cookie))
                               (data ! 7 XOR ucast cookie)) port)
        else None)"

definition create_binding_response_fast :: "bytes \<Rightarrow> socket_addr \<Rightarrow> bytes" where
  "create_binding_response_fast tid client_addr =
     put_u16 0x0101 @ put_u16 12 @ put_u32 0x2112A442 @ tid @ put_u16 0x0020 @ put_u16 8 @
     (case client_addr of
        SocketV4 ip port \<Rightarrow>
          (case ip of Ipv4 a b c d \<Rightarrow>
             [0, 0x01] @ put_u16 (port XOR 0x2112) @
             [a XOR 0x21, b XOR 0x12, c XOR 0xa4, d XOR 0x42])
      | SocketV6 ip port flow scope \<Rightarrow> [0, 0x02] @ put_u16 0)"

definition create_error_response_with_reason ::
  "message_header \<Rightarrow> error_code \<Rightarrow> string option \<Rightarrow> message" where
  "create_error_response_with_reason h c reason =
     (let msg = \<lparr>header = \<lparr>hdr_method = hdr_method h, hdr_event_type = Error, message_length = 0,
                   magic_cookie = 0x2112A442, transaction_id = transaction_id h\<rparr>,
                 attributes = []\<rparr>;
          err_class = (ucast (code c div 100) :: u32);
          number = (ucast (code c mod 100) :: u32);
          err_buf = put_u32 (push_bit 8 err_class OR number);
          text = (case reason of Some r \<Rightarrow> r | None \<Rightarrow> code_debug c)
      in add_attribute \<lparr>attr_type = ERROR_CODE, attr_value = err_buf @ as_bytes text\<rparr> msg)"

definition create_error_response :: "message_header \<Rightarrow> error_code \<Rightarrow> message" where
  "create_error_response h c = create_error_response_with_reason h c None"

definition create_success_response :: "message_header \<Rightarrow> message" where
  "create_success_response h =
     \<lparr>header = \<lparr>hdr_method = hdr_method h, hdr_event_type = Success, message_length = 0,
        magic_cookie = 0x2112A442, transaction_id = transaction_id h\<rparr>, attributes = []\<rparr>"

section \<open>Header lemmas\<close>

lemma type_field_inverse [simp]:
  "method_of_val (method_bits (type_field m e)) = Some m"
  "event_of_class (class_bits (type_field m e)) = Some e"
  by (cases m; cases e; simp add: type_field_def method_bits_def class_bits_def
      method_of_val_def event_of_class_def)+

lemma put_u32_magic: "put_u32 0x2112A442 = [0x21, 0x12, 0xA4, 0x42]"
  by (simp add: put_u32_def)

lemma length_header_encode [simp]:
  "length (header_encode h) = 8 + length (transaction_id h)"
  by (simp add: header_encode_def)

lemma header_parse_encode:
  assumes "length (transaction_id h) = 12" "magic_cookie h = 0x2112A442"
  shows "header_parse (header_encode h @ rest) = Some h"
  using assms
  by (cases h)
     (auto simp: header_parse_def header_encode_def put_u32_magic put_u16_def slice_bytes_def
        simp flip: numeral_2_eq_2)

lemma header_parse_SomeD:
  assumes "header_parse data = Some h"
  shows "20 \<le> length data" and "magic_cookie h = 0x2112A442"
    and "length (transaction_id h) = 12" and "message_length h = be16 (data ! 2) (data ! 3)"
  using assms by (auto simp: header_parse_def Let_def split: if_splits option.splits)

lemma header_parse_append:
  assumes "20 \<le> length data"
  shows "header_parse (data @ rest) = header_parse data"
proof -
  have "(data @ rest) ! i = data ! i" if "i < 20" for i
    using assms that by (simp add: nth_append)
  moreover have "slice_bytes (data @ rest) i j = slice_bytes data i j" if "j \<le> 20" for i j
    using assms that by (simp add: slice_bytes_def)
  ultimately show ?thesis
    using assms by (simp add: header_parse_def Let_def split: option.split)
qed

section \<open>Attribute lemmas\<close>

definition pad4 :: "nat \<Rightarrow> nat" where
  "pad4 n = (4 - n mod 4) mod 4"

lemma pad4_less [simp]: "pad4 n < 4"
  by (simp add: pad4_def)

lemma pad4_add4 [simp]: "pad4 (n + 4) = pad4 n"
  by (simp add: pad4_def)

lemma unat_padding: "n < 65536 \<Longrightarrow> unat ((4 - (word_of_nat n :: u16) mod 4) mod 4) = pad4 n"
proof -
  assume n: "n < 65536"
  have m: "unat ((word_of_nat n :: u16) mod 4) = n mod 4"
    using n by (simp add: unat_mod)
  then have "(word_of_nat n :: u16) mod 4 \<le> 4"
    by (simp add: word_le_nat_alt)
  then have "unat (4 - (word_of_nat n :: u16) mod 4) = 4 - n mod 4"
    using m by (simp add: unat_sub)
  then show ?thesis by (simp add: unat_mod pad4_def)
qed

lemma attr_encode_alt:
  assumes "length (attr_value a) < 65536"
  shows "attr_encode a = put_u16 (attr_type a) @ put_u16 (word_of_nat (length (attr_value a))) @
           attr_value a @ replicate (pad4 (length (attr_value a))) 0"
proof -
  have z: "k < 4 \<Longrightarrow> take k [0, 0, 0, 0 :: u8] = replicate k 0" for k
    by (auto simp: less_Suc_eq numeral_eq_Suc)
  have p: "(if p > 0 then take (unat p) [0, 0, 0, 0 :: u8] else []) = take (unat p) [0, 0, 0, 0]"
    for p :: u16
    by (cases "p = 0") (simp_all add: word_gt_0)
  show ?thesis
    unfolding attr_encode_def Let_def p unat_padding [OF assms] z [OF pad4_less] by simp
qed

lemma length_attr_encode:
  "length (attr_value a) < 65536 \<Longrightarrow>
     length (attr_encode a) = length (attr_value a) + 4 + pad4 (length (attr_value a))"
  by (simp add: attr_encode_alt)

lemma attr_decode_encode:
  assumes "length (attr_value a) < 65536"
  shows "attr_decode (attr_encode a @ rest) = Some a"
  using assms
  by (cases a) (simp add: attr_encode_alt attr_decode_def put_u16_def slice_bytes_def)

lemma attr_decode_SomeD:
  assumes "attr_decode data = Some a"
  shows "length (attr_value a) < 65536" and "length (attr_value a) + 4 \<le> length data"
  using assms by (auto simp: attr_decode_def Let_def split: if_splits)

section \<open>Message lemmas\<close>

lemma parse_attrs_done [simp]: "end_offset \<le> offset \<Longrightarrow> parse_attrs data offset end_offset acc = Some acc"
  by (simp add: parse_attrs.simps)

lemma parse_attrs_step:
  assumes "attr_decode (slice_bytes data offset end_offset) = Some a"
    and "offset + (length (attr_value a) + 4 + pad4 (length (attr_value a))) \<le> end_offset"
  shows "parse_attrs data offset end_offset acc =
      parse_attrs data (offset + (length (attr_value a) + 4 + pad4 (length (attr_value a))))
        end_offset (acc @ [a])"
  using assms by (subst parse_attrs.simps) (simp add: Let_def pad4_def)

lemma attrs_encode_simps [simp]:
  "attrs_encode [] = []"
  "attrs_encode (a # as) = attr_encode a @ attrs_encode as"
  "attrs_encode (as @ bs) = attrs_encode as @ attrs_encode bs"
  by (simp_all add: attrs_encode_def)

lemma parse_attrs_encode:
  assumes "\<forall>a\<in>set as. length (attr_value a) < 65536"
  shows "parse_attrs (pre @ attrs_encode as @ rest) (length pre)
           (length pre + length (attrs_encode as)) acc = Some (acc @ as)"
  using assms
proof (induction as arbitrary: pre acc)
  case (Cons a as)
  let ?d = "pre @ attrs_encode (a # as) @ rest"
  let ?e = "length pre + length (attrs_encode (a # as))"
  have a: "length (attr_value a) < 65536" using Cons.prems by simp
  have "slice_bytes ?d (length pre) ?e = attr_encode a @ attrs_encode as"
    by (simp add: slice_bytes_def)
  then have dec: "attr_decode (slice_bytes ?d (length pre) ?e) = Some a"
    using a by (simp add: attr_decode_encode)
  have "parse_attrs ?d (length pre) ?e acc =
      parse_attrs ((pre @ attr_encode a) @ attrs_encode as @ rest) (length (pre @ attr_encode a))
        (length (pre @ attr_encode a) + length (attrs_encode as)) (acc @ [a])"
    by (subst parse_attrs_step [OF dec]) (use a in \<open>simp_all add: length_attr_encode add_ac\<close>)
  then show ?case
    using Cons.IH [of "pre @ attr_encode a" "acc @ [a]"] Cons.prems by simp
qed simp

lemma parse_attrs_SomeD:
  assumes "parse_attrs data offset end_offset acc = Some out" and "end_offset \<le> length data"
  shows "\<exists>as. out = acc @ as \<and> (\<forall>a\<in>set as. length (attr_value a) < 65536) \<and>
    length (attrs_encode as) \<le> end_offset - offset"
  using assms
proof (induction data offset end_offset acc rule: parse_attrs.induct)
  case (1 data offset end_offset acc)
  show ?case
  proof (cases "offset < end_offset \<and> attr_decode (slice_bytes data offset end_offset) \<noteq> None")
    case True
    then obtain a where a: "attr_decode (slice_bytes data offset end_offset) = Some a" by auto
    let ?n = "length (attr_value a) + 4 + pad4 (length (attr_value a))"
    have fits: "offset + ?n \<le> end_offset" and ge4: "offset + 4 \<le> end_offset"
      using 1(2) a True by (auto simp: parse_attrs.simps [of data offset] Let_def pad4_def split: if_splits)
    have "parse_attrs data (offset + ?n) end_offset (acc @ [a]) = Some out"
      using 1(2) parse_attrs_step [OF a fits] by simp
    then obtain as where as: "out = (acc @ [a]) @ as" "\<forall>a\<in>set as. length (attr_value a) < 65536"
        "length (attrs_encode as) \<le> end_offset - (offset + ?n)"
      using 1(1) [OF _ _ a refl refl refl] True fits ge4 1(3) by (auto simp: pad4_def)
    have la: "length (attr_value a) < 65536" using attr_decode_SomeD(1) [OF a] .
    show ?thesis
      by (rule exI [of _ "a # as"]) (use as la fits length_attr_encode [OF la] in auto)
  next
    case False
    then have "out = acc" using 1(2) by (auto simp: parse_attrs.simps [of data offset] split: if_splits)
    then show ?thesis by simp
  qed
qed

lemma parse_attrs_local:
  assumes "take end_offset data = take end_offset data'"
  shows "parse_attrs data offset end_offset acc = parse_attrs data' offset end_offset acc"
  using assms
proof (induction data offset end_offset acc rule: parse_attrs.induct)
  case (1 data offset end_offset acc)
  have "slice_bytes data offset end_offset = slice_bytes data' offset end_offset"
    using 1(2) slice_bytes_take [of end_offset end_offset] by (metis order_refl)
  then show ?case
    using 1 by (auto simp: parse_attrs.simps [of data offset] parse_attrs.simps [of data' offset] Let_def
        split: option.split)
qed

text \<open>A message fits the wire format when its lengths do; \<open>canon\<close> is what \<open>encode\<close> makes of it.\<close>

definition msg_ok :: "message \<Rightarrow> bool" where
  "msg_ok m \<longleftrightarrow> length (transaction_id (header m)) = 12 \<and>
     (\<forall>a\<in>set (attributes m). length (attr_value a) < 65536) \<and>
     length (attrs_encode (attributes m)) < 65536"

definition canon :: "message \<Rightarrow> message" where
  "canon m = m\<lparr>header := (header m)\<lparr>
     message_length := word_of_nat (length (attrs_encode (attributes m))),
     magic_cookie := 0x2112A442\<rparr>\<rparr>"

lemma canon_simps [simp]:
  "attributes (canon m) = attributes m"
  "hdr_method (header (canon m)) = hdr_method (header m)"
  "hdr_event_type (header (canon m)) = hdr_event_type (header m)"
  "transaction_id (header (canon m)) = transaction_id (header m)"
  "get_attribute (canon m) ty = get_attribute m ty"
  by (simp_all add: canon_def get_attribute_def)

lemma message_encode_canon:
  "message_encode m = header_encode (header (canon m)) @ attrs_encode (attributes m)"
  by (simp add: message_encode_def canon_def Let_def)

lemma length_message_encode:
  "msg_ok m \<Longrightarrow> length (message_encode m) = 20 + length (attrs_encode (attributes m))"
  by (simp add: message_encode_canon msg_ok_def)

lemma message_parse_encode_append:
  assumes "msg_ok m"
  shows "message_parse (message_encode m @ rest) = Some (canon m)"
proof -
  let ?h = "header (canon m)" and ?as = "attributes m"
  have ok: "length (transaction_id (header m)) = 12" "\<forall>a\<in>set ?as. length (attr_value a) < 65536"
    "length (attrs_encode ?as) < 65536"
    using assms by (simp_all add: msg_ok_def)
  have h: "header_parse (header_encode ?h @ attrs_encode ?as @ rest) = Some ?h"
    using ok by (intro header_parse_encode) (simp_all add: canon_def)
  have len: "length (header_encode ?h) = 20" and ml: "unat (message_length ?h) = length (attrs_encode ?as)"
    using ok by (simp_all add: canon_def)
  have "parse_attrs (header_encode ?h @ attrs_encode ?as @ rest) 20 (20 + length (attrs_encode ?as)) []
      = Some ?as"
    using parse_attrs_encode [OF ok(2), of "header_encode ?h" rest "[]"] unfolding len by simp
  then show ?thesis
    by (simp add: message_parse_def message_encode_canon h ml ok(1))
qed

lemma message_parse_SomeD:
  assumes "message_parse data = Some m"
  shows "header_parse data = Some (header m)"
    and "20 + unat (message_length (header m)) \<le> length data"
    and "parse_attrs data 20 (20 + unat (message_length (header m))) [] = Some (attributes m)"
  using assms by (auto simp: message_parse_def Let_def split: if_splits option.splits)

lemma message_parse_msg_ok:
  assumes "message_parse data = Some m"
  shows "msg_ok m" and "length (attrs_encode (attributes m)) \<le> unat (message_length (header m))"
proof -
  note m = message_parse_SomeD [OF assms]
  obtain as where as: "attributes m = [] @ as" "\<forall>a\<in>set as. length (attr_value a) < 65536"
      "length (attrs_encode as) \<le> 20 + unat (message_length (header m)) - 20"
    using parse_attrs_SomeD [OF m(3) m(2)] by blast
  then show le: "length (attrs_encode (attributes m)) \<le> unat (message_length (header m))" by simp
  show "msg_ok m"
    using as header_parse_SomeD(3) [OF m(1)] le_less_trans [OF le unat_u16_less]
    by (simp add: msg_ok_def)
qed

lemma message_parse_local:
  assumes "message_parse data = Some m"
  shows "message_parse (take (20 + unat (message_length (header m))) data @ rest) = Some m"
proof -
  note m = message_parse_SomeD [OF assms]
  let ?n = "20 + unat (message_length (header m))"
  have "header_parse (take ?n data @ rest) = header_parse (take ?n data @ drop ?n data)"
    using m(2) by (simp only: header_parse_append length_take)
  then have h: "header_parse (take ?n data @ rest) = Some (header m)"
    using m(1) by simp
  have "parse_attrs (take ?n data @ rest) 20 ?n [] = Some (attributes m)"
    using m(2) m(3) by (subst parse_attrs_local [where data' = data]) simp_all
  then show ?thesis
    using h m(2) by (simp add: message_parse_def Let_def)
qed

section \<open>Address lemmas\<close>

lemma xor_cancel_right [simp]: "(a XOR b) XOR b = (a :: 'a :: len word)"
  by (simp add: xor.assoc)

lemma length_encode_xor_address [simp]: "length (encode_xor_address a c) = 8"
  by (cases "(a, c)" rule: encode_xor_address.cases) (simp_all add: put_u16_def put_u32_def)

lemma decode_encode_xor_v4 [simp]:
  "decode_xor_address (encode_xor_address (SocketV4 ip port) c) c = Some (SocketV4 ip port)"
  by (cases ip) (simp add: decode_xor_address_def put_u16_def del: drop_bit_xor)

lemma decode_xor_v4_only:
  "decode_xor_address data c = Some a \<Longrightarrow> \<exists>ip port. a = SocketV4 ip port"
  by (auto simp: decode_xor_address_def Let_def split: if_splits)

lemma put_u32_inverse: "be32 (put_u32 w ! 0) (put_u32 w ! 1) (put_u32 w ! 2) (put_u32 w ! 3) = w"
  by (simp add: put_u32_def)

section \<open>Properties of the wire format\<close>

text \<open>C16. A well-formed message survives the wire: parsing an encoded message, whatever
  bytes follow it, gives the message back with its length field and cookie filled in.\<close>

theorem message_roundtrip:
  assumes "msg_ok m"
  shows "message_parse (message_encode m @ rest) = Some (canon m)"
  using assms by (rule message_parse_encode_append)

text \<open>A witness: a Refresh request with a LIFETIME and a two-byte attribute that needs padding.\<close>

definition sample_message :: message where
  "sample_message =
     \<lparr>header = \<lparr>hdr_method = Refresh, hdr_event_type = Request, message_length = 0,
        magic_cookie = 0, transaction_id = [1, 2, 3, 4, 5, 6, 7, 8, 9, 10, 11, 12]\<rparr>,
      attributes = [\<lparr>attr_type = LIFETIME, attr_value = [0, 0, 2, 88]\<rparr>,
                    \<lparr>attr_type = CHANNEL_NUMBER, attr_value = [0x40, 0]\<rparr>]\<rparr>"

lemma sample_message_ok: "msg_ok sample_message"
  by (simp add: sample_message_def msg_ok_def attr_encode_def put_u16_def Let_def)

theorem message_roundtrip_witness:
  "message_parse (message_encode sample_message @ [0xFF]) = Some (canon sample_message)"
  by (rule message_roundtrip) (rule sample_message_ok)

text \<open>Whatever the parser accepts, it can send on: a parsed message is well formed, its
  re-encoding parses to the same method, class, transaction and attributes, and is no longer
  than the bytes it came from.\<close>

theorem parse_reencode:
  assumes "message_parse data = Some m"
  shows "message_parse (message_encode m) = Some (canon m) \<and>
    length (message_encode m) \<le> 20 + unat (message_length (header m)) \<and>
    20 + unat (message_length (header m)) \<le> length data"
  using message_parse_encode_append [OF message_parse_msg_ok(1) [OF assms], of "[]"]
    message_parse_msg_ok(2) [OF assms] message_parse_SomeD(2) [OF assms]
    length_message_encode [OF message_parse_msg_ok(1) [OF assms]]
  by simp

theorem parse_reencode_witness:
  "message_parse (message_encode (canon sample_message)) = Some (canon (canon sample_message)) \<and>
   length (message_encode (canon sample_message)) \<le> 36 \<and> 36 \<le> length (message_encode sample_message)"
proof -
  have p: "message_parse (message_encode sample_message) = Some (canon sample_message)"
    using message_parse_encode_append [OF sample_message_ok, of "[]"] by simp
  show ?thesis
    using parse_reencode [OF p]
    by (simp add: sample_message_def canon_def attr_encode_def put_u16_def Let_def)
qed

text \<open>The parser reads only the header and the declared number of bytes: what follows a
  message in the buffer neither changes the result nor makes the parser fail.\<close>

lemma message_parse_ignores_trailer:
  assumes "message_parse data = Some m"
  shows "message_parse (take (20 + unat (message_length (header m))) data @ rest) = Some m"
  using assms by (rule message_parse_local)

text \<open>C32. The hand-written Binding response is the general encoder's output: for an IPv4
  client it is byte for byte the encoding of a Binding success message that carries the
  client's XOR-MAPPED-ADDRESS, which the client decodes back to its own address.\<close>

theorem binding_response_fast_correct:
  "create_binding_response_fast tid (SocketV4 ip port) =
     message_encode \<lparr>header = \<lparr>hdr_method = Binding, hdr_event_type = Success, message_length = 0,
         magic_cookie = MAGIC, transaction_id = tid\<rparr>,
       attributes = [\<lparr>attr_type = XOR_MAPPED_ADDRESS,
         attr_value = encode_xor_address (SocketV4 ip port) MAGIC\<rparr>]\<rparr> \<and>
   decode_xor_address (encode_xor_address (SocketV4 ip port) MAGIC) MAGIC = Some (SocketV4 ip port)"
proof -
  have t: "type_field Binding Success = 0x0101" by (simp add: type_field_def)
  have w: "(0x2112 :: u8) = 0x12" "(0x2112A4 :: u8) = 0xA4" "(0x2112A442 :: u8) = 0x42"
    by simp_all
  show ?thesis
    by (cases ip) (simp add: t w create_binding_response_fast_def message_encode_def header_encode_def
        attr_encode_def XOR_MAPPED_ADDRESS_def MAGIC_def cookie_hi_def Let_def put_u16_def
        decode_xor_address_def del: drop_bit_xor)
qed

text \<open>The IPv6 branch of the hand-written Binding response declares eight value bytes and
  writes four: no STUN parser that checks the declared length accepts it, and this one
  rejects it.\<close>

theorem binding_response_fast_v6_unparsable:
  assumes "length tid = 12"
  shows "message_parse (create_binding_response_fast tid (SocketV6 ip port flow scope)) = None"
proof -
  let ?d = "create_binding_response_fast tid (SocketV6 ip port flow scope)"
  have "message_length h = 12" if "header_parse ?d = Some h" for h
    using header_parse_SomeD(4) [OF that]
    by (simp add: create_binding_response_fast_def put_u16_def be16_def)
  moreover have "length ?d = 28"
    using assms by (simp add: create_binding_response_fast_def)
  ultimately show ?thesis
    by (auto simp: message_parse_def Let_def split: option.split)
qed

theorem binding_response_fast_v6_unparsable_witness:
  "message_parse (create_binding_response_fast [1, 2, 3, 4, 5, 6, 7, 8, 9, 10, 11, 12]
     (SocketV6 1 5000 0 0)) = None"
  by (rule binding_response_fast_v6_unparsable) simp

text \<open>Error responses carry the numeric code in the RFC layout: class in byte 2, number in
  byte 3 with \<open>100 * class + number\<close> the code, the reason phrase after it, and the
  method and transaction of the request.\<close>

theorem error_response_layout:
  "\<exists>a. get_attribute (create_error_response_with_reason h c reason) ERROR_CODE = Some a \<and>
     100 * unat (attr_value a ! 2) + unat (attr_value a ! 3) = unat (code c) \<and>
     drop 4 (attr_value a) = as_bytes (case reason of Some r \<Rightarrow> r | None \<Rightarrow> code_debug c) \<and>
     hdr_event_type (header (create_error_response_with_reason h c reason)) = Error \<and>
     hdr_method (header (create_error_response_with_reason h c reason)) = hdr_method h \<and>
     transaction_id (header (create_error_response_with_reason h c reason)) = transaction_id h"
proof -
  have "100 * unat (put_u32 (push_bit 8 (ucast (code c div 100)) OR ucast (code c mod 100)) ! 2) +
      unat (put_u32 (push_bit 8 (ucast (code c div 100)) OR ucast (code c mod 100)) ! 3) = unat (code c)"
    by (cases c) (simp_all add: put_u32_def)
  then show ?thesis
    by (simp add: create_error_response_with_reason_def Let_def get_attribute_def add_attribute_def
        nth_append put_u32_def)
qed

fun swap_class :: "event_type \<Rightarrow> event_type" where
  "swap_class Success = Indication"
| "swap_class Indication = Success"
| "swap_class e = e"

text \<open>The RFC 3489 fallback confuses two classes: for a message without the magic cookie
  whose type field is that of a known method, requests and error responses are read back,
  while a success response is taken for an indication and an indication for a success
  response.\<close>

theorem rfc3489_swaps_classes:
  assumes "20 \<le> length data" and "slice_bytes data 4 8 \<noteq> [0x21, 0x12, 0xA4, 0x42]"
    and "be16 (data ! 0) (data ! 1) = type_field m e"
  shows "\<exists>h. header_parse data = Some h \<and> hdr_method h = m \<and> hdr_event_type h = swap_class e \<and>
    transaction_id h = slice_bytes data 4 16"
proof -
  have c: "\<not> (data ! 4 = 0x21 \<and> data ! 5 = 0x12 \<and> data ! 6 = 0xA4 \<and> data ! 7 = 0x42)"
  proof
    assume a: "data ! 4 = 0x21 \<and> data ! 5 = 0x12 \<and> data ! 6 = 0xA4 \<and> data ! 7 = 0x42"
    have "slice_bytes data 4 8 = map (\<lambda>i. data ! (4 + i)) [0..<4]"
      using assms(1) by (intro nth_equalityI) (simp_all add: slice_bytes_def)
    also have "\<dots> = [0x21, 0x12, 0xA4, 0x42]"
      using a by (simp add: upt_rec)
    finally show False using assms(2) by simp
  qed
  have "method_of_val (method_bits_3489 (type_field m e)) = Some m"
    "event_of_class (class_bits_3489 (type_field m e)) = Some (swap_class e)"
    by (cases m; cases e; simp add: type_field_def method_bits_3489_def class_bits_3489_def
        method_of_val_def event_of_class_def Let_def)+
  then show ?thesis
    using assms unfolding header_parse_def if_not_P [OF c] by simp
qed

theorem rfc3489_swaps_classes_witness:
  "\<exists>h. header_parse [1, 1, 0, 0, 0, 0, 0, 0, 0, 0, 0, 0, 0, 0, 0, 0, 0, 0, 0, 0] = Some h \<and>
     hdr_method h = Binding \<and> hdr_event_type h = Indication \<and>
     transaction_id h = [0, 0, 0, 0, 0, 0, 0, 0, 0, 0, 0, 0]"
  using rfc3489_swaps_classes
    [of "[1, 1, 0, 0, 0, 0, 0, 0, 0, 0, 0, 0, 0, 0, 0, 0, 0, 0, 0, 0]" Binding Success]
  by (simp add: slice_bytes_def be16_def type_field_def)

end
