(* ===== verification/Stream_Framing.thy ===== *)
theory Stream_Framing
  imports Stun_Message
begin

text \<open>
  Framing of STUN messages and ChannelData on a byte stream, \<open>src/server.rs\<close>: the frame
  extractor of the TCP and TLS read loops, and the writer that pads ChannelData to a
  multiple of four. \<open>buf.split_to(n)\<close> becomes the pair of the frame and what is left.
  The contract of such a codec is the locale \<open>stream_codec\<close>: under it, the frames do not
  depend on how the transport cuts the stream into reads.
\<close>

definition is_channel_number :: "u16 \<Rightarrow> bool" where
  "is_channel_number n \<longleftrightarrow> 0x4000 \<le> n \<and> n \<le> 0x7FFF"

text \<open>\<open>(n + 3) & !3\<close>: round up to a multiple of four.\<close>

definition round_up4 :: "nat \<Rightarrow> nat" where
  "round_up4 n = (n + 3) div 4 * 4"

definition extract_stream_frame :: "bytes \<Rightarrow> (bytes \<times> bytes) option" where
  "extract_stream_frame buf =
     (if length buf < 4 then None
      else let first_word = be16 (buf ! 0) (buf ! 1);
               payload_len = unat (be16 (buf ! 2) (buf ! 3))
        in if is_channel_number first_word then
             (let frame_len = 4 + round_up4 payload_len in
              if length buf < frame_len then None
              else Some (take frame_len buf, drop frame_len buf))
           else if length buf < 20 then None
           else (let frame_len = 20 + payload_len in
             if length buf < frame_len then None
             else Some (take frame_len buf, drop frame_len buf)))"

definition missing_stream_channel_padding :: "bytes \<Rightarrow> nat" where
  "missing_stream_channel_padding data =
     (if length data < 4 then 0
      else if \<not> is_channel_number (be16 (data ! 0) (data ! 1)) then 0
      else let payload_len = unat (be16 (data ! 2) (data ! 3)) in
        if length data < 4 + payload_len then 0
        else (4 + round_up4 payload_len) - length data)"

text \<open>What \<open>write_stream_frame\<close> puts on the stream when no write fails.\<close>

definition write_stream_frame :: "bytes \<Rightarrow> bytes" where
  "write_stream_frame data =
     (let padding_len = missing_stream_channel_padding data
      in data @ (if padding_len > 0 then take padding_len [0, 0, 0] else []))"

text \<open>\<open>is_channel_data_frame\<close> of the datagram and stream handlers.\<close>

definition is_channel_data_frame :: "bytes \<Rightarrow> bool" where
  "is_channel_data_frame data =
     (if length data < 4 then False else is_channel_number (be16 (data ! 0) (data ! 1)))"

lemma extract_shorter:
  assumes "extract_stream_frame buf = Some (frame, rest)"
  shows "length rest < length buf"
  using assms by (auto simp: extract_stream_frame_def Let_def split: if_splits)

text \<open>The \<open>while let Some(data) = extract_stream_frame(&mut buf)\<close> loop after a read.\<close>

function stream_frames :: "bytes \<Rightarrow> bytes list \<times> bytes" where
  "stream_frames buf =
     (case extract_stream_frame buf of
        None \<Rightarrow> ([], buf)
      | Some (frame, rest) \<Rightarrow> map_prod (Cons frame) id (stream_frames rest))"
  by pat_completeness auto
termination by (relation "measure length") (auto dest: extract_shorter)

declare stream_frames.simps [simp del]

text \<open>The read loop: each chunk a read returns is appended to the buffer, then drained.\<close>

fun read_loop :: "bytes \<Rightarrow> bytes list \<Rightarrow> bytes list \<times> bytes" where
  "read_loop buf [] = ([], buf)"
| "read_loop buf (chunk # chunks) =
     (case stream_frames (buf @ chunk) of (frames, buf') \<Rightarrow>
        map_prod ((@) frames) id (read_loop buf' chunks))"

section \<open>The contract of a stream codec\<close>

locale stream_codec =
  fixes cut :: "'b list \<Rightarrow> ('f \<times> 'b list) option"
    and drain :: "'b list \<Rightarrow> 'f list \<times> 'b list"
    and feed :: "'b list \<Rightarrow> 'b list list \<Rightarrow> 'f list \<times> 'b list"
  assumes cut_less: "cut xs = Some (f, r) \<Longrightarrow> length r < length xs"
    and cut_append: "cut xs = Some (f, r) \<Longrightarrow> cut (xs @ ys) = Some (f, r @ ys)"
    and drain_unfold: "drain xs = (case cut xs of None \<Rightarrow> ([], xs)
          | Some (f, r) \<Rightarrow> map_prod (Cons f) id (drain r))"
    and feed_Nil: "feed r [] = ([], r)"
    and feed_Cons: "feed r (c # cs) = (case drain (r @ c) of (fs, r') \<Rightarrow>
          map_prod ((@) fs) id (feed r' cs))"
begin

lemma drain_stuck: "cut xs = None \<Longrightarrow> drain xs = ([], xs)"
  by (simp add: drain_unfold)

lemma drain_go: "cut xs = Some (f, r) \<Longrightarrow> drain xs = map_prod (Cons f) id (drain r)"
  by (simp add: drain_unfold [of xs])

lemma cut_Nil: "cut [] = None"
  using cut_less [of "[]"] by (cases "cut []") auto

lemma drain_residue: "cut (snd (drain xs)) = None"
proof (induction xs rule: length_induct)
  case (1 xs)
  then show ?case
    by (cases "cut xs") (auto simp: drain_stuck drain_go dest: cut_less)
qed

lemma drain_append: "drain (xs @ ys) = map_prod ((@) (fst (drain xs))) id (drain (snd (drain xs) @ ys))"
proof (induction xs rule: length_induct)
  case (1 xs)
  show ?case
  proof (cases "cut xs")
    case None
    then show ?thesis by (simp add: drain_stuck map_prod_def split: prod.split)
  next
    case (Some p)
    obtain f r where p: "p = (f, r)" by (cases p)
    have "drain (r @ ys) = map_prod ((@) (fst (drain r))) id (drain (snd (drain r) @ ys))"
      using 1 cut_less Some p by blast
    then show ?thesis
      using Some p cut_append [of xs f r ys]
      by (simp add: drain_go prod.map_comp comp_def)
  qed
qed

lemma feed_concat: "cut r = None \<Longrightarrow> feed r cs = drain (r @ concat cs)"
proof (induction cs arbitrary: r)
  case (Cons c cs)
  have "feed (snd (drain (r @ c))) cs = drain (snd (drain (r @ c)) @ concat cs)"
    by (rule Cons.IH) (rule drain_residue)
  then show ?case
    using drain_append [of "r @ c" "concat cs"]
    by (simp add: feed_Cons case_prod_beta)
qed (simp add: feed_Nil drain_stuck)

end

text \<open>A writer whose output the extractor cuts off again.\<close>

locale stream_writer = stream_codec +
  fixes write_frame :: "'m \<Rightarrow> 'b list" and frame_of :: "'m \<Rightarrow> 'f" and writable :: "'m \<Rightarrow> bool"
  assumes cut_write: "writable m \<Longrightarrow> cut (write_frame m @ ys) = Some (frame_of m, ys)"
begin

lemma drain_written:
  "list_all writable ms \<Longrightarrow>
     drain (concat (map write_frame ms) @ ys) = map_prod ((@) (map frame_of ms)) id (drain ys)"
  by (induction ms) (simp_all add: drain_go cut_write map_prod_def case_prod_beta)

end

section \<open>The server's codec meets the contract\<close>

text \<open>A datagram the writer may put on a stream: its length agrees with its length field.\<close>

definition stream_writable :: "bytes \<Rightarrow> bool" where
  "stream_writable d \<longleftrightarrow> 4 \<le> length d \<and>
     (let payload_len = unat (be16 (d ! 2) (d ! 3)) in
      if is_channel_number (be16 (d ! 0) (d ! 1))
      then 4 + payload_len \<le> length d \<and> length d \<le> 4 + round_up4 payload_len
      else length d = 20 + payload_len)"

lemma round_up4_bounds: "n \<le> round_up4 n" "round_up4 n \<le> n + 3"
  unfolding round_up4_def by linarith+

lemma nth_append_4:
  assumes "4 \<le> length xs"
  shows "(xs @ ys) ! 0 = xs ! 0" "(xs @ ys) ! 1 = xs ! 1" "(xs @ ys) ! Suc 0 = xs ! Suc 0"
    "(xs @ ys) ! 2 = xs ! 2" "(xs @ ys) ! 3 = xs ! 3"
  using assms by (auto simp add: nth_append)

lemma extract_stream_frame_append:
  assumes "extract_stream_frame xs = Some (f, r)"
  shows "extract_stream_frame (xs @ ys) = Some (f, r @ ys)"
  using assms
  by (cases "4 \<le> length xs") (auto simp: extract_stream_frame_def Let_def nth_append_4 split: if_splits)

lemma write_stream_frame_writable:
  assumes "stream_writable d"
  shows "write_stream_frame d = d @ replicate (missing_stream_channel_padding d) 0"
    and "length (write_stream_frame d) =
      (if is_channel_number (be16 (d ! 0) (d ! 1))
       then 4 + round_up4 (unat (be16 (d ! 2) (d ! 3))) else length d)"
proof -
  let ?p = "missing_stream_channel_padding d"
  have p3: "?p \<le> 3"
    using round_up4_bounds [of "unat (be16 (d ! 2) (d ! 3))"]
    by (auto simp: missing_stream_channel_padding_def Let_def)
  then have "take ?p [0, 0, 0 :: u8] = replicate ?p 0"
    by (auto simp: le_Suc_eq numeral_eq_Suc)
  then show eq: "write_stream_frame d = d @ replicate ?p 0"
    by (simp add: write_stream_frame_def Let_def)
  show "length (write_stream_frame d) = (if is_channel_number (be16 (d ! 0) (d ! 1))
       then 4 + round_up4 (unat (be16 (d ! 2) (d ! 3))) else length d)"
    unfolding eq using assms
    by (auto simp: missing_stream_channel_padding_def stream_writable_def Let_def)
qed

lemma extract_written:
  assumes "stream_writable d"
  shows "extract_stream_frame (write_stream_frame d @ ys) = Some (write_stream_frame d, ys)"
proof -
  let ?z = "replicate (missing_stream_channel_padding d) (0 :: u8) @ ys"
  have d: "4 \<le> length d" using assms by (simp add: stream_writable_def)
  have len: "length (write_stream_frame d) =
      (if is_channel_number (be16 (d ! 0) (d ! 1))
       then 4 + round_up4 (unat (be16 (d ! 2) (d ! 3))) else length d)"
    by (rule write_stream_frame_writable(2) [OF assms])
  have w: "write_stream_frame d @ ys = d @ ?z"
    using write_stream_frame_writable(1) [OF assms] by simp
  have nth: "(write_stream_frame d @ ys) ! i = d ! i" if "i < 4" for i
    unfolding w using d that by (simp add: nth_append)
  have "length (write_stream_frame d) \<ge> 4" using len d by auto
  then show ?thesis
    using assms len nth [of 0] nth [of 1] nth [of 2] nth [of 3]
    by (auto simp: extract_stream_frame_def Let_def stream_writable_def)
qed

interpretation stream: stream_writer extract_stream_frame stream_frames read_loop
  write_stream_frame write_stream_frame stream_writable
proof unfold_locales
  show "stream_frames xs = (case extract_stream_frame xs of None \<Rightarrow> ([], xs)
      | Some (f, r) \<Rightarrow> map_prod (Cons f) id (stream_frames r))" for xs
    by (rule stream_frames.simps)
qed (auto intro: extract_shorter extract_stream_frame_append extract_written)

text \<open>Both kinds of traffic the server writes are writable.\<close>

lemma type_field_not_channel [simp]: "\<not> is_channel_number (type_field m e)"
  by (cases m; cases e; simp add: is_channel_number_def type_field_def word_le_nat_alt)

lemma message_encode_writable:
  assumes "msg_ok m"
  shows "stream_writable (message_encode m)"
  using assms length_message_encode [OF assms]
  by (simp add: stream_writable_def message_encode_canon header_encode_def put_u16_def canon_def msg_ok_def)

definition channel_data :: "u16 \<Rightarrow> bytes \<Rightarrow> bytes" where
  "channel_data n payload = put_u16 n @ put_u16 (word_of_nat (length payload)) @ payload"

lemma channel_data_writable:
  "is_channel_number n \<Longrightarrow> length payload < 65536 \<Longrightarrow> stream_writable (channel_data n payload)"
  using round_up4_bounds(1) [of "length payload"]
  by (simp add: stream_writable_def channel_data_def put_u16_def)

lemma extract_None_length:
  assumes "extract_stream_frame r = None"
  shows "length r \<le> 65554"
proof (cases "4 \<le> length r")
  case True
  define n where "n = unat (be16 (r ! 2) (r ! 3))"
  have "length r < 4 + round_up4 n \<or> length r < 20 \<or> length r < 20 + n"
    using assms True by (auto simp: extract_stream_frame_def Let_def n_def split: if_splits)
  moreover have "n \<le> 65535" by (simp add: n_def)
  ultimately show ?thesis
    using round_up4_bounds(2) [of n] by linarith
qed simp

section \<open>Properties of the framing\<close>

text \<open>C23. Framing does not depend on TCP segmentation: however the transport cuts the byte
  stream into reads, the read loop hands the server the same frames in the same order and
  keeps the same unfinished bytes.\<close>

theorem frames_independent_of_segmentation:
  "read_loop [] chunks = stream_frames (concat chunks)"
  using stream.feed_concat [of "[]" chunks] stream.cut_Nil by simp

text \<open>After a drain the buffer holds less than one frame: whatever a peer sends, at most
  65554 bytes stay buffered, far below the 10 MiB limit of the read loop.\<close>

lemma residue_bounded: "length (snd (read_loop [] chunks)) \<le> 65554"
proof -
  have "read_loop [] chunks = stream_frames (concat chunks)"
    using stream.feed_concat [of "[]" chunks] stream.cut_Nil by simp
  then show ?thesis
    using stream.drain_residue [of "concat chunks"] by (simp add: extract_None_length)
qed

text \<open>C24. What the server writes to a stream client can be read back: any sequence of encoded
  messages and ChannelData frames, written with the ChannelData padding, is cut into exactly
  those frames with nothing left over.\<close>

theorem written_frames_read_back:
  assumes "\<forall>d\<in>set ds. (\<exists>m. msg_ok m \<and> d = message_encode m) \<or>
    (\<exists>n payload. is_channel_number n \<and> length payload < 65536 \<and> d = channel_data n payload)"
  shows "stream_frames (concat (map write_stream_frame ds)) = (map write_stream_frame ds, [])"
proof -
  have "list_all stream_writable ds"
    using assms by (auto simp: list_all_iff message_encode_writable channel_data_writable)
  then show ?thesis
    using stream.drain_written [of ds "[]"] stream.drain_stuck [OF stream.cut_Nil] by simp
qed

theorem written_frames_read_back_witness:
  "let ds = [channel_data 0x4000 [7], message_encode sample_message, channel_data 0x4001 []] in
     stream_frames (concat (map write_stream_frame ds)) = (map write_stream_frame ds, [])"
proof -
  have "is_channel_number 0x4000" "is_channel_number 0x4001"
    by (simp_all add: is_channel_number_def word_le_nat_alt)
  then show ?thesis
    unfolding Let_def using sample_message_ok
    by (intro written_frames_read_back) (force intro: exI [of _ "[7]"] exI [of _ "[]"])
qed

end
