(* ===== verification/Channel_Table.thy ===== *)
theory Channel_Table
  imports Hash_Map Net_Addr Stream_Framing
begin

text \<open>
  The channel bindings of \<open>src/allocation.rs\<close>: \<open>ChannelTable\<close> maps a relayed address and
  a channel number to the peer bound to it. The argument \<open>now\<close> is \<open>Instant::now()\<close> in
  nanoseconds; \<open>Duration::from_secs(600)\<close> is \<open>600 * 10\<^sup>9\<close> of them.
\<close>

definition from_secs :: "nat \<Rightarrow> nat" where
  "from_secs s = s * 1000000000"

record channel_binding =
  channel_id :: u16
  peer_addr :: socket_addr
  bound_relayed_addr :: socket_addr
  bound_at :: nat
  bound_for :: nat

record channel_table =
  channels :: "(socket_addr \<times> u16, channel_binding) hashmap"
  next_channel :: u16

datatype turn_error =
    Err_Io string
  | Err_Protocol string
  | Err_NotFound
  | Err_AlreadyExists
  | Err_InvalidChannel
  | Err_NoAllocation
  | Err_AllocationFailed
  | Err_AllocationQuotaReached
  | Err_RelayPortExhausted
  | Err_RelayBindFailed socket_addr string
  | Err_BandwidthLimitExceeded
  | Err_Encode string
  | Err_Decode string

text \<open>\<open>Display\<close> of the error type, \<open>src/errors.rs\<close>; it ends up in error responses.\<close>

fun error_to_string :: "turn_error \<Rightarrow> string" where
  "error_to_string (Err_Io e) = ''IO error: '' @ e"
| "error_to_string (Err_Protocol s) = ''Protocol error: '' @ s"
| "error_to_string Err_NotFound = ''Not found''"
| "error_to_string Err_AlreadyExists = ''Already exists''"
| "error_to_string Err_InvalidChannel = ''Invalid channel''"
| "error_to_string Err_NoAllocation = ''No allocation''"
| "error_to_string Err_AllocationFailed = ''Allocation failed''"
| "error_to_string Err_AllocationQuotaReached = ''Allocation quota reached''"
| "error_to_string Err_RelayPortExhausted = ''No relay ports available''"
| "error_to_string (Err_RelayBindFailed addr source) =
     ''Failed to bind relay socket on '' @ sock_to_string addr @ '': '' @ source"
| "error_to_string Err_BandwidthLimitExceeded = ''Bandwidth limit exceeded''"
| "error_to_string (Err_Encode s) = ''Encode error: '' @ s"
| "error_to_string (Err_Decode s) = ''Decode error: '' @ s"

section \<open>Operations\<close>

definition binding_is_expired :: "nat \<Rightarrow> channel_binding \<Rightarrow> bool" where
  "binding_is_expired now b \<longleftrightarrow> now - bound_at b > bound_for b"

definition binding_remaining_lifetime :: "nat \<Rightarrow> channel_binding \<Rightarrow> u32" where
  "binding_remaining_lifetime now b =
     (let elapsed = now - bound_at b
      in if elapsed \<ge> bound_for b then 0
         else word_of_nat ((bound_for b - elapsed) div 1000000000))"

definition channel_table_new :: channel_table where
  "channel_table_new = \<lparr>channels = [], next_channel = 0x4000\<rparr>"

definition ch_bind ::
  "nat \<Rightarrow> u16 \<Rightarrow> socket_addr \<Rightarrow> socket_addr \<Rightarrow> channel_table \<Rightarrow> (turn_error + unit) \<times> channel_table" where
  "ch_bind now chan peer relayed t =
     (let key = (relayed, chan) in
      case hm_get (channels t) key of
        Some existing \<Rightarrow>
          if peer_addr existing = peer
          then (Inr (), t\<lparr>channels := hm_insert key (existing\<lparr>bound_at := now\<rparr>) (channels t)\<rparr>)
          else (Inl Err_AlreadyExists, t)
      | None \<Rightarrow>
          (Inr (), t\<lparr>channels := hm_insert key
             \<lparr>channel_id = chan, peer_addr = peer, bound_relayed_addr = relayed,
              bound_at = now, bound_for = from_secs 600\<rparr> (channels t)\<rparr>))"

definition get_by_channel :: "channel_table \<Rightarrow> socket_addr \<Rightarrow> u16 \<Rightarrow> channel_binding option" where
  "get_by_channel t relayed chan = hm_get (channels t) (relayed, chan)"

definition get_by_peer :: "channel_table \<Rightarrow> socket_addr \<Rightarrow> u16 option" where
  "get_by_peer t peer =
     map_option (snd \<circ> fst) (find (\<lambda>(k, ch). peer_addr ch = peer) (channels t))"

definition get_by_peer_for_relayed :: "channel_table \<Rightarrow> socket_addr \<Rightarrow> socket_addr \<Rightarrow> u16 option" where
  "get_by_peer_for_relayed t relayed peer =
     map_option (snd \<circ> fst) (find (\<lambda>(k, ch). fst k = relayed \<and> peer_addr ch = peer) (channels t))"

definition get_relayed_by_peer :: "channel_table \<Rightarrow> socket_addr \<Rightarrow> socket_addr option" where
  "get_relayed_by_peer t peer =
     map_option bound_relayed_addr (find (\<lambda>ch. peer_addr ch = peer) (hm_values (channels t)))"

definition unbind :: "socket_addr \<Rightarrow> u16 \<Rightarrow> channel_table \<Rightarrow> channel_binding option \<times> channel_table" where
  "unbind relayed chan t =
     (hm_get (channels t) (relayed, chan), t\<lparr>channels := hm_remove (relayed, chan) (channels t)\<rparr>)"

text \<open>\<open>fetch_add\<close> returns the old number; the counter is then wrapped back to the start.\<close>

definition next_id :: "channel_table \<Rightarrow> u16 \<times> channel_table" where
  "next_id t =
     (let chan = next_channel t; n = chan + 1
      in (chan, t\<lparr>next_channel := if n > 0x7FFF then 0x4000 else n\<rparr>))"

definition remove_for_relayed :: "socket_addr \<Rightarrow> channel_table \<Rightarrow> nat \<times> channel_table" where
  "remove_for_relayed relayed t =
     (let kept = hm_retain (\<lambda>k b. fst k \<noteq> relayed) (channels t)
      in (hm_len (channels t) - hm_len kept, t\<lparr>channels := kept\<rparr>))"

definition channels_cleanup_expired :: "nat \<Rightarrow> channel_table \<Rightarrow> nat \<times> channel_table" where
  "channels_cleanup_expired now t =
     (let kept = hm_retain (\<lambda>k b. \<not> binding_is_expired now b) (channels t)
      in (hm_len (channels t) - hm_len kept, t\<lparr>channels := kept\<rparr>))"

section \<open>Invariant\<close>

text \<open>Each entry is filed under its own relayed address and channel number.\<close>

definition ct_wf :: "channel_table \<Rightarrow> bool" where
  "ct_wf t \<longleftrightarrow> hm_wf (channels t) \<and>
     (\<forall>k b. hm_get (channels t) k = Some b \<longrightarrow> k = (bound_relayed_addr b, channel_id b)) \<and>
     is_channel_number (next_channel t)"

lemma ct_wfD:
  assumes "ct_wf t"
  shows "hm_wf (channels t)"
    and "hm_get (channels t) k = Some b \<Longrightarrow> k = (bound_relayed_addr b, channel_id b)"
  using assms unfolding ct_wf_def by blast+

lemma ct_wf_new [simp]: "ct_wf channel_table_new"
  by (simp add: ct_wf_def channel_table_new_def is_channel_number_def word_le_nat_alt)

lemma ct_wf_bind: "ct_wf t \<Longrightarrow> ct_wf (snd (ch_bind now chan peer relayed t))"
  by (auto simp: ct_wf_def ch_bind_def Let_def hm.get_insert hm.wf_insert split: option.split)

lemma ct_wf_unbind: "ct_wf t \<Longrightarrow> ct_wf (snd (unbind relayed chan t))"
  by (auto simp: ct_wf_def unbind_def hm.wf_remove dest: hm.get_remove_SomeD)

lemma ct_wf_remove_for_relayed: "ct_wf t \<Longrightarrow> ct_wf (snd (remove_for_relayed relayed t))"
  by (auto simp: ct_wf_def remove_for_relayed_def Let_def hm.wf_retain hm.get_retain_Some)

lemma ct_wf_cleanup: "ct_wf t \<Longrightarrow> ct_wf (snd (channels_cleanup_expired now t))"
  by (auto simp: ct_wf_def channels_cleanup_expired_def Let_def hm.wf_retain hm.get_retain_Some)

lemma is_channel_number_nat: "is_channel_number n \<longleftrightarrow> 0x4000 \<le> unat n \<and> unat n \<le> 0x7FFF"
  by (simp add: is_channel_number_def word_le_nat_alt)

lemma next_channel_range:
  assumes "is_channel_number c"
  shows "is_channel_number (if c + 1 > 0x7FFF then 0x4000 else c + 1)"
proof -
  have "unat (c + 1) = unat c + 1"
    using assms by (simp add: is_channel_number_nat unat_word_ariths)
  then show ?thesis
    using assms by (simp add: is_channel_number_nat word_less_nat_alt)
qed

lemma ct_wf_next_id: "ct_wf t \<Longrightarrow> ct_wf (snd (next_id t))"
  using next_channel_range by (simp add: ct_wf_def next_id_def Let_def)

lemmas ct_wf_ops = ct_wf_bind ct_wf_unbind ct_wf_remove_for_relayed ct_wf_cleanup ct_wf_next_id

lemma get_remove_for_relayed:
  assumes "ct_wf t"
  shows "get_by_channel (snd (remove_for_relayed relayed t)) r c =
    (if r = relayed then None else get_by_channel t r c)"
  using ct_wfD(1) [OF assms]
  by (auto simp: get_by_channel_def remove_for_relayed_def Let_def hm.get_retain split: option.split)

lemma get_by_peer_for_relayed_Some:
  assumes "ct_wf t" and "get_by_peer_for_relayed t relayed peer = Some c"
  shows "\<exists>b. get_by_channel t relayed c = Some b \<and> peer_addr b = peer"
proof -
  obtain k b where "find (\<lambda>(k, ch). fst k = relayed \<and> peer_addr ch = peer) (channels t) = Some (k, b)"
    and c: "c = snd k"
    using assms(2) by (auto simp: get_by_peer_for_relayed_def)
  then have "(k, b) \<in> set (channels t)" and "fst k = relayed" and "peer_addr b = peer"
    by (auto dest: find_SomeD)
  then show ?thesis
    using c ct_wfD(1) [OF assms(1)]
    by (auto simp: get_by_channel_def hm_get_Some_iff intro!: exI [of _ b])
qed

section \<open>Properties of channel bindings\<close>



text \<open>Removing an allocation's bindings removes all of them and nothing else, and reports how
  many there were: a later allocation that reuses the relayed address starts without channels.\<close>

lemma remove_for_relayed_selective:
  assumes "ct_wf t"
  shows "(\<forall>r c. get_by_channel (snd (remove_for_relayed relayed t)) r c =
      (if r = relayed then None else get_by_channel t r c)) \<and>
    fst (remove_for_relayed relayed t) =
      card {c. get_by_channel t relayed c \<noteq> None}"
proof -
  let ?t' = "snd (remove_for_relayed relayed t)"
  let ?K = "{c. get_by_channel t relayed c \<noteq> None}"
  note wf = ct_wfD(1) [OF assms]
  have wf': "hm_wf (channels ?t')" using ct_wf_remove_for_relayed [OF assms] by (rule ct_wfD(1))
  have g: "hm_get (channels ?t') k = (if fst k = relayed then None else hm_get (channels t) k)" for k
    using get_remove_for_relayed [OF assms, of relayed "fst k" "snd k"]
    by (simp add: get_by_channel_def)
  have "dom (hm_get (channels t)) = dom (hm_get (channels ?t')) \<union> Pair relayed ` ?K"
    by (auto simp: g get_by_channel_def image_iff split: if_splits)
  moreover have "dom (hm_get (channels ?t')) \<inter> Pair relayed ` ?K = {}"
    by (auto simp: g)
  moreover have fin: "finite (Pair relayed ` ?K)"
    by (rule finite_subset [OF _ hm.finite_dom [of "channels t"]]) (auto simp: get_by_channel_def)
  ultimately have "hm_len (channels t) = hm_len (channels ?t') + card (Pair relayed ` ?K)"
    using wf wf' by (simp add: hm.len_card card_Un_disjoint hm.finite_dom)
  then show ?thesis
    using get_remove_for_relayed [OF assms]
    by (simp add: remove_for_relayed_def Let_def card_image inj_on_def)
qed

text \<open>The channel counter never leaves the TURN channel range: every number it hands out lies
  between 0x4000 and 0x7FFF, whatever operations come before.\<close>

lemma next_id_in_range:
  assumes "ct_wf t"
  shows "is_channel_number (fst (next_id t)) \<and> ct_wf (snd (next_id t))"
  using assms ct_wf_next_id [OF assms] by (simp add: next_id_def ct_wf_def Let_def)

end
