(* ===== verification/Port_Allocator.thy ===== *)
theory Port_Allocator
  imports Turn_Prelude
begin

text \<open>
  The relay-port allocator of \<open>src/allocation.rs\<close>: a bitmap of \<open>AtomicU64\<close> words, a
  count, and a search that starts at a random word and a random bit. Each operation is one
  atomic transition here; a \<open>compare_exchange_weak\<close> that fails for no reason hands back
  the unchanged word, which for the random probe is the branch \<open>weak_fails\<close> and for the
  retry loops is another round with the same word. The abstract object is the set of ports
  in use; the locale \<open>port_pool\<close> states what the relay table relies on.
\<close>

section \<open>Random start\<close>

text \<open>\<open>port_rand\<close>: xorshift64 on the thread-local seed; a zero seed is replaced by
  \<open>fresh\<close>, the sum of the clock and a stack address. The result is also the new seed.\<close>

definition port_rand :: "u64 \<Rightarrow> u64 \<Rightarrow> u64" where
  "port_rand fresh seed =
     (let s0 = (if seed = 0 then fresh else seed);
          s1 = s0 XOR push_bit 13 s0;
          s2 = s1 XOR drop_bit 7 s1
      in s2 XOR push_bit 17 s2)"

section \<open>The allocator\<close>

record port_allocator =
  allocated :: "u64 list"
  allocated_count :: u64
  min_port :: u16
  max_port :: u16
  port_count :: u16

definition port_allocator_new :: "u16 \<Rightarrow> u16 \<Rightarrow> port_allocator" where
  "port_allocator_new lo hi =
     (let count = hi - lo + 1; num_u64s = (unat count + 63) div 64
      in \<lparr>allocated = replicate num_u64s 0, allocated_count = 0, min_port = lo, max_port = hi,
          port_count = count\<rparr>)"

definition trailing_zeros :: "u64 \<Rightarrow> nat" where
  "trailing_zeros w = length (takeWhile (\<lambda>i. \<not> bit w i) [0..<64])"

text \<open>\<open>1u64 << b\<close>\<close>

definition bit_mask :: "nat \<Rightarrow> u64" where
  "bit_mask b = push_bit b 1"

text \<open>\<open>(actual_idx * 64 + bit) as u16\<close>\<close>

definition port_index_of :: "nat \<Rightarrow> nat \<Rightarrow> u16" where
  "port_index_of k b = word_of_nat (k * 64 + b)"

text \<open>A successful exchange: set bit \<open>b\<close> of word \<open>k\<close>, count it, return the port.\<close>

definition claim_port :: "port_allocator \<Rightarrow> nat \<Rightarrow> nat \<Rightarrow> u16 \<times> port_allocator" where
  "claim_port pa k b =
     (min_port pa + port_index_of k b,
      pa\<lparr>allocated := (allocated pa)[k := allocated pa ! k OR bit_mask b],
         allocated_count := allocated_count pa + 1\<rparr>)"

text \<open>The loop over the words, in the order of the indices that remain.\<close>

fun scan_words :: "(nat \<Rightarrow> bool) \<Rightarrow> port_allocator \<Rightarrow> nat \<Rightarrow> nat \<Rightarrow> nat list \<Rightarrow>
    (u16 \<times> port_allocator) option" where
  "scan_words weak_fails pa start_idx bit_offset [] = None"
| "scan_words weak_fails pa start_idx bit_offset (bitmap_idx # rest) =
     (let actual_idx = (start_idx + bitmap_idx) mod length (allocated pa);
          current = allocated pa ! actual_idx;
          free_mask = NOT current;
          random_bit = (bit_offset + bitmap_idx) mod 64;
          free_bit = trailing_zeros free_mask
      in if current = - 1 \<or> free_mask = 0 then scan_words weak_fails pa start_idx bit_offset rest
         else if free_mask AND bit_mask random_bit \<noteq> 0 \<and>
              port_index_of actual_idx random_bit < port_count pa \<and>
              \<not> weak_fails bitmap_idx
         then Some (claim_port pa actual_idx random_bit)
         else if port_index_of actual_idx free_bit \<ge> port_count pa
         then scan_words weak_fails pa start_idx bit_offset rest
         else Some (claim_port pa actual_idx free_bit))"

text \<open>What the environment decides during one call: the entropy for a zero seed (twice),
  the seed left by the previous call on this thread, and the spurious failures.\<close>

record alloc_oracle =
  fresh1 :: u64
  fresh2 :: u64
  seed :: u64
  weak_failures :: "nat \<Rightarrow> bool"

definition port_allocate ::
  "alloc_oracle \<Rightarrow> port_allocator \<Rightarrow> (u16 option \<times> port_allocator \<times> u64) rust" where
  "port_allocate orc pa =
     (let num_u64s = length (allocated pa);
          r1 = port_rand (fresh1 orc) (seed orc);
          r2 = port_rand (fresh2 orc) r1
      in if num_u64s = 0 then Panics
         else let start_idx = unat r1 mod num_u64s;
                  bit_offset = unat (ucast r2 :: u32) mod 64
           in case scan_words (weak_failures orc) pa start_idx bit_offset [0..<num_u64s] of
                None \<Rightarrow> Returns (None, pa, r2)
              | Some (p, pa') \<Rightarrow> Returns (Some p, pa', r2))"

definition release :: "u16 \<Rightarrow> port_allocator \<Rightarrow> bool \<times> port_allocator" where
  "release port pa =
     (if port < min_port pa \<or> port > max_port pa then (False, pa)
      else let port_index = unat (port - min_port pa);
               bitmap_index = port_index div 64;
               bit_index = port_index mod 64;
               mask = bit_mask bit_index
        in if bitmap_index \<ge> length (allocated pa) then (False, pa)
           else let current = allocated pa ! bitmap_index
             in if current AND mask = 0 then (False, pa)
                else (True, pa\<lparr>allocated := (allocated pa)[bitmap_index := current AND NOT mask],
                               allocated_count := allocated_count pa - 1\<rparr>))"

text \<open>\<open>port_count as usize - allocated_count\<close>, which wraps if the count were larger.\<close>

definition available_count :: "port_allocator \<Rightarrow> u64" where
  "available_count pa = ucast (port_count pa) - allocated_count pa"

definition is_allocated :: "port_allocator \<Rightarrow> u16 \<Rightarrow> bool" where
  "is_allocated pa port =
     (if port < min_port pa \<or> port > max_port pa then False
      else let port_index = unat (port - min_port pa);
               bitmap_index = port_index div 64;
               bit_index = port_index mod 64;
               mask = bit_mask bit_index
        in if bitmap_index \<ge> length (allocated pa) then False
           else allocated pa ! bitmap_index AND mask \<noteq> 0)"

section \<open>The contract of a port pool\<close>

text \<open>
  What a client of a port allocator relies on: under the invariant an allocation does not
  panic; it returns an unused port of the range and marks it used, or finds the whole range
  in use; a release frees exactly the port it names and reports whether it was in use.
\<close>

locale port_pool =
  fixes wf :: "'s \<Rightarrow> bool"
    and used :: "'s \<Rightarrow> 'p set"
    and range_of :: "'s \<Rightarrow> 'p set"
    and alloc :: "'o \<Rightarrow> 's \<Rightarrow> ('p option \<times> 's \<times> 'r) rust"
    and free :: "'p \<Rightarrow> 's \<Rightarrow> bool \<times> 's"
  assumes alloc_returns: "wf s \<Longrightarrow> \<exists>r s' x. alloc orc s = Returns (r, s', x)"
    and alloc_Some: "wf s \<Longrightarrow> alloc orc s = Returns (Some p, s', x) \<Longrightarrow>
          p \<in> range_of s - used s \<and> used s' = insert p (used s) \<and> wf s' \<and> range_of s' = range_of s"
    and alloc_None: "wf s \<Longrightarrow> alloc orc s = Returns (None, s', x) \<Longrightarrow> used s = range_of s \<and> s' = s"
    and free_used: "wf s \<Longrightarrow> p \<in> used s \<Longrightarrow> free p s = (b, s') \<Longrightarrow>
          b \<and> used s' = used s - {p} \<and> wf s' \<and> range_of s' = range_of s"
    and free_unused: "p \<notin> used s \<Longrightarrow> free p s = (False, s)"
    and used_range: "wf s \<Longrightarrow> used s \<subseteq> range_of s"
    and finite_range: "wf s \<Longrightarrow> finite (range_of s)"
begin

lemma free_facts:
  assumes "wf s"
  shows "fst (free p s) \<longleftrightarrow> p \<in> used s" and "used (snd (free p s)) = used s - {p}"
    and "wf (snd (free p s))" and "range_of (snd (free p s)) = range_of s"
  using free_used [OF assms _ prod.collapse [symmetric], of p] free_unused [of p s] assms
  by (cases "p \<in> used s"; simp)+

lemma free_after_alloc:
  assumes "wf s" and "alloc orc s = Returns (Some p, s', x)"
  shows "fst (free p s')" and "used (snd (free p s')) = used s"
proof -
  from alloc_Some [OF assms] have wf: "wf s'" and p: "p \<in> used s'"
    and u: "used s' = insert p (used s)" "p \<notin> used s" by auto
  show "fst (free p s')" using free_facts(1) [OF wf] p by simp
  show "used (snd (free p s')) = used s" using free_facts(2) [OF wf, of p] u by simp
qed

lemma card_used: "wf s \<Longrightarrow> card (used s) \<le> card (range_of s)"
  using used_range [of s] finite_range [of s] by (simp add: card_mono)

lemma alloc_fails_iff:
  assumes "wf s" and "alloc orc s = Returns (r, s', x)"
  shows "r = None \<longleftrightarrow> used s = range_of s"
proof (cases r)
  case None
  then show ?thesis using alloc_None [OF assms(1)] assms(2) by simp
next
  case (Some p)
  then show ?thesis using alloc_Some [OF assms(1), of orc p s' x] assms(2) by auto
qed

end

section \<open>Bitmap lemmas\<close>

definition bitmap_bit :: "u64 list \<Rightarrow> nat \<Rightarrow> bool" where
  "bitmap_bit bs i \<longleftrightarrow> i div 64 < length bs \<and> bit (bs ! (i div 64)) (i mod 64)"

lemma bit_bit_mask [simp, bit_simps]: "bit (bit_mask b) j \<longleftrightarrow> j = b \<and> b < 64"
  by (auto simp: bit_mask_def bit_simps simp del: push_bit_of_1)

lemma and_mask_nonzero: "b < 64 \<Longrightarrow> w AND bit_mask b \<noteq> (0 :: u64) \<longleftrightarrow> bit w b"
proof -
  assume "b < 64"
  then have "bit (w AND bit_mask b) n \<longleftrightarrow> n = b \<and> bit w b" for n
    by (auto simp: bit_and_iff)
  then show ?thesis
    by (metis bit_0_eq bot_apply bot_bool_def bit_word_eqI)
qed

lemma index_split: "b < 64 \<Longrightarrow> i = k * 64 + b \<longleftrightarrow> i div 64 = k \<and> i mod 64 = (b :: nat)"
  by auto

lemma bitmap_set:
  "k < length bs \<Longrightarrow> b < 64 \<Longrightarrow>
     bitmap_bit (bs[k := bs ! k OR bit_mask b]) i \<longleftrightarrow> bitmap_bit bs i \<or> i = k * 64 + b"
  by (auto simp: bitmap_bit_def nth_list_update bit_simps index_split)

lemma bitmap_clear:
  "k < length bs \<Longrightarrow> b < 64 \<Longrightarrow>
     bitmap_bit (bs[k := bs ! k AND NOT (bit_mask b)]) i \<longleftrightarrow> bitmap_bit bs i \<and> i \<noteq> k * 64 + b"
  by (auto simp: bitmap_bit_def nth_list_update bit_simps index_split)

lemma bitmap_bit_finite: "finite {i. bitmap_bit bs i}"
  by (rule finite_subset [of _ "{..< 64 * length bs}"]) (auto simp: bitmap_bit_def)

lemma trailing_zeros_bit:
  assumes "w \<noteq> 0"
  shows "trailing_zeros w < 64" and "bit w (trailing_zeros w)"
    and "i < trailing_zeros w \<Longrightarrow> \<not> bit w i"
proof -
  let ?P = "\<lambda>i. \<not> bit w i"
  obtain n where n: "bit w n" "n < 64"
    using assms by (auto simp: bit_eq_iff dest: bit_imp_le_length)
  have le: "length (takeWhile ?P [0..<64]) \<le> 64"
    using length_takeWhile_le [of ?P "[0..<64]"] by simp
  have "takeWhile ?P [0..<64] \<noteq> [0..<64]"
    using n by (auto simp: takeWhile_eq_all_conv)
  then have "length (takeWhile ?P [0..<64]) \<noteq> 64"
    by (metis length_upt minus_nat.diff_0 takeWhile_eq_take take_all order_refl)
  with le show l: "trailing_zeros w < 64" by (simp add: trailing_zeros_def)
  then show "bit w (trailing_zeros w)"
    using nth_length_takeWhile [of ?P "[0..<64]"] by (simp add: trailing_zeros_def)
  show "\<not> bit w i" if "i < trailing_zeros w"
    using that l set_takeWhileD [of i ?P "[0..<64]"] takeWhile_nth [of i ?P "[0..<64]"]
    by (metis (no_types, lifting) add_0 less_trans nth_mem nth_upt trailing_zeros_def)
qed

section \<open>Invariant and abstraction\<close>

definition pa_wf :: "port_allocator \<Rightarrow> bool" where
  "pa_wf pa \<longleftrightarrow> min_port pa \<le> max_port pa \<and>
     unat (port_count pa) = unat (max_port pa) - unat (min_port pa) + 1 \<and>
     length (allocated pa) = (unat (port_count pa) + 63) div 64 \<and>
     (\<forall>i. bitmap_bit (allocated pa) i \<longrightarrow> i < unat (port_count pa)) \<and>
     unat (allocated_count pa) = card {i. bitmap_bit (allocated pa) i}"

definition used_ports :: "port_allocator \<Rightarrow> u16 set" where
  "used_ports pa = {p. is_allocated pa p}"

definition port_range :: "port_allocator \<Rightarrow> u16 set" where
  "port_range pa = {min_port pa .. max_port pa}"

lemma pa_wfD:
  assumes "pa_wf pa"
  shows "min_port pa \<le> max_port pa"
    and "unat (port_count pa) = unat (max_port pa) - unat (min_port pa) + 1"
    and "length (allocated pa) = (unat (port_count pa) + 63) div 64"
    and "bitmap_bit (allocated pa) i \<Longrightarrow> i < unat (port_count pa)"
    and "unat (allocated_count pa) = card {i. bitmap_bit (allocated pa) i}"
  using assms by (auto simp: pa_wf_def)

lemma is_allocated_iff:
  "is_allocated pa p \<longleftrightarrow> min_port pa \<le> p \<and> p \<le> max_port pa \<and>
     bitmap_bit (allocated pa) (unat (p - min_port pa))"
  by (auto simp: is_allocated_def bitmap_bit_def Let_def and_mask_nonzero not_le not_less)

lemma port_index_less:
  assumes "pa_wf pa" and "min_port pa \<le> p" and "p \<le> max_port pa"
  shows "unat (p - min_port pa) < unat (port_count pa)"
  using assms pa_wfD(2) [OF assms(1)] by (simp add: unat_sub word_le_nat_alt)

lemma port_of_index:
  assumes "pa_wf pa" and "i < unat (port_count pa)"
  shows "min_port pa \<le> min_port pa + word_of_nat i" and "min_port pa + word_of_nat i \<le> max_port pa"
proof -
  have i: "i \<le> unat (max_port pa) - unat (min_port pa)" "unat (min_port pa) \<le> unat (max_port pa)"
    using assms pa_wfD(1,2) [OF assms(1)] by (simp_all add: word_le_nat_alt)
  have "unat (max_port pa) < 65536" by simp
  with i have "unat (min_port pa) + i < 65536" by linarith
  then have "unat (min_port pa + word_of_nat i) = unat (min_port pa) + i"
    by (simp add: unat_word_ariths)
  with i show "min_port pa \<le> min_port pa + word_of_nat i" "min_port pa + word_of_nat i \<le> max_port pa"
    by (simp_all add: word_le_nat_alt)
qed

lemma port_offset_eq:
  assumes "i < 65536"
  shows "unat (q - m) = i \<longleftrightarrow> q = m + (word_of_nat i :: u16)"
proof -
  have "unat (q - m) = i \<longleftrightarrow> unat (q - m) = unat (word_of_nat i :: u16)"
    using assms by simp
  also have "\<dots> \<longleftrightarrow> q - m = word_of_nat i"
    by (simp only: word_unat_eq_iff)
  finally show ?thesis by (simp add: diff_eq_eq add.commute)
qed

lemma pa_wf_new:
  assumes "lo \<le> hi" and "unat hi - unat lo < 65535"
  shows "pa_wf (port_allocator_new lo hi)" and "used_ports (port_allocator_new lo hi) = {}"
proof -
  have no: "\<not> bitmap_bit (replicate n 0) i" for n i
    by (simp add: bitmap_bit_def)
  have "unat (hi - lo + 1) = unat hi - unat lo + 1"
    using assms by (simp add: unat_word_ariths unat_sub word_le_nat_alt)
  then show "pa_wf (port_allocator_new lo hi)"
    using assms(1) by (simp add: pa_wf_def port_allocator_new_def Let_def no)
  show "used_ports (port_allocator_new lo hi) = {}"
    by (simp add: used_ports_def is_allocated_iff port_allocator_new_def Let_def no)
qed

section \<open>Allocation and release refine the set of used ports\<close>

lemma claim_port_refines:
  assumes wf: "pa_wf pa" and k: "k < length (allocated pa)" and b: "b < 64"
    and free: "\<not> bitmap_bit (allocated pa) (k * 64 + b)" and less: "k * 64 + b < unat (port_count pa)"
    and claim: "claim_port pa k b = (p, pa')"
  shows "p \<in> port_range pa - used_ports pa" and "used_ports pa' = insert p (used_ports pa)"
    and "pa_wf pa'" and "port_range pa' = port_range pa"
proof -
  let ?i = "k * 64 + b"
  have p: "p = min_port pa + word_of_nat ?i"
    and pa': "pa' = pa\<lparr>allocated := (allocated pa)[k := allocated pa ! k OR bit_mask b],
         allocated_count := allocated_count pa + 1\<rparr>"
    using claim by (simp_all add: claim_port_def port_index_of_def)
  have i: "?i < 65536" using less unat_u16_less [of "port_count pa"] by linarith
  have bits: "bitmap_bit (allocated pa') j \<longleftrightarrow> bitmap_bit (allocated pa) j \<or> j = ?i" for j
    using k b by (simp add: pa' bitmap_set)
  have pi: "unat (q - min_port pa) = ?i \<longleftrightarrow> q = p" for q
    using port_offset_eq [OF i] p by simp
  have rng: "min_port pa \<le> p" "p \<le> max_port pa"
    using port_of_index [OF wf less] p by simp_all
  show "p \<in> port_range pa - used_ports pa"
    using rng free pi [of p] by (simp add: port_range_def used_ports_def is_allocated_iff)
  show "used_ports pa' = insert p (used_ports pa)"
    using rng bits pi by (auto simp: used_ports_def is_allocated_iff pa')
  show "port_range pa' = port_range pa" by (simp add: port_range_def pa')
  have set': "{j. bitmap_bit (allocated pa') j} = insert ?i {j. bitmap_bit (allocated pa) j}"
    using bits by blast
  have "card {j. bitmap_bit (allocated pa) j} \<le> card {..< unat (port_count pa)}"
    using pa_wfD(4) [OF wf] by (intro card_mono) auto
  then have "unat (allocated_count pa) < 65536"
    unfolding pa_wfD(5) [OF wf] card_lessThan using unat_u16_less [of "port_count pa"]
    by (rule le_less_trans)
  then have "unat (allocated_count pa + 1) = unat (allocated_count pa) + 1"
    by (simp add: unat_word_ariths)
  then have "unat (allocated_count pa') = card {j. bitmap_bit (allocated pa') j}"
    unfolding set' using pa_wfD(5) [OF wf] free bitmap_bit_finite [of "allocated pa"]
    by (simp add: pa')
  then show "pa_wf pa'"
    using wf less bits by (auto simp: pa_wf_def pa')
qed

lemma release_refines:
  assumes wf: "pa_wf pa" and used: "p \<in> used_ports pa" and rel: "release p pa = (r, pa')"
  shows "r" and "used_ports pa' = used_ports pa - {p}" and "pa_wf pa'" and "port_range pa' = port_range pa"
proof -
  let ?i = "unat (p - min_port pa)"
  let ?k = "?i div 64" and ?b = "?i mod 64"
  have al: "is_allocated pa p" using used by (simp add: used_ports_def)
  then have rng: "min_port pa \<le> p" "p \<le> max_port pa" and bit: "bitmap_bit (allocated pa) ?i"
    by (simp_all add: is_allocated_iff)
  have k: "?k < length (allocated pa)" using bit by (simp add: bitmap_bit_def)
  have "bit (allocated pa ! ?k) ?b" using bit by (simp add: bitmap_bit_def)
  then have nz: "allocated pa ! ?k AND bit_mask ?b \<noteq> 0" by (simp add: and_mask_nonzero)
  have "release p pa = (True, pa\<lparr>allocated := (allocated pa)[?k := allocated pa ! ?k AND NOT (bit_mask ?b)],
      allocated_count := allocated_count pa - 1\<rparr>)"
    using rng k nz by (simp add: release_def Let_def not_le not_less)
  with rel have r: r and pa': "pa' = pa\<lparr>allocated := (allocated pa)[?k := allocated pa ! ?k AND NOT (bit_mask ?b)],
      allocated_count := allocated_count pa - 1\<rparr>" by auto
  show r by (rule r)
  have bits: "bitmap_bit (allocated pa') j \<longleftrightarrow> bitmap_bit (allocated pa) j \<and> j \<noteq> ?i" for j
    using k by (simp add: pa' bitmap_clear)
  have "unat (q - min_port pa) = ?i \<longleftrightarrow> q = p" for q
    by (simp flip: word_unat_eq_iff)
  then show "used_ports pa' = used_ports pa - {p}"
    using bits by (auto simp: used_ports_def is_allocated_iff pa')
  show "port_range pa' = port_range pa" by (simp add: port_range_def pa')
  have set': "{j. bitmap_bit (allocated pa') j} = {j. bitmap_bit (allocated pa) j} - {?i}"
    using bits by blast
  have pos: "0 < card {j. bitmap_bit (allocated pa) j}"
    using bit bitmap_bit_finite [of "allocated pa"] by (auto simp: card_gt_0_iff)
  then have "unat (allocated_count pa - 1) = unat (allocated_count pa) - 1"
    using pa_wfD(5) [OF wf] by (simp add: unat_sub word_le_nat_alt)
  then have "unat (allocated_count pa') = card {j. bitmap_bit (allocated pa') j}"
    unfolding set' using pa_wfD(5) [OF wf] bit bitmap_bit_finite [of "allocated pa"]
    by (simp add: pa')
  then show "pa_wf pa'"
    using wf bits by (auto simp: pa_wf_def pa')
qed

lemma release_unused: "p \<notin> used_ports pa \<Longrightarrow> release p pa = (False, pa)"
  by (auto simp: release_def used_ports_def is_allocated_def Let_def split: if_splits)

lemma port_index_cast:
  assumes "pa_wf pa" and "k < length (allocated pa)" and "b < 64"
  shows "unat (port_index_of k b) = k * 64 + b"
proof -
  have "k < (65535 + 63) div 64"
    using assms(2) pa_wfD(3) [OF assms(1)] unat_u16_le [of "port_count pa"]
    by (metis add_le_mono1 div_le_mono less_le_trans)
  then have "k * 64 + b < 65536" using assms(3) by simp
  then show ?thesis unfolding port_index_of_def by (rule unat_of_nat_u16)
qed

lemma scan_words_full:
  assumes "allocated pa ! ((st + j) mod length (allocated pa)) = - 1 \<or>
    NOT (allocated pa ! ((st + j) mod length (allocated pa))) = 0"
  shows "scan_words wk pa st bo (j # js) = scan_words wk pa st bo js"
  by (simp only: scan_words.simps Let_def if_P [OF assms])

lemma scan_words_step:
  assumes "\<not> (allocated pa ! ((st + j) mod length (allocated pa)) = - 1 \<or>
    NOT (allocated pa ! ((st + j) mod length (allocated pa))) = 0)"
  shows "scan_words wk pa st bo (j # js) =
    (let k = (st + j) mod length (allocated pa); r = (bo + j) mod 64;
         f = trailing_zeros (NOT (allocated pa ! k))
     in if bit (NOT (allocated pa ! k)) r \<and> port_index_of k r < port_count pa \<and> \<not> wk j
        then Some (claim_port pa k r)
        else if port_count pa \<le> port_index_of k f then scan_words wk pa st bo js
        else Some (claim_port pa k f))"
proof -
  have "(bo + j) mod 64 < 64" by simp
  then show ?thesis
    by (simp only: scan_words.simps Let_def if_not_P [OF assms] and_mask_nonzero)
qed

lemma two_ifs_Some:
  "(if a then Some x else if b then y else Some z) = Some res \<Longrightarrow>
     a \<and> res = x \<or> \<not> b \<and> res = z \<or> y = Some res"
  by (cases a; cases b) simp_all

lemma two_ifs_None: "(if a then Some x else if b then y else Some z) = None \<Longrightarrow> b \<and> y = None"
  by (cases a; cases b) simp_all

lemma scan_words_Some:
  assumes wf: "pa_wf pa" and pos: "0 < length (allocated pa)"
    and "scan_words wk pa st bo idxs = Some res"
  shows "\<exists>k b. k < length (allocated pa) \<and> b < 64 \<and> \<not> bitmap_bit (allocated pa) (k * 64 + b) \<and>
    k * 64 + b < unat (port_count pa) \<and> res = claim_port pa k b"
  using assms(3)
proof (induction idxs)
  case (Cons j js)
  let ?k = "(st + j) mod length (allocated pa)"
  let ?cur = "allocated pa ! ?k"
  let ?r = "(bo + j) mod 64" and ?f = "trailing_zeros (NOT ?cur)"
  have k: "?k < length (allocated pa)" using pos by simp
  have nbit: "\<not> bitmap_bit (allocated pa) (?k * 64 + b)" if "b < 64" "bit (NOT ?cur) b" for b
    using that by (simp add: bitmap_bit_def bit_not_iff)
  show ?case
  proof (cases "?cur = - 1 \<or> NOT ?cur = 0")
    case True
    then show ?thesis using Cons by (simp add: scan_words_full)
  next
    case False
    then have nz: "NOT ?cur \<noteq> 0" by blast
    note f = trailing_zeros_bit(1,2) [OF nz]
    from two_ifs_Some [OF Cons.prems [unfolded scan_words_step [OF False] Let_def]]
    show ?thesis
    proof (elim disjE conjE)
      assume r: "bit (NOT ?cur) ?r" "port_index_of ?k ?r < port_count pa"
        and res: "res = claim_port pa ?k ?r"
      have "?k * 64 + ?r < unat (port_count pa)"
        using r port_index_cast [OF wf k, of ?r] by (simp add: word_less_nat_alt)
      then show ?thesis
        using k nbit r res by (intro exI [of _ ?k] exI [of _ ?r]) simp
    next
      assume r: "\<not> port_count pa \<le> port_index_of ?k ?f" and res: "res = claim_port pa ?k ?f"
      have "?k * 64 + ?f < unat (port_count pa)"
        using r port_index_cast [OF wf k f(1)] by (simp add: word_le_nat_alt)
      then show ?thesis
        using k nbit f res by (intro exI [of _ ?k] exI [of _ ?f]) simp
    qed (rule Cons.IH)
  qed
qed simp

lemma scan_words_None:
  assumes wf: "pa_wf pa" and pos: "0 < length (allocated pa)"
    and "scan_words wk pa st bo idxs = None" and "j \<in> set idxs" and "b < 64"
    and "(st + j) mod length (allocated pa) * 64 + b < unat (port_count pa)"
  shows "bitmap_bit (allocated pa) ((st + j) mod length (allocated pa) * 64 + b)"
  using assms(3,4)
proof (induction idxs)
  case (Cons i idx)
  let ?k = "(st + i) mod length (allocated pa)"
  let ?cur = "allocated pa ! ?k"
  have k: "?k < length (allocated pa)" using pos by simp
  show ?case
  proof (cases "j = i")
    case True
    have "bit ?cur b"
    proof (rule ccontr)
      assume nb: "\<not> bit ?cur b"
      then have bn: "bit (NOT ?cur) b" using assms(5) by (simp add: bit_not_iff)
      then have nz: "NOT ?cur \<noteq> 0" by (metis bit_0_eq bot_apply bot_bool_def)
      have "?cur \<noteq> - 1" using nb assms(5) by (auto simp: bit_minus_1_iff)
      with nz have nnm: "\<not> (?cur = - 1 \<or> NOT ?cur = 0)" by blast
      note f = trailing_zeros_bit [OF nz]
      have "trailing_zeros (NOT ?cur) \<le> b" using f(3) [of b] bn by (meson not_le)
      then have "\<not> port_count pa \<le> port_index_of ?k (trailing_zeros (NOT ?cur))"
        using port_index_cast [OF wf k f(1)] assms(6) True by (simp add: word_le_nat_alt)
      then show False
        using two_ifs_None [OF Cons.prems(1) [unfolded scan_words_step [OF nnm] Let_def]] by blast
    qed
    then show ?thesis using True k assms(5) by (simp add: bitmap_bit_def)
  next
    case False
    have "scan_words wk pa st bo idx = None"
    proof (cases "?cur = - 1 \<or> NOT ?cur = 0")
      case True
      then show ?thesis using Cons.prems(1) by (simp only: scan_words_full)
    next
      case False
      show ?thesis
        using two_ifs_None [OF Cons.prems(1) [unfolded scan_words_step [OF False] Let_def]] by blast
    qed
    then show ?thesis using Cons False by simp
  qed
qed simp

lemma allocated_nonempty: "pa_wf pa \<Longrightarrow> 0 < length (allocated pa)"
  using pa_wfD(2,3) [of pa] by simp

lemma mod_offset_surj:
  assumes "0 < (n :: nat)" and "k < n"
  shows "\<exists>j<n. (st + j) mod n = k"
proof (intro exI conjI)
  let ?j = "(k + (n - st mod n)) mod n"
  show "?j < n" using assms by simp
  have "(st + ?j) mod n = (st mod n + (k + (n - st mod n))) mod n"
    by (simp add: mod_add_left_eq mod_add_right_eq)
  also have "st mod n + (k + (n - st mod n)) = k + n"
    using assms(1) mod_less_divisor [of n st] by linarith
  finally show "(st + ?j) mod n = k" using assms(2) by simp
qed

lemma scan_words_exhausted:
  assumes wf: "pa_wf pa" and none: "scan_words wk pa st bo [0..<length (allocated pa)] = None"
  shows "used_ports pa = port_range pa"
proof -
  let ?n = "length (allocated pa)"
  have pos: "0 < ?n" using wf by (rule allocated_nonempty)
  have full: "bitmap_bit (allocated pa) i" if i: "i < unat (port_count pa)" for i
  proof -
    have "i div 64 < ?n" using i pa_wfD(3) [OF wf] by (simp add: less_mult_imp_div_less)
    then obtain j where j: "j < ?n" "(st + j) mod ?n = i div 64"
      using mod_offset_surj [OF pos] by blast
    then show ?thesis
      using scan_words_None [OF wf pos none, of j "i mod 64"] i by simp
  qed
  show ?thesis
    using full port_index_less [OF wf] by (auto simp: used_ports_def port_range_def is_allocated_iff)
qed

interpretation ports: port_pool pa_wf used_ports port_range port_allocate release
proof unfold_locales
  fix orc pa and p p' :: u16 and pa' pa'' x b
  show "\<exists>r s' x. port_allocate orc pa = Returns (r, s', x)" if "pa_wf pa"
    using allocated_nonempty [OF that]
    by (auto simp: port_allocate_def Let_def split: option.split)
  show "p \<in> port_range pa - used_ports pa \<and> used_ports pa' = insert p (used_ports pa) \<and> pa_wf pa' \<and>
      port_range pa' = port_range pa"
    if wf: "pa_wf pa" and al: "port_allocate orc pa = Returns (Some p, pa', x)"
  proof -
    obtain st bo idxs where sc: "scan_words (weak_failures orc) pa st bo idxs = Some (p, pa')"
      using al by (auto simp: port_allocate_def Let_def split: if_splits option.splits)
    from scan_words_Some [OF wf allocated_nonempty [OF wf] sc]
    show ?thesis using claim_port_refines [OF wf] by metis
  qed
  show "used_ports pa = port_range pa \<and> pa' = pa"
    if wf: "pa_wf pa" and al: "port_allocate orc pa = Returns (None, pa', x)"
    using al scan_words_exhausted [OF wf]
    by (auto simp: port_allocate_def Let_def split: if_splits option.splits)
  show "b \<and> used_ports pa' = used_ports pa - {p} \<and> pa_wf pa' \<and> port_range pa' = port_range pa"
    if "pa_wf pa" "p \<in> used_ports pa" "release p pa = (b, pa')"
    using release_refines [OF that] by simp
  show "release p pa = (False, pa)" if "p \<notin> used_ports pa"
    using that by (rule release_unused)
  show "used_ports pa \<subseteq> port_range pa"
    by (auto simp: used_ports_def port_range_def is_allocated_iff)
  show "finite (port_range pa)" by simp
qed

lemma used_index_bij:
  assumes "pa_wf pa"
  shows "bij_betw (\<lambda>p. unat (p - min_port pa)) (used_ports pa) {i. bitmap_bit (allocated pa) i}"
proof -
  have i: "i < 65536 \<and> min_port pa \<le> min_port pa + word_of_nat i \<and> min_port pa + word_of_nat i \<le> max_port pa"
    if "bitmap_bit (allocated pa) i" for i
    using pa_wfD(4) [OF assms that] port_of_index [OF assms, of i]
      less_trans [OF _ unat_u16_less] by blast
  show ?thesis
    by (rule bij_betw_byWitness [where f' = "\<lambda>i. min_port pa + word_of_nat i"])
       (auto simp: used_ports_def is_allocated_iff i)
qed

lemma card_used_ports: "pa_wf pa \<Longrightarrow> card (used_ports pa) = unat (allocated_count pa)"
  using bij_betw_same_card [OF used_index_bij] pa_wfD(5) by metis

lemma card_port_range:
  assumes "pa_wf pa"
  shows "card (port_range pa) = unat (port_count pa)"
proof -
  have i: "x < 65536" if "x \<le> unat (max_port pa)" for x
    using that unat_u16_less by (rule le_less_trans)
  have "bij_betw unat (port_range pa) {unat (min_port pa) .. unat (max_port pa)}"
    by (rule bij_betw_byWitness [where f' = word_of_nat])
       (auto simp: port_range_def word_le_nat_alt i)
  then show ?thesis
    using pa_wfD(1,2) [OF assms] by (simp add: bij_betw_same_card word_le_nat_alt)
qed

section \<open>Properties of the port allocator\<close>

text \<open>C7. The bitmap allocator refines the insertion of a fresh element into the set of used
  ports. Whatever the random start, the seed and the spurious exchange failures, a
  well-formed allocator never panics: it returns a port of its range that was not in use and
  marks exactly that port used, or it returns nothing, changes nothing, and every port of
  the range is in use.\<close>

theorem port_allocate_refines:
  assumes "pa_wf pa"
  shows "\<exists>r pa' s. port_allocate orc pa = Returns (r, pa', s) \<and> pa_wf pa' \<and>
    (case r of
       Some p \<Rightarrow> p \<in> {min_port pa .. max_port pa} \<and> \<not> is_allocated pa p \<and>
         (\<forall>q. is_allocated pa' q \<longleftrightarrow> q = p \<or> is_allocated pa q)
     | None \<Rightarrow> pa' = pa \<and> (\<forall>q\<in>{min_port pa .. max_port pa}. is_allocated pa q))"
proof -
  obtain r pa' s where al: "port_allocate orc pa = Returns (r, pa', s)"
    using ports.alloc_returns [OF assms] by blast
  show ?thesis
  proof (cases r)
    case None
    then show ?thesis
      using al ports.alloc_None [OF assms, of orc pa' s] assms
      by (auto simp: used_ports_def port_range_def)
  next
    case (Some p)
    then show ?thesis
      using al ports.alloc_Some [OF assms, of orc p pa' s]
      by (auto simp: used_ports_def port_range_def)
  qed
qed

lemma pa_wf_sample: "pa_wf (port_allocator_new 49152 49153)"
  by (rule pa_wf_new) (simp_all add: word_le_nat_alt)

theorem port_allocate_refines_witness:
  "\<exists>r pa' s. port_allocate \<lparr>fresh1 = 5, fresh2 = 0, seed = 0, weak_failures = (\<lambda>_. True)\<rparr>
       (port_allocator_new 49152 49153) = Returns (r, pa', s) \<and> pa_wf pa'"
  using port_allocate_refines [OF pa_wf_sample] by blast

text \<open>C29. Releasing a port frees exactly that port and reports whether it was in use; ports
  outside the range and unused ports are left alone, and the released port can be allocated
  again.\<close>

theorem release_refines_removal:
  assumes "pa_wf pa"
  shows "(fst (release p pa) \<longleftrightarrow> is_allocated pa p) \<and> pa_wf (snd (release p pa)) \<and>
    (\<forall>q. is_allocated (snd (release p pa)) q \<longleftrightarrow> is_allocated pa q \<and> q \<noteq> p)"
  using ports.free_facts [OF assms, of p] by (auto simp: used_ports_def)

theorem release_refines_removal_witness:
  "\<not> fst (release 49152 (port_allocator_new 49152 49153))"
  using release_refines_removal [OF pa_wf_sample, of 49152]
    pa_wf_new(2) [of 49152 49153] by (auto simp: used_ports_def word_le_nat_alt)

text \<open>The counters are exact: the allocated count is the number of ports in use and the
  available count, computed with wrapping subtraction, is the number of free ports.\<close>

theorem port_counts_exact:
  assumes "pa_wf pa"
  shows "unat (allocated_count pa) = card {p. is_allocated pa p} \<and>
    unat (available_count pa) = card {p \<in> {min_port pa .. max_port pa}. \<not> is_allocated pa p}"
proof -
  have c: "card (used_ports pa) = unat (allocated_count pa)" "card (port_range pa) = unat (port_count pa)"
    using assms by (simp_all add: card_used_ports card_port_range)
  have le: "unat (allocated_count pa) \<le> unat (port_count pa)"
    using ports.card_used [OF assms] c by simp
  have u: "unat (ucast (port_count pa) :: u64) = unat (port_count pa)"
    by (simp add: unsigned_ucast_eq take_bit_nat_eq_self_iff less_trans [OF unat_u16_less])
  then have "unat (available_count pa) = unat (port_count pa) - unat (allocated_count pa)"
    using le by (simp add: available_count_def unat_sub word_le_nat_alt)
  moreover have "{p \<in> {min_port pa .. max_port pa}. \<not> is_allocated pa p} = port_range pa - used_ports pa"
    by (auto simp: used_ports_def port_range_def)
  ultimately show ?thesis
    using c ports.used_range [OF assms] by (simp add: card_Diff_subset used_ports_def)
qed

theorem port_counts_exact_witness:
  "unat (available_count (port_allocator_new 49152 49153)) =
     card {p \<in> {49152 .. 49153}. \<not> is_allocated (port_allocator_new 49152 49153) p}"
  using port_counts_exact [OF pa_wf_sample] by (simp add: port_allocator_new_def)

text \<open>An allocator over the whole port space is unusable: the port count wraps to zero, the
  bitmap is empty, and the first allocation panics on a remainder by zero.\<close>

theorem full_range_allocator_panics:
  "port_count (port_allocator_new 0 65535) = 0 \<and> port_allocate orc (port_allocator_new 0 65535) = Panics"
  by (simp add: port_allocator_new_def port_allocate_def Let_def)

end
