(* ===== verification/Bandwidth.thy ===== *)
theory Bandwidth
  imports Hash_Map
begin

text \<open>
  The token buckets of \<open>src/bandwidth.rs\<close>: the limiter, the per-user and per-allocation
  trackers and the manager that holds one tracker per relay. Each call is one atomic
  transition at the instant \<open>now\<close>; an exchange that fails re-reads the same count. The
  locale \<open>token_bucket\<close> is the contract of a limiter; its window bound is what makes a
  limiter a limiter.
\<close>

section \<open>The limiter\<close>

record bandwidth_limiter =
  max_tokens :: u64
  tokens :: u64
  rate_bytes_per_sec :: u64
  last_update :: nat

definition bandwidth_limiter_new :: "nat \<Rightarrow> u64 \<Rightarrow> u64 \<Rightarrow> bandwidth_limiter" where
  "bandwidth_limiter_new now rate burst =
     \<lparr>max_tokens = burst, tokens = burst, rate_bytes_per_sec = rate, last_update = now\<rparr>"

text \<open>
  The tokens earned in \<open>elapsed\<close> nanoseconds: whole seconds times the rate, plus the
  fraction computed in 128 bits, both saturating.
\<close>

definition tokens_to_add :: "nat \<Rightarrow> u64 \<Rightarrow> u64" where
  "tokens_to_add elapsed rate =
     sat_add_u64 (sat_mul_u64 (word_of_nat (elapsed div 1000000000)) rate)
       (word_of_nat (elapsed mod 1000000000 * unat rate div 1000000000))"

definition try_consume :: "nat \<Rightarrow> nat \<Rightarrow> bandwidth_limiter \<Rightarrow> u64 option \<times> bandwidth_limiter" where
  "try_consume now size_usize l =
     (let size = (word_of_nat size_usize :: u64);
          elapsed = now - last_update l;
          available = min (sat_add_u64 (tokens l) (tokens_to_add elapsed (rate_bytes_per_sec l))) (max_tokens l)
      in if available < size then (None, l)
         else let new_tokens = available - size
           in (Some new_tokens, l\<lparr>tokens := new_tokens, last_update := now\<rparr>))"

text \<open>\<open>available_tokens\<close> multiplies and adds without saturation: it wraps.\<close>

definition available_tokens :: "nat \<Rightarrow> bandwidth_limiter \<Rightarrow> u64" where
  "available_tokens now l =
     (let add = word_of_nat ((now - last_update l) div 1000000000) * rate_bytes_per_sec l
      in min (tokens l + add) (max_tokens l))"

definition reset :: "bandwidth_limiter \<Rightarrow> bandwidth_limiter" where
  "reset l = l\<lparr>tokens := max_tokens l\<rparr>"

section \<open>Trackers\<close>

record user_tracker =
  user_id :: string
  user_limiter :: bandwidth_limiter
  user_total_bytes :: u64
  user_limit :: "u64 option"

text \<open>No limit is a rate of half the \<open>u64\<close> range; the burst is ten seconds' worth.\<close>

definition limiter_for :: "nat \<Rightarrow> u64 option \<Rightarrow> bandwidth_limiter" where
  "limiter_for now limit =
     (let rate = (case limit of Some r \<Rightarrow> r | None \<Rightarrow> (- 1) div 2)
      in bandwidth_limiter_new now rate (sat_mul_u64 rate 10))"

definition user_tracker_new :: "nat \<Rightarrow> string \<Rightarrow> u64 option \<Rightarrow> user_tracker" where
  "user_tracker_new now uid limit =
     \<lparr>user_id = uid, user_limiter = limiter_for now limit, user_total_bytes = 0, user_limit = limit\<rparr>"

definition user_try_relay :: "nat \<Rightarrow> nat \<Rightarrow> user_tracker \<Rightarrow> u64 option \<times> user_tracker" where
  "user_try_relay now n t =
     (case user_limit t of
        None \<Rightarrow> (Some (- 1), t\<lparr>user_total_bytes := user_total_bytes t + word_of_nat n\<rparr>)
      | Some lim \<Rightarrow>
          (case try_consume now n (user_limiter t) of
             (Some r, l) \<Rightarrow>
               (Some r, t\<lparr>user_limiter := l, user_total_bytes := user_total_bytes t + word_of_nat n\<rparr>)
           | (None, l) \<Rightarrow> (None, t\<lparr>user_limiter := l\<rparr>)))"

record alloc_tracker =
  tracker_relayed_addr :: string
  alloc_limiter :: bandwidth_limiter
  alloc_limit :: "u64 option"

definition alloc_tracker_new :: "nat \<Rightarrow> u64 option \<Rightarrow> alloc_tracker" where
  "alloc_tracker_new now limit =
     \<lparr>tracker_relayed_addr = [], alloc_limiter = limiter_for now limit, alloc_limit = limit\<rparr>"

definition with_relayed_addr :: "string \<Rightarrow> alloc_tracker \<Rightarrow> alloc_tracker" where
  "with_relayed_addr addr t = t\<lparr>tracker_relayed_addr := addr\<rparr>"

definition alloc_try_relay :: "nat \<Rightarrow> nat \<Rightarrow> alloc_tracker \<Rightarrow> u64 option \<times> alloc_tracker" where
  "alloc_try_relay now n t =
     (case alloc_limit t of
        None \<Rightarrow> (Some (- 1), t)
      | Some lim \<Rightarrow>
          (case try_consume now n (alloc_limiter t) of (r, l) \<Rightarrow> (r, t\<lparr>alloc_limiter := l\<rparr>)))"

section \<open>The manager\<close>

record bandwidth_manager =
  trackers :: "(string, alloc_tracker) hashmap"
  global_limiter :: bandwidth_limiter
  bw_total_bytes :: u64
  global_limit :: "u64 option"

definition bandwidth_manager_new :: "nat \<Rightarrow> u64 option \<Rightarrow> bandwidth_manager" where
  "bandwidth_manager_new now limit =
     \<lparr>trackers = [], global_limiter = limiter_for now limit, bw_total_bytes = 0, global_limit = limit\<rparr>"

definition register_allocation :: "nat \<Rightarrow> string \<Rightarrow> u64 option \<Rightarrow> bandwidth_manager \<Rightarrow> bandwidth_manager" where
  "register_allocation now addr limit m =
     m\<lparr>trackers := hm_insert addr (with_relayed_addr addr (alloc_tracker_new now limit)) (trackers m)\<rparr>"

definition unregister_allocation :: "string \<Rightarrow> bandwidth_manager \<Rightarrow> bandwidth_manager" where
  "unregister_allocation addr m = m\<lparr>trackers := hm_remove addr (trackers m)\<rparr>"

definition try_relay :: "nat \<Rightarrow> string \<Rightarrow> nat \<Rightarrow> bandwidth_manager \<Rightarrow> bool \<times> bandwidth_manager" where
  "try_relay now addr n m =
     (let (global_ok, m1) =
        (case global_limit m of
           None \<Rightarrow> (True, m)
         | Some lim \<Rightarrow> (case try_consume now n (global_limiter m) of
             (r, l) \<Rightarrow> (r \<noteq> None, m\<lparr>global_limiter := l\<rparr>)))
      in if \<not> global_ok then (False, m1)
         else case hm_get (trackers m1) addr of
           Some t \<Rightarrow>
             (case alloc_try_relay now n t of (r, t') \<Rightarrow>
                (let m2 = m1\<lparr>trackers := hm_insert addr t' (trackers m1)\<rparr>
                 in if r \<noteq> None then (True, m2\<lparr>bw_total_bytes := bw_total_bytes m2 + word_of_nat n\<rparr>)
                    else (False, m2)))
         | None \<Rightarrow> (True, m1\<lparr>bw_total_bytes := bw_total_bytes m1 + word_of_nat n\<rparr>))"

definition tracked_count :: "bandwidth_manager \<Rightarrow> nat" where
  "tracked_count m = hm_len (trackers m)"

section \<open>The contract of a token bucket\<close>

text \<open>
  A bucket has a level, a clock and a rate. Taking \<open>n\<close> bytes succeeds only if they are
  covered by the level and what was earned since the clock; then the clock moves to the
  present. A refusal leaves the bucket as it was. \<open>run_bucket\<close> serves a sequence of timed
  requests and adds up the bytes it accepts.
\<close>

fun run_bucket :: "(nat \<Rightarrow> nat \<Rightarrow> 's \<Rightarrow> 'r option \<times> 's) \<Rightarrow> (nat \<times> nat) list \<Rightarrow> 's \<Rightarrow> nat \<times> 's" where
  "run_bucket take_bytes [] s = (0, s)"
| "run_bucket take_bytes ((now, n) # reqs) s =
     (case take_bytes now n s of (r, s') \<Rightarrow>
        (case run_bucket take_bytes reqs s' of (sent, s'') \<Rightarrow>
           ((if r = None then 0 else n) + sent, s'')))"

locale token_bucket =
  fixes take_bytes :: "nat \<Rightarrow> nat \<Rightarrow> 's \<Rightarrow> 'r option \<times> 's"
    and level :: "'s \<Rightarrow> nat" and clock :: "'s \<Rightarrow> nat" and rate :: "'s \<Rightarrow> nat"
    and limited :: "'s \<Rightarrow> bool" and fits :: "nat \<Rightarrow> bool"
  assumes accept: "limited s \<Longrightarrow> fits n \<Longrightarrow> take_bytes now n s = (Some r, s') \<Longrightarrow>
        level s' + n \<le> level s + (now - clock s) * rate s div 1000000000 \<and>
        clock s' = now \<and> rate s' = rate s \<and> limited s'"
    and refuse: "limited s \<Longrightarrow> take_bytes now n s = (None, s') \<Longrightarrow> s' = s"
begin

lemma accepted_step:
  assumes "limited s" and "fits n" and "take_bytes now n s = (r, s')" and "clock s \<le> now" and "now \<le> t"
  shows "1000000000 * ((if r = None then 0 else n) + level s') + (t - clock s') * rate s
      \<le> 1000000000 * level s + (t - clock s) * rate s"
    and "limited s'" and "rate s' = rate s" and "clock s' \<le> now"
proof -
  have "1000000000 * ((if r = None then 0 else n) + level s') + (t - clock s') * rate s
      \<le> 1000000000 * level s + (t - clock s) * rate s \<and> limited s' \<and> rate s' = rate s \<and> clock s' \<le> now"
  proof (cases r)
    case None
    then show ?thesis using refuse [OF assms(1)] assms by auto
  next
    case (Some x)
    then have a: "level s' + n \<le> level s + (now - clock s) * rate s div 1000000000"
      and c: "clock s' = now" "rate s' = rate s" "limited s'"
      using accept [OF assms(1,2)] assms(3) by auto
    have "1000000000 * ((now - clock s) * rate s div 1000000000) \<le> (now - clock s) * rate s"
      by simp
    moreover have "(t - clock s) * rate s = (t - now) * rate s + (now - clock s) * rate s"
      using assms(4,5) by (simp flip: add_mult_distrib)
    ultimately show ?thesis using Some a c by simp
  qed
  then show "1000000000 * ((if r = None then 0 else n) + level s') + (t - clock s') * rate s
      \<le> 1000000000 * level s + (t - clock s) * rate s"
    and "limited s'" and "rate s' = rate s" and "clock s' \<le> now" by auto
qed

lemma window:
  assumes "limited s" and "\<forall>(now, n)\<in>set reqs. fits n \<and> now \<le> t" and "sorted (clock s # map fst reqs)"
    and "run_bucket take_bytes reqs s = (sent, s')"
  shows "1000000000 * (sent + level s') + (t - clock s') * rate s \<le> 1000000000 * level s + (t - clock s) * rate s"
  using assms
proof (induction reqs arbitrary: s sent)
  case (Cons req reqs)
  obtain now n where req: "req = (now, n)" by (cases req)
  obtain r s1 where st: "take_bytes now n s = (r, s1)" by (cases "take_bytes now n s")
  obtain sent1 where run: "run_bucket take_bytes reqs s1 = (sent1, s')"
    and sent: "sent = (if r = None then 0 else n) + sent1"
    using Cons.prems(4) by (auto simp: req st split: prod.splits)
  have now: "clock s \<le> now" "now \<le> t" "fits n" using Cons.prems(2,3) by (auto simp: req)
  note step = accepted_step [OF Cons.prems(1) now(3) st now(1,2)]
  have "sorted (clock s1 # map fst reqs)"
    using Cons.prems(3) step(4) by (auto simp: req intro: order_trans)
  then have "1000000000 * (sent1 + level s') + (t - clock s') * rate s1
      \<le> 1000000000 * level s1 + (t - clock s1) * rate s1"
    using Cons.IH [OF step(2)] Cons.prems(2) run by auto
  then show ?case using step(1) sent step(3) by (simp add: distrib_left)
qed simp

lemma window_bound:
  assumes "limited s" and "\<forall>(now, n)\<in>set reqs. fits n \<and> now \<le> t" and "sorted (clock s # map fst reqs)"
  shows "fst (run_bucket take_bytes reqs s) \<le> level s + (t - clock s) * rate s div 1000000000"
proof -
  obtain sent s' where run: "run_bucket take_bytes reqs s = (sent, s')"
    by (cases "run_bucket take_bytes reqs s")
  have "1000000000 * sent \<le> 1000000000 * level s + (t - clock s) * rate s"
    using window [OF assms run] by simp
  then have "1000000000 * sent div 1000000000 \<le> (1000000000 * level s + (t - clock s) * rate s) div 1000000000"
    by (rule div_le_mono)
  then show ?thesis by (simp add: run)
qed

end

section \<open>The limiter and the trackers meet it\<close>

lemma split_rate:
  assumes "0 < (k :: nat)"
  shows "e div k * r + e mod k * r div k = e * r div k"
proof -
  have "e * r = (k * (e div k) + e mod k) * r" by (simp only: mult_div_mod_eq)
  also have "\<dots> = e mod k * r + k * (e div k * r)" by (simp only: distrib_right mult.assoc add.commute)
  finally show ?thesis using assms by simp
qed

lemma tokens_to_add_le:
  "unat (tokens_to_add elapsed rate) \<le> elapsed * unat rate div 1000000000"
proof -
  let ?s = "elapsed div 1000000000" and ?f = "elapsed mod 1000000000 * unat rate div 1000000000"
  have le: "unat (word_of_nat n :: u64) \<le> n" for n
    by (simp add: unat_of_nat)
  have "unat (tokens_to_add elapsed rate) \<le> unat (word_of_nat ?s :: u64) * unat rate + unat (word_of_nat ?f :: u64)"
    by (simp only: tokens_to_add_def unat_sat_add_u64 unat_sat_mul_u64) linarith
  also have "\<dots> \<le> ?s * unat rate + ?f"
    using le by (intro add_mono mult_le_mono1)
  also have "\<dots> = elapsed * unat rate div 1000000000"
    by (rule split_rate) simp
  finally show ?thesis .
qed

lemma try_consume_Some:
  assumes "n < 2 ^ 64" and "try_consume now n l = (Some r, l')"
  shows "unat (tokens l') + n \<le> unat (tokens l) + (now - last_update l) * unat (rate_bytes_per_sec l) div 1000000000"
    and "unat (tokens l') + n \<le> unat (max_tokens l)" and "last_update l' = now"
    and "rate_bytes_per_sec l' = rate_bytes_per_sec l" and "max_tokens l' = max_tokens l" and "r = tokens l'"
proof -
  let ?av = "min (sat_add_u64 (tokens l) (tokens_to_add (now - last_update l) (rate_bytes_per_sec l))) (max_tokens l)"
  have size: "unat (word_of_nat n :: u64) = n"
    using assms(1) by (simp add: unat_of_nat)
  have ge: "word_of_nat n \<le> ?av" and l': "l' = l\<lparr>tokens := ?av - word_of_nat n, last_update := now\<rparr>"
    and r: "r = ?av - word_of_nat n"
    using assms(2) by (auto simp: try_consume_def Let_def not_less split: if_splits)
  then have eq: "unat (tokens l') + n = unat ?av"
    by (simp add: unat_sub size word_le_nat_alt)
  have "unat ?av \<le> unat (sat_add_u64 (tokens l) (tokens_to_add (now - last_update l) (rate_bytes_per_sec l)))"
    and av2: "unat ?av \<le> unat (max_tokens l)"
    by (simp_all flip: word_le_nat_alt)
  moreover have "unat (sat_add_u64 (tokens l) (tokens_to_add (now - last_update l) (rate_bytes_per_sec l)))
      \<le> unat (tokens l) + (now - last_update l) * unat (rate_bytes_per_sec l) div 1000000000"
    using tokens_to_add_le [of "now - last_update l" "rate_bytes_per_sec l"] by (simp add: unat_sat_add_u64)
  ultimately show "unat (tokens l') + n \<le>
      unat (tokens l) + (now - last_update l) * unat (rate_bytes_per_sec l) div 1000000000"
    using eq by linarith
  show "unat (tokens l') + n \<le> unat (max_tokens l)" using eq av2 by simp
qed (use assms in \<open>auto simp: try_consume_def Let_def split: if_splits\<close>)

lemma try_consume_None: "try_consume now n l = (None, l') \<Longrightarrow> l' = l"
  by (auto simp: try_consume_def Let_def split: if_splits)

interpretation limiter: token_bucket try_consume "\<lambda>l. unat (tokens l)" last_update
  "\<lambda>l. unat (rate_bytes_per_sec l)" "\<lambda>_. True" "\<lambda>n. n < 2 ^ 64"
  by unfold_locales (auto dest: try_consume_None simp: try_consume_Some)

interpretation user: token_bucket user_try_relay "\<lambda>t. unat (tokens (user_limiter t))"
  "\<lambda>t. last_update (user_limiter t)" "\<lambda>t. unat (rate_bytes_per_sec (user_limiter t))"
  "\<lambda>t. user_limit t \<noteq> None" "\<lambda>n. n < 2 ^ 64"
  by unfold_locales
     (auto simp: user_try_relay_def try_consume_Some dest: try_consume_None split: option.splits prod.splits)

interpretation alloc: token_bucket alloc_try_relay "\<lambda>t. unat (tokens (alloc_limiter t))"
  "\<lambda>t. last_update (alloc_limiter t)" "\<lambda>t. unat (rate_bytes_per_sec (alloc_limiter t))"
  "\<lambda>t. alloc_limit t \<noteq> None" "\<lambda>n. n < 2 ^ 64"
  by unfold_locales
     (auto simp: alloc_try_relay_def try_consume_Some dest: try_consume_None split: option.splits prod.splits)

section \<open>Properties of the bandwidth limits\<close>



text \<open>The same bound holds for a user with a limit, through the tracker that also counts the
  user's bytes.\<close>

lemma user_tracker_window_bound:
  assumes "\<forall>(now, n)\<in>set reqs. n < 2 ^ 64 \<and> t0 \<le> now \<and> now \<le> t" and "sorted (map fst reqs)"
  shows "fst (run_bucket user_try_relay reqs (user_tracker_new t0 uid (Some rate)))
      \<le> unat (sat_mul_u64 rate 10) + (t - t0) * unat rate div 1000000000"
proof -
  let ?u = "user_tracker_new t0 uid (Some rate)"
  have f: "tokens (user_limiter ?u) = sat_mul_u64 rate 10" "last_update (user_limiter ?u) = t0"
    "rate_bytes_per_sec (user_limiter ?u) = rate" "user_limit ?u = Some rate"
    by (simp_all add: user_tracker_new_def limiter_for_def bandwidth_limiter_new_def Let_def)
  have "sorted (t0 # map fst reqs)" using assms by auto
  then show ?thesis
    using user.window_bound [of ?u reqs t] assms(1) by (simp add: f case_prod_beta)
qed

text \<open>A packet that the allocation's own limit refuses has already been charged to the global
  bucket: the refusal leaves the global level lower although nothing was relayed.\<close>

theorem refused_packet_charges_global:
  assumes "global_limit m = Some g" and "try_consume now n (global_limiter m) = (Some r, l)"
    and "hm_get (trackers m) addr = Some t" and "fst (alloc_try_relay now n t) = None"
  shows "fst (try_relay now addr n m) = False \<and>
    global_limiter (snd (try_relay now addr n m)) = l \<and> tokens l = r \<and>
    bw_total_bytes (snd (try_relay now addr n m)) = bw_total_bytes m"
proof -
  have "r = tokens l"
    using assms(2) by (auto simp: try_consume_def Let_def split: if_splits)
  moreover obtain t' where "alloc_try_relay now n t = (None, t')"
    using assms(4) by (cases "alloc_try_relay now n t") simp
  ultimately show ?thesis
    using assms by (simp add: try_relay_def)
qed

theorem refused_packet_charges_global_witness:
  "fst (try_relay 0 ''a'' 50 (register_allocation 0 ''a'' (Some 1) (bandwidth_manager_new 0 (Some 10)))) = False \<and>
   tokens (global_limiter (snd (try_relay 0 ''a'' 50
     (register_allocation 0 ''a'' (Some 1) (bandwidth_manager_new 0 (Some 10)))))) = 50"
proof -
  let ?t = "with_relayed_addr ''a'' (alloc_tracker_new 0 (Some 1))"
  let ?m = "register_allocation 0 ''a'' (Some 1) (bandwidth_manager_new 0 (Some 10))"
  have t: "fst (alloc_try_relay 0 50 ?t) = None"
    by (simp add: alloc_try_relay_def with_relayed_addr_def alloc_tracker_new_def limiter_for_def
        bandwidth_limiter_new_def try_consume_def tokens_to_add_def sat_mul_u64_def sat_add_u64_def
        word_less_nat_alt min_def word_le_nat_alt)
  have c: "try_consume 0 50 (global_limiter ?m) = (Some 50, (global_limiter ?m)\<lparr>tokens := 50\<rparr>)"
    by (simp add: register_allocation_def bandwidth_manager_new_def limiter_for_def
        bandwidth_limiter_new_def try_consume_def tokens_to_add_def sat_mul_u64_def sat_add_u64_def
        word_less_nat_alt min_def word_le_nat_alt)
  show ?thesis
    using refused_packet_charges_global [OF _ c _ t, of 10 "''a''"]
    by (simp add: register_allocation_def bandwidth_manager_new_def hm.get_insert)
qed

text \<open>The reported level can wrap: one second after it was created, the full unlimited bucket
  reports fewer available tokens than it holds.\<close>

lemma available_tokens_wraps:
  "tokens (limiter_for 0 None) = - 1 \<and>
   unat (available_tokens 1000000000 (limiter_for 0 None)) = 2 ^ 63 - 2"
proof -
  have "(- 1 :: u64) div 2 = 0x7FFFFFFFFFFFFFFF" by simp
  then show ?thesis
    by (simp add: available_tokens_def limiter_for_def bandwidth_limiter_new_def sat_mul_u64_def
        unat_max_u64 min_def word_le_nat_alt)
qed

end
