(* ===== verification/Allocation_Table.thy ===== *)
theory Allocation_Table
  imports Channel_Table Port_Allocator Bandwidth
begin

text \<open>
  The relay allocations of \<open>src/allocation.rs\<close>: \<open>Allocation\<close>, \<open>AllocationTable\<close>, the
  client transport registry and the per-allocation relay task. The table is one record that
  is passed along; an \<open>Arc<RwLock<Allocation>>\<close> shared between the table and its users is
  the entry under its relayed address. A spawned task is an entry of \<open>tasks\<close> under the
  handle that aborts it. Sockets are named by the address they are bound to.

  What the environment decides during a call is the record \<open>env\<close>: the clock, the entropy,
  which binds fail with which message, and which sends fail.
\<close>

section \<open>State\<close>

record env =
  now :: nat
  unix_nanos :: nat
  unix_secs :: nat
  port_seed :: u64
  port_entropy :: "nat \<Rightarrow> u64 \<times> u64"
  weak_cas :: "nat \<Rightarrow> nat \<Rightarrow> bool"
  bind_error :: "nat \<Rightarrow> socket_addr \<Rightarrow> string option"
  send_fails :: "socket_addr \<Rightarrow> bool"
  nonce_bytes :: bytes

record relay =
  relay_socket :: socket_addr
  task_handle :: nat

record allocation =
  alloc_id :: bytes
  relayed_addr :: socket_addr
  client_addr :: socket_addr
  created_at :: nat
  lifetime :: nat
  five_tuple :: "socket_addr \<times> socket_addr"
  relay :: "relay option"
  permissions :: "ip_addr set"
  bytes_forwarded :: u64
  messages_forwarded :: u64

record server_stats =
  total_allocations :: u64
  active_allocations :: u64
  total_bytes_relayed :: u64
  total_messages :: u64

datatype packet_sender = UdpSender socket_addr | StreamSender nat | DtlsSender nat

record relay_task =
  task_client :: socket_addr
  task_bind :: socket_addr
  task_relayed :: socket_addr

record alloc_table =
  allocations :: "(socket_addr, allocation) hashmap"
  port_alloc :: port_allocator
  bind_addr :: ipv4_addr
  external_addr :: ipv4_addr
  realm :: string
  stats :: server_stats
  max_concurrent_allocations :: "nat option"
  max_allocation_duration_secs :: "u32 option"
  bandwidth :: bandwidth_manager
  main_socket :: "socket_addr option"
  default_sender :: "packet_sender option"
  client_senders :: "(socket_addr, packet_sender) hashmap"
  tasks :: "(nat, relay_task) hashmap"
  next_task :: nat

text \<open>What leaves the server: a datagram from a relay socket to a peer, a packet to a client.\<close>

datatype effect = ToPeer socket_addr socket_addr bytes | ToClient packet_sender socket_addr bytes

section \<open>Allocations\<close>

definition allocation_new ::
  "nat \<Rightarrow> bytes \<Rightarrow> socket_addr \<Rightarrow> socket_addr \<Rightarrow> nat \<Rightarrow> socket_addr \<Rightarrow> socket_addr \<Rightarrow> allocation" where
  "allocation_new t0 aid relayed client life src dst =
     \<lparr>alloc_id = aid, relayed_addr = relayed, client_addr = client, created_at = t0, lifetime = life,
      five_tuple = (src, dst), relay = None, permissions = {}, bytes_forwarded = 0, messages_forwarded = 0\<rparr>"

definition allocation_with_relay ::
  "nat \<Rightarrow> bytes \<Rightarrow> socket_addr \<Rightarrow> socket_addr \<Rightarrow> nat \<Rightarrow> socket_addr \<Rightarrow> socket_addr \<Rightarrow> relay \<Rightarrow> allocation" where
  "allocation_with_relay t0 aid relayed client life src dst r =
     \<lparr>alloc_id = aid, relayed_addr = relayed, client_addr = client, created_at = t0, lifetime = life,
      five_tuple = (src, dst), relay = Some r, permissions = {}, bytes_forwarded = 0, messages_forwarded = 0\<rparr>"

definition is_expired :: "nat \<Rightarrow> allocation \<Rightarrow> bool" where
  "is_expired t a \<longleftrightarrow> t - created_at a > lifetime a"

definition remaining_lifetime :: "nat \<Rightarrow> allocation \<Rightarrow> u32" where
  "remaining_lifetime t a =
     (let elapsed = t - created_at a
      in if elapsed \<ge> lifetime a then 0 else word_of_nat ((lifetime a - elapsed) div 1000000000))"

section \<open>Construction and client transports\<close>

definition server_stats_default :: server_stats where
  "server_stats_default =
     \<lparr>total_allocations = 0, active_allocations = 0, total_bytes_relayed = 0, total_messages = 0\<rparr>"

definition with_port_range_and_bind_addr ::
  "nat \<Rightarrow> ipv4_addr \<Rightarrow> ipv4_addr \<Rightarrow> string \<Rightarrow> u16 \<Rightarrow> u16 \<Rightarrow> nat option \<Rightarrow> u32 option \<Rightarrow> alloc_table" where
  "with_port_range_and_bind_addr t0 ext bnd rlm lo hi max_conc max_dur =
     \<lparr>allocations = [], port_alloc = port_allocator_new lo hi, bind_addr = bnd, external_addr = ext,
      realm = rlm, stats = server_stats_default, max_concurrent_allocations = max_conc,
      max_allocation_duration_secs = max_dur, bandwidth = bandwidth_manager_new t0 None,
      main_socket = None, default_sender = None, client_senders = [], tasks = [], next_task = 0\<rparr>"

definition with_limits_and_bind_addr ::
  "nat \<Rightarrow> ipv4_addr \<Rightarrow> ipv4_addr \<Rightarrow> string \<Rightarrow> nat option \<Rightarrow> u32 option \<Rightarrow> alloc_table" where
  "with_limits_and_bind_addr t0 ext bnd rlm max_conc max_dur =
     with_port_range_and_bind_addr t0 ext bnd rlm 49152 65535 max_conc max_dur"

definition set_main_socket :: "socket_addr \<Rightarrow> alloc_table \<Rightarrow> alloc_table" where
  "set_main_socket s t = t\<lparr>main_socket := Some s, default_sender := Some (UdpSender s)\<rparr>"

definition register_client_sender :: "socket_addr \<Rightarrow> packet_sender \<Rightarrow> alloc_table \<Rightarrow> alloc_table" where
  "register_client_sender client s t = t\<lparr>client_senders := hm_insert client s (client_senders t)\<rparr>"

definition unregister_client_sender :: "socket_addr \<Rightarrow> alloc_table \<Rightarrow> alloc_table" where
  "unregister_client_sender client t = t\<lparr>client_senders := hm_remove client (client_senders t)\<rparr>"

text \<open>\<open>ClientTransportRegistry::send_to_client\<close>: the client's own sender, else the default.\<close>

definition send_to_client :: "alloc_table \<Rightarrow> bytes \<Rightarrow> socket_addr \<Rightarrow> effect list" where
  "send_to_client t data client =
     (case hm_get (client_senders t) client of
        Some s \<Rightarrow> [ToClient s client data]
      | None \<Rightarrow> (case default_sender t of Some s \<Rightarrow> [ToClient s client data] | None \<Rightarrow> []))"

section \<open>Creating an allocation\<close>

fun getrandom :: "u64 \<Rightarrow> nat \<Rightarrow> bytes" where
  "getrandom sd 0 = []"
| "getrandom sd (Suc n) =
     (let sd' = sd * 1103515245 + 12345 in ucast (drop_bit 16 sd') # getrandom sd' n)"

text \<open>
  The bind loop. The first number counts the attempts left of \<open>MAX_ATTEMPTS\<close>, the second
  those made. A port whose socket cannot be bound goes back to the allocator.
\<close>

fun bind_relay :: "env \<Rightarrow> nat \<Rightarrow> nat \<Rightarrow> u64 \<Rightarrow> (socket_addr \<times> string) option \<Rightarrow> alloc_table \<Rightarrow>
    ((turn_error + socket_addr \<times> socket_addr) \<times> alloc_table) rust" where
  "bind_relay e 0 attempts sd last_failure t =
     Returns (case last_failure of
         Some (addr, source) \<Rightarrow> Inl (Err_RelayBindFailed addr source)
       | None \<Rightarrow> Inl Err_RelayPortExhausted, t)"
| "bind_relay e (Suc left) attempts sd last_failure t =
     rbind (port_allocate \<lparr>fresh1 = fst (port_entropy e attempts), fresh2 = snd (port_entropy e attempts),
              seed = sd, weak_failures = weak_cas e attempts\<rparr> (port_alloc t))
       (\<lambda>(r, pa, sd'). case r of
          None \<Rightarrow> Returns (Inl Err_RelayPortExhausted, t\<lparr>port_alloc := pa\<rparr>)
        | Some port \<Rightarrow>
            (let relay_bind_addr = SocketV4 (bind_addr t) port;
                 relayed = SocketV4 (external_addr t) port
             in case bind_error e attempts relay_bind_addr of
                  None \<Rightarrow> Returns (Inr (relay_bind_addr, relayed), t\<lparr>port_alloc := pa\<rparr>)
                | Some err \<Rightarrow>
                    bind_relay e left (Suc attempts) sd' (Some (relay_bind_addr, err))
                      (t\<lparr>port_alloc := snd (release port pa)\<rparr>)))"

definition MAX_ATTEMPTS :: nat where
  "MAX_ATTEMPTS = 100"

text \<open>Spawning registers the task under a fresh handle; the relay keeps the socket and the handle.\<close>

definition spawn_allocation_task ::
  "socket_addr \<Rightarrow> socket_addr \<Rightarrow> socket_addr \<Rightarrow> alloc_table \<Rightarrow> relay \<times> alloc_table" where
  "spawn_allocation_task client bnd relayed t =
     (\<lparr>relay_socket = bnd, task_handle = next_task t\<rparr>,
      t\<lparr>tasks := hm_insert (next_task t) \<lparr>task_client = client, task_bind = bnd, task_relayed = relayed\<rparr> (tasks t),
         next_task := Suc (next_task t)\<rparr>)"

definition lifetime_secs :: "u32 option \<Rightarrow> alloc_table \<Rightarrow> u32" where
  "lifetime_secs requested t =
     (let secs = (case requested of Some s \<Rightarrow> s | None \<Rightarrow> 600)
      in case max_allocation_duration_secs t of
           Some max_lifetime \<Rightarrow> if secs > max_lifetime then max_lifetime else secs
         | None \<Rightarrow> secs)"

text \<open>The part after a successful bind: default sender, task, table entry, counters, tracker.\<close>

definition install_allocation ::
  "env \<Rightarrow> socket_addr \<Rightarrow> nat \<Rightarrow> socket_addr \<Rightarrow> socket_addr \<Rightarrow> alloc_table \<Rightarrow> allocation \<times> alloc_table" where
  "install_allocation e client life relay_bind_addr relayed t =
     (let t1 = (if main_socket t = None then t\<lparr>default_sender := Some (UdpSender relay_bind_addr)\<rparr> else t);
          (r, t2) = spawn_allocation_task client relay_bind_addr relayed t1;
          a = allocation_with_relay (now e) (getrandom (word_of_nat (unix_nanos e)) 12) relayed client life
                client relayed r
      in (a, t2\<lparr>allocations := hm_insert relayed a (allocations t2),
            stats := (stats t2)\<lparr>total_allocations := total_allocations (stats t2) + 1,
                                active_allocations := active_allocations (stats t2) + 1\<rparr>,
            bandwidth := register_allocation (now e) (sock_to_string relayed) None (bandwidth t2)\<rparr>))"

definition create_allocation ::
  "env \<Rightarrow> socket_addr \<Rightarrow> u32 option \<Rightarrow> alloc_table \<Rightarrow> ((turn_error + allocation) \<times> alloc_table) rust" where
  "create_allocation e client requested t =
     (if (case max_concurrent_allocations t of
            Some limit \<Rightarrow> unat (active_allocations (stats t)) \<ge> limit | None \<Rightarrow> False)
      then Returns (Inl Err_AllocationQuotaReached, t)
      else let life = from_secs (unat (lifetime_secs requested t))
        in rbind (bind_relay e MAX_ATTEMPTS 0 (port_seed e) None t)
             (\<lambda>(res, t'). case res of
                Inl err \<Rightarrow> Returns (Inl err, t')
              | Inr (relay_bind_addr, relayed) \<Rightarrow>
                  (case install_allocation e client life relay_bind_addr relayed t' of
                     (a, t'') \<Rightarrow> Returns (Inr a, t''))))"

section \<open>Lookup, removal and refresh\<close>

definition get_allocation :: "alloc_table \<Rightarrow> socket_addr \<Rightarrow> allocation option" where
  "get_allocation t relayed = hm_get (allocations t) relayed"

text \<open>What removal and expiry share: abort the task, release the port, drop the tracker.\<close>

definition drop_entry :: "socket_addr \<Rightarrow> allocation \<Rightarrow> alloc_table \<Rightarrow> alloc_table" where
  "drop_entry relayed a t =
     t\<lparr>allocations := hm_remove relayed (allocations t),
       tasks := (case relay a of Some r \<Rightarrow> hm_remove (task_handle r) (tasks t) | None \<Rightarrow> tasks t),
       port_alloc := snd (release (sock_port relayed) (port_alloc t)),
       bandwidth := unregister_allocation (sock_to_string relayed) (bandwidth t)\<rparr>"

definition remove_allocation ::
  "socket_addr \<Rightarrow> alloc_table \<Rightarrow> channel_table option \<Rightarrow> allocation option \<times> alloc_table \<times> channel_table option" where
  "remove_allocation relayed t ct =
     (case hm_get (allocations t) relayed of
        None \<Rightarrow> (None, t, ct)
      | Some a \<Rightarrow>
          (let t1 = drop_entry relayed a t
           in (Some a,
               t1\<lparr>stats := (stats t1)\<lparr>active_allocations := active_allocations (stats t1) - 1\<rparr>\<rparr>,
               map_option (\<lambda>c. snd (remove_for_relayed relayed c)) ct)))"

definition refresh_allocation :: "socket_addr \<Rightarrow> u32 \<Rightarrow> alloc_table \<Rightarrow> (turn_error + unit) \<times> alloc_table" where
  "refresh_allocation relayed secs t =
     (case hm_get (allocations t) relayed of
        Some a \<Rightarrow> (Inr (), t\<lparr>allocations := hm_insert relayed (a\<lparr>lifetime := from_secs (unat secs)\<rparr>) (allocations t)\<rparr>)
      | None \<Rightarrow> (Inl Err_NotFound, t))"

definition find_allocation_by_client :: "alloc_table \<Rightarrow> socket_addr \<Rightarrow> socket_addr option" where
  "find_allocation_by_client t client =
     map_option relayed_addr (find (\<lambda>a. client_addr a = client) (hm_values (allocations t)))"

definition get_allocation_by_client :: "alloc_table \<Rightarrow> socket_addr \<Rightarrow> allocation option" where
  "get_allocation_by_client t client = find (\<lambda>a. client_addr a = client) (hm_values (allocations t))"

section \<open>Permissions and relaying\<close>

definition add_permissions :: "socket_addr \<Rightarrow> socket_addr list \<Rightarrow> alloc_table \<Rightarrow> bool \<times> alloc_table" where
  "add_permissions client peers t =
     (case find (\<lambda>(k, a). client_addr a = client) (allocations t) of
        Some (k, a) \<Rightarrow>
          (True, t\<lparr>allocations := hm_insert k
             (a\<lparr>permissions := permissions a \<union> sock_ip ` set peers\<rparr>) (allocations t)\<rparr>)
      | None \<Rightarrow> (False, t))"

definition check_permission :: "alloc_table \<Rightarrow> socket_addr \<Rightarrow> socket_addr \<Rightarrow> bool" where
  "check_permission t client peer =
     (case find (\<lambda>a. client_addr a = client) (hm_values (allocations t)) of
        Some a \<Rightarrow> sock_ip peer \<in> permissions a
      | None \<Rightarrow> False)"

definition count_relayed :: "nat \<Rightarrow> server_stats \<Rightarrow> server_stats" where
  "count_relayed n s =
     s\<lparr>total_bytes_relayed := total_bytes_relayed s + word_of_nat n, total_messages := total_messages s + 1\<rparr>"

definition send_to_peer ::
  "env \<Rightarrow> socket_addr \<Rightarrow> socket_addr \<Rightarrow> bytes \<Rightarrow> alloc_table \<Rightarrow> unit option \<times> alloc_table \<times> effect list" where
  "send_to_peer e client peer data t =
     (case find (\<lambda>(k, a). client_addr a = client) (allocations t) of
        None \<Rightarrow> (None, t, [])
      | Some (k, a) \<Rightarrow>
          if sock_ip peer \<notin> permissions a then (None, t, [])
          else case relay a of
            None \<Rightarrow> (None, t, [])
          | Some r \<Rightarrow>
              if send_fails e peer then (None, t, [])
              else (Some (),
                    t\<lparr>stats := count_relayed (length data) (stats t),
                      allocations := hm_insert k
                        (a\<lparr>bytes_forwarded := bytes_forwarded a + word_of_nat (length data),
                           messages_forwarded := messages_forwarded a + 1\<rparr>) (allocations t)\<rparr>,
                    [ToPeer (relay_socket r) peer data]))"

definition relay_to_peer :: "socket_addr \<Rightarrow> bytes \<Rightarrow> alloc_table \<Rightarrow> (turn_error + socket_addr) \<times> alloc_table" where
  "relay_to_peer relayed data t =
     (case hm_get (allocations t) relayed of
        Some a \<Rightarrow> (Inr (client_addr a), t\<lparr>stats := count_relayed (length data) (stats t)\<rparr>)
      | None \<Rightarrow> (Inl Err_NoAllocation, t))"

definition peer_to_relay :: "socket_addr \<Rightarrow> alloc_table \<Rightarrow> (turn_error + socket_addr) \<times> alloc_table" where
  "peer_to_relay peer t =
     (case find (\<lambda>a. snd (five_tuple a) = peer) (hm_values (allocations t)) of
        Some a \<Rightarrow> (Inr (relayed_addr a), t\<lparr>stats := count_relayed 1 (stats t)\<rparr>)
      | None \<Rightarrow> (Inl Err_NotFound, t))"

definition port_stats :: "alloc_table \<Rightarrow> u64 \<times> u64" where
  "port_stats t = (allocated_count (port_alloc t), available_count (port_alloc t))"

section \<open>Expiry\<close>

fun drop_expired ::
  "socket_addr list \<Rightarrow> nat \<Rightarrow> alloc_table \<Rightarrow> channel_table option \<Rightarrow> nat \<times> alloc_table \<times> channel_table option" where
  "drop_expired [] n t ct = (n, t, ct)"
| "drop_expired (addr # addrs) n t ct =
     (case hm_get (allocations t) addr of
        None \<Rightarrow> drop_expired addrs n t ct
      | Some a \<Rightarrow> drop_expired addrs (Suc n) (drop_entry addr a t)
                    (map_option (\<lambda>c. snd (remove_for_relayed addr c)) ct))"

definition cleanup_expired ::
  "nat \<Rightarrow> alloc_table \<Rightarrow> channel_table option \<Rightarrow> nat \<times> alloc_table \<times> channel_table option" where
  "cleanup_expired t0 t ct =
     (let expired = map fst (filter (\<lambda>(k, a). is_expired t0 a) (allocations t))
      in case drop_expired expired 0 t ct of
           (n, t', ct') \<Rightarrow>
             (n,
              if n > 0
              then t'\<lparr>stats := (stats t')\<lparr>active_allocations := active_allocations (stats t') - word_of_nat n\<rparr>\<rparr>
              else t',
              ct'))"

section \<open>The relay task\<close>

definition build_data_indication :: "env \<Rightarrow> socket_addr \<Rightarrow> bytes \<Rightarrow> bytes" where
  "build_data_indication e peer payload =
     message_encode
       \<lparr>header = \<lparr>hdr_method = Data, hdr_event_type = Indication, message_length = 0,
          magic_cookie = 0x2112A442, transaction_id = getrandom (word_of_nat (unix_nanos e)) 12\<rparr>,
        attributes = [\<lparr>attr_type = PEER_ADDRESS, attr_value = encode_xor_address peer 0x2112A442\<rparr>,
                      \<lparr>attr_type = DATA, attr_value = payload\<rparr>]\<rparr>"

definition normalize_peer_addr_for_client :: "socket_addr \<Rightarrow> socket_addr \<Rightarrow> socket_addr \<Rightarrow> socket_addr" where
  "normalize_peer_addr_for_client peer relay_bind_addr relayed =
     (if sock_ip peer = sock_ip relay_bind_addr \<and> sock_ip relay_bind_addr \<noteq> sock_ip relayed
      then socket_new (sock_ip relayed) (sock_port peer)
      else peer)"

text \<open>A packet from a peer arrives on the relay socket of a running task.\<close>

definition task_recv ::
  "env \<Rightarrow> nat \<Rightarrow> socket_addr \<Rightarrow> bytes \<Rightarrow> alloc_table \<Rightarrow> channel_table \<Rightarrow> alloc_table \<times> effect list" where
  "task_recv e tid peer data t ct =
     (case hm_get (tasks t) tid of
        None \<Rightarrow> (t, [])
      | Some k \<Rightarrow>
          (let t1 = t\<lparr>stats := count_relayed (length data) (stats t)\<rparr>;
               effective_peer = normalize_peer_addr_for_client peer (task_bind k) (task_relayed k)
           in case get_by_peer_for_relayed ct (task_relayed k) effective_peer of
                Some ch \<Rightarrow> (t1, send_to_client t1 (channel_data ch data) (task_client k))
              | None \<Rightarrow> (t1, send_to_client t1 (build_data_indication e effective_peer data) (task_client k))))"

datatype allocation_message =
    Msg_PeerData bytes socket_addr
  | Msg_ClientData bytes socket_addr
  | Msg_ChannelData bytes u16
  | Msg_Refresh u32
  | Msg_Shutdown

text \<open>A message on the task's queue; \<open>Shutdown\<close>, like a receive error, ends the task.\<close>

definition task_message ::
  "env \<Rightarrow> nat \<Rightarrow> allocation_message \<Rightarrow> alloc_table \<Rightarrow> alloc_table \<times> effect list" where
  "task_message e tid msg t =
     (case hm_get (tasks t) tid of
        None \<Rightarrow> (t, [])
      | Some k \<Rightarrow>
          (case msg of
             Msg_ClientData data peer \<Rightarrow>
               (t, if send_fails e peer then [] else [ToPeer (task_bind k) peer data])
           | Msg_ChannelData data _ \<Rightarrow> (t, send_to_client t data (task_client k))
           | Msg_Shutdown \<Rightarrow> (t\<lparr>tasks := hm_remove tid (tasks t)\<rparr>, [])
           | _ \<Rightarrow> (t, [])))"

definition task_recv_error :: "nat \<Rightarrow> alloc_table \<Rightarrow> alloc_table" where
  "task_recv_error tid t = t\<lparr>tasks := hm_remove tid (tasks t)\<rparr>"

section \<open>The table invariant\<close>

text \<open>
  Every entry is filed under its own relayed address, on a port the allocator knows to be in
  use, with a relay socket on the same port; ports in use, counter, bandwidth trackers and
  running tasks agree with the entries; the quota holds. \<open>d\<close> is the number of removed
  entries the active counter does not know of yet, which is not zero only inside
  \<open>cleanup_expired\<close>.
\<close>

definition entry_ok :: "alloc_table \<Rightarrow> socket_addr \<Rightarrow> allocation \<Rightarrow> bool" where
  "entry_ok t k a \<longleftrightarrow> relayed_addr a = k \<and> five_tuple a = (client_addr a, k) \<and>
     (\<exists>p r. k = SocketV4 (external_addr t) p \<and> relay a = Some r \<and>
        relay_socket r = SocketV4 (bind_addr t) p \<and> task_handle r < next_task t)"

definition task_ok :: "alloc_table \<Rightarrow> nat \<Rightarrow> relay_task \<Rightarrow> bool" where
  "task_ok t tid k \<longleftrightarrow> (\<exists>a r. hm_get (allocations t) (task_relayed k) = Some a \<and> relay a = Some r \<and>
     task_handle r = tid \<and> relay_socket r = task_bind k \<and> client_addr a = task_client k)"

definition table_inv :: "nat \<Rightarrow> alloc_table \<Rightarrow> bool" where
  "table_inv d t \<longleftrightarrow>
     hm_wf (allocations t) \<and> (\<forall>k a. hm_get (allocations t) k = Some a \<longrightarrow> entry_ok t k a) \<and>
     pa_wf (port_alloc t) \<and>
     used_ports (port_alloc t) = {p. hm_get (allocations t) (SocketV4 (external_addr t) p) \<noteq> None} \<and>
     unat (active_allocations (stats t)) = hm_len (allocations t) + d \<and>
     hm_wf (trackers (bandwidth t)) \<and>
     dom (hm_get (trackers (bandwidth t))) = sock_to_string ` dom (hm_get (allocations t)) \<and>
     hm_wf (tasks t) \<and> (\<forall>tid k. hm_get (tasks t) tid = Some k \<longrightarrow> task_ok t tid k) \<and>
     (\<forall>limit. max_concurrent_allocations t = Some limit \<longrightarrow> hm_len (allocations t) \<le> limit)"

lemma table_invI:
  assumes "hm_wf (allocations t)" and "\<And>k a. hm_get (allocations t) k = Some a \<Longrightarrow> entry_ok t k a"
    and "pa_wf (port_alloc t)"
    and "used_ports (port_alloc t) = {p. hm_get (allocations t) (SocketV4 (external_addr t) p) \<noteq> None}"
    and "unat (active_allocations (stats t)) = hm_len (allocations t) + d"
    and "hm_wf (trackers (bandwidth t))"
    and "dom (hm_get (trackers (bandwidth t))) = sock_to_string ` dom (hm_get (allocations t))"
    and "hm_wf (tasks t)" and "\<And>tid k. hm_get (tasks t) tid = Some k \<Longrightarrow> task_ok t tid k"
    and "\<And>limit. max_concurrent_allocations t = Some limit \<Longrightarrow> hm_len (allocations t) \<le> limit"
  shows "table_inv d t"
  using assms by (simp add: table_inv_def)

lemma table_invD:
  assumes "table_inv d t"
  shows "hm_wf (allocations t)" and "hm_get (allocations t) k = Some a \<Longrightarrow> entry_ok t k a"
    and "pa_wf (port_alloc t)"
    and "used_ports (port_alloc t) = {p. hm_get (allocations t) (SocketV4 (external_addr t) p) \<noteq> None}"
    and "unat (active_allocations (stats t)) = hm_len (allocations t) + d"
    and "hm_wf (trackers (bandwidth t))"
    and "dom (hm_get (trackers (bandwidth t))) = sock_to_string ` dom (hm_get (allocations t))"
    and "hm_wf (tasks t)" and "hm_get (tasks t) tid = Some tk \<Longrightarrow> task_ok t tid tk"
    and "max_concurrent_allocations t = Some limit \<Longrightarrow> hm_len (allocations t) \<le> limit"
  using assms by (auto simp: table_inv_def)

lemma entry_key:
  assumes "table_inv d t" and "hm_get (allocations t) k = Some a"
  obtains p where "k = SocketV4 (external_addr t) p" and "p \<in> used_ports (port_alloc t)"
proof -
  obtain p where p: "k = SocketV4 (external_addr t) p"
    using table_invD(2) [OF assms] by (auto simp: entry_ok_def)
  then have "p \<in> used_ports (port_alloc t)"
    using assms(2) table_invD(4) [OF assms(1)] by simp
  with p show ?thesis by (rule that)
qed

lemma key_string_inj:
  assumes "table_inv d t" and "hm_get (allocations t) k = Some a" and "hm_get (allocations t) k' = Some a'"
    and "sock_to_string k = sock_to_string k'"
  shows "k = k'"
proof -
  obtain p where "k = SocketV4 (external_addr t) p" by (rule entry_key [OF assms(1,2)])
  moreover obtain p' where "k' = SocketV4 (external_addr t) p'" by (rule entry_key [OF assms(1,3)])
  ultimately show ?thesis using assms(4) sock_to_string_v4_inj by blast
qed

lemma table_inv_new:
  assumes "lo \<le> hi" and "unat hi - unat lo < 65535"
  shows "table_inv 0 (with_port_range_and_bind_addr t0 ext bnd rlm lo hi max_conc max_dur)"
  using pa_wf_new [OF assms]
  by (intro table_invI)
     (auto simp: with_port_range_and_bind_addr_def server_stats_default_def bandwidth_manager_new_def)

text \<open>Updates that leave keys, clients, relays, ports, tasks and the active count alone.\<close>

definition same_relays :: "alloc_table \<Rightarrow> alloc_table \<Rightarrow> bool" where
  "same_relays t t' \<longleftrightarrow>
     (\<forall>k. map_option (\<lambda>a. (relayed_addr a, client_addr a, five_tuple a, relay a)) (hm_get (allocations t') k) =
          map_option (\<lambda>a. (relayed_addr a, client_addr a, five_tuple a, relay a)) (hm_get (allocations t) k)) \<and>
     hm_wf (allocations t') \<and> port_alloc t' = port_alloc t \<and> bind_addr t' = bind_addr t \<and>
     external_addr t' = external_addr t \<and> active_allocations (stats t') = active_allocations (stats t) \<and>
     max_concurrent_allocations t' = max_concurrent_allocations t \<and> bandwidth t' = bandwidth t \<and>
     tasks t' = tasks t \<and> next_task t' = next_task t"

lemma same_relays_get:
  assumes "same_relays t t'" and "hm_get (allocations t') k = Some a'"
  shows "\<exists>a. hm_get (allocations t) k = Some a \<and> relayed_addr a' = relayed_addr a \<and>
    client_addr a' = client_addr a \<and> five_tuple a' = five_tuple a \<and> relay a' = relay a"
proof -
  have "map_option (\<lambda>a. (relayed_addr a, client_addr a, five_tuple a, relay a)) (hm_get (allocations t') k) =
      map_option (\<lambda>a. (relayed_addr a, client_addr a, five_tuple a, relay a)) (hm_get (allocations t) k)"
    using assms(1) by (simp add: same_relays_def)
  then show ?thesis using assms(2) by (cases "hm_get (allocations t) k") auto
qed

lemma same_relays_get':
  assumes "same_relays t t'" and "hm_get (allocations t) k = Some a"
  shows "\<exists>a'. hm_get (allocations t') k = Some a' \<and> relayed_addr a' = relayed_addr a \<and>
    client_addr a' = client_addr a \<and> five_tuple a' = five_tuple a \<and> relay a' = relay a"
proof -
  have "map_option (\<lambda>a. (relayed_addr a, client_addr a, five_tuple a, relay a)) (hm_get (allocations t') k) =
      map_option (\<lambda>a. (relayed_addr a, client_addr a, five_tuple a, relay a)) (hm_get (allocations t) k)"
    using assms(1) by (simp add: same_relays_def)
  then show ?thesis using assms(2) by (cases "hm_get (allocations t') k") auto
qed

lemma same_relays_dom: "same_relays t t' \<Longrightarrow> dom (hm_get (allocations t')) = dom (hm_get (allocations t))"
  by (auto dest: same_relays_get same_relays_get')

lemma table_inv_same_relays:
  assumes inv: "table_inv d t" and same: "same_relays t t'"
  shows "table_inv d t'"
proof -
  have eq: "port_alloc t' = port_alloc t" "external_addr t' = external_addr t" "bind_addr t' = bind_addr t"
    "active_allocations (stats t') = active_allocations (stats t)" "bandwidth t' = bandwidth t"
    "tasks t' = tasks t" "next_task t' = next_task t" "hm_wf (allocations t')"
    "max_concurrent_allocations t' = max_concurrent_allocations t"
    using same by (auto simp: same_relays_def)
  have dom: "dom (hm_get (allocations t')) = dom (hm_get (allocations t))"
    using same by (rule same_relays_dom)
  then have none: "hm_get (allocations t') k \<noteq> None \<longleftrightarrow> hm_get (allocations t) k \<noteq> None" for k
    by blast
  have len: "hm_len (allocations t') = hm_len (allocations t)"
    using dom eq(8) table_invD(1) [OF inv] by (simp add: hm.len_card)
  show ?thesis
  proof (rule table_invI)
    show "entry_ok t' k a" if "hm_get (allocations t') k = Some a" for k a
      using same_relays_get [OF same that] table_invD(2) [OF inv, of k] by (auto simp: entry_ok_def eq)
    show "task_ok t' tid k" if "hm_get (tasks t') tid = Some k" for tid k
      using that table_invD(9) [OF inv, of tid k] same_relays_get' [OF same]
      by (fastforce simp: task_ok_def eq)
    show "used_ports (port_alloc t') = {p. hm_get (allocations t') (SocketV4 (external_addr t') p) \<noteq> None}"
      unfolding eq none by (rule table_invD(4) [OF inv])
  qed (use inv in \<open>simp_all add: eq len dom table_inv_def\<close>)
qed

lemma same_relays_update:
  assumes "hm_wf (allocations t)" and "hm_get (allocations t) k = Some a"
    and "relayed_addr a' = relayed_addr a" "client_addr a' = client_addr a"
      "five_tuple a' = five_tuple a" "relay a' = relay a"
    and "active_allocations st = active_allocations (stats t)"
  shows "same_relays t (t\<lparr>allocations := hm_insert k a' (allocations t), stats := st\<rparr>)"
    and "same_relays t (t\<lparr>stats := st, allocations := hm_insert k a' (allocations t)\<rparr>)"
    and "same_relays t (t\<lparr>allocations := hm_insert k a' (allocations t)\<rparr>)"
  using assms by (auto simp: same_relays_def hm.get_insert hm.wf_insert)

lemma same_relays_refl: "hm_wf (allocations t) \<Longrightarrow> same_relays t t"
  by (simp add: same_relays_def)

lemma count_relayed_active [simp]: "active_allocations (count_relayed n s) = active_allocations s"
  by (simp add: count_relayed_def)

section \<open>Each operation keeps the invariant\<close>

lemma drop_entry_inv:
  assumes inv: "table_inv d t" and a: "hm_get (allocations t) k = Some a"
  shows "table_inv (Suc d) (drop_entry k a t)"
proof -
  obtain p where p: "k = SocketV4 (external_addr t) p" "p \<in> used_ports (port_alloc t)"
    by (rule entry_key [OF inv a])
  obtain r where r: "relay a = Some r"
    using table_invD(2) [OF inv a] by (auto simp: entry_ok_def)
  note pf = ports.free_facts [OF table_invD(3) [OF inv], of p]
  let ?t = "drop_entry k a t"
  have al: "hm_get (allocations ?t) k' = (if k' = k then None else hm_get (allocations t) k')" for k'
    by (simp add: drop_entry_def hm.get_remove)
  have len: "hm_len (allocations t) = Suc (hm_len (allocations ?t))"
    using hm.len_remove [OF table_invD(1) [OF inv] a] by (simp add: drop_entry_def)
  show ?thesis
  proof (rule table_invI)
    show "entry_ok ?t k' a'" if "hm_get (allocations ?t) k' = Some a'" for k' a'
    proof -
      have "entry_ok t k' a'"
        using that table_invD(2) [OF inv] by (simp add: al split: if_splits)
      then show ?thesis by (simp add: entry_ok_def drop_entry_def)
    qed
    show "used_ports (port_alloc ?t) = {q. hm_get (allocations ?t) (SocketV4 (external_addr ?t) q) \<noteq> None}"
    proof -
      have eq: "port_alloc ?t = snd (release p (port_alloc t))" "external_addr ?t = external_addr t"
        by (simp_all add: drop_entry_def p(1))
      show ?thesis unfolding eq al pf(2) table_invD(4) [OF inv] by (auto simp: p(1))
    qed
    show "task_ok ?t tid tk" if "hm_get (tasks ?t) tid = Some tk" for tid tk
    proof -
      have "tid \<noteq> task_handle r" and "hm_get (tasks t) tid = Some tk"
        using that by (auto simp: drop_entry_def r hm.get_remove split: if_splits)
      moreover from this table_invD(9) [OF inv] have "task_ok t tid tk" by blast
      ultimately show ?thesis using a r by (auto simp: task_ok_def al)
    qed
    have "sock_to_string ` (dom (hm_get (allocations t)) - {k}) = sock_to_string ` dom (hm_get (allocations t)) - {sock_to_string k}"
    proof -
      have "k' = k" if "sock_to_string k' = sock_to_string k" "k' \<in> dom (hm_get (allocations t))" for k'
        using key_string_inj [OF inv _ a that(1)] that(2) by blast
      then have inj: "k' \<in> dom (hm_get (allocations t)) - {k} \<Longrightarrow> sock_to_string k' \<noteq> sock_to_string k" for k'
        by blast
      show ?thesis
        by (rule set_eqI) (use inj in \<open>auto simp only: image_iff Diff_iff bex_simps singleton_iff\<close>)
    qed
    moreover have "dom (hm_get (allocations ?t)) = dom (hm_get (allocations t)) - {k}"
      by (auto simp: al split: if_splits)
    ultimately show "dom (hm_get (trackers (bandwidth ?t))) = sock_to_string ` dom (hm_get (allocations ?t))"
      using table_invD(7) [OF inv] by (simp add: drop_entry_def unregister_allocation_def hm.get_remove)
    show "hm_len (allocations ?t) \<le> limit" if "max_concurrent_allocations ?t = Some limit" for limit
      using that table_invD(10) [OF inv, of limit] len by (simp add: drop_entry_def)
    show "unat (active_allocations (stats ?t)) = hm_len (allocations ?t) + Suc d"
      using table_invD(5) [OF inv] len by (simp add: drop_entry_def)
  qed (use inv pf in \<open>simp_all add: drop_entry_def p(1) r hm.wf_ops unregister_allocation_def table_inv_def\<close>)
qed

lemma table_inv_subtract:
  assumes inv: "table_inv n t" and "n < 2 ^ 64"
  shows "table_inv 0 (t\<lparr>stats := (stats t)\<lparr>active_allocations := active_allocations (stats t) - word_of_nat n\<rparr>\<rparr>)"
proof -
  have "unat (word_of_nat n :: u64) = n" using assms(2) by (simp add: unat_of_nat)
  moreover have "n \<le> unat (active_allocations (stats t))" using table_invD(5) [OF inv] by simp
  ultimately have "unat (active_allocations (stats t) - word_of_nat n) = hm_len (allocations t)"
    using table_invD(5) [OF inv] by (simp add: unat_sub word_le_nat_alt)
  then show ?thesis
    using inv by (simp add: table_inv_def entry_ok_def task_ok_def)
qed

lemma remove_allocation_inv:
  assumes "table_inv 0 t"
  shows "table_inv 0 (fst (snd (remove_allocation k t ct)))"
proof (cases "hm_get (allocations t) k")
  case None
  then show ?thesis using assms by (simp add: remove_allocation_def)
next
  case (Some a)
  have "table_inv 1 (drop_entry k a t)"
    using drop_entry_inv [OF assms Some] by simp
  from table_inv_subtract [OF this] show ?thesis
    using Some by (simp add: remove_allocation_def Let_def)
qed

lemma drop_expired_inv:
  "table_inv d t \<Longrightarrow> drop_expired ks n t ct = (m, t', ct') \<Longrightarrow> table_inv (d + (m - n)) t' \<and> n \<le> m \<and> m \<le> n + length ks"
proof (induction ks n t ct arbitrary: d rule: drop_expired.induct)
  case (2 k ks n t ct)
  show ?case
  proof (cases "hm_get (allocations t) k")
    case None
    then show ?thesis using 2(1) [OF None 2(3)] 2(4) by fastforce
  next
    case (Some a)
    have run: "drop_expired ks (Suc n) (drop_entry k a t)
        (map_option (\<lambda>c. snd (remove_for_relayed k c)) ct) = (m, t', ct')"
      using 2(4) Some by simp
    from 2(2) [OF Some drop_entry_inv [OF 2(3) Some] run]
    have "table_inv (Suc d + (m - Suc n)) t' \<and> Suc n \<le> m \<and> m \<le> Suc n + length ks" .
    moreover then have "Suc d + (m - Suc n) = d + (m - n)" by auto
    ultimately show ?thesis by auto
  qed
qed simp

lemma hm_len_allocations_bound:
  assumes "table_inv d t"
  shows "hm_len (allocations t) \<le> 65536"
proof -
  have "dom (hm_get (allocations t)) \<subseteq> range (SocketV4 (external_addr t))"
    using table_invD(2) [OF assms] by (fastforce simp: entry_ok_def)
  then have "card (dom (hm_get (allocations t))) \<le> card (range (SocketV4 (external_addr t)))"
    by (intro card_mono) simp_all
  also have "\<dots> \<le> card (UNIV :: u16 set)" by (rule card_image_le) simp
  also have "\<dots> = 65536" by (simp add: card_word)
  finally show ?thesis using table_invD(1) [OF assms] by (simp add: hm.len_card)
qed

lemma cleanup_expired_inv:
  assumes "table_inv 0 t"
  shows "table_inv 0 (fst (snd (cleanup_expired t0 t ct)))"
proof -
  let ?ks = "map fst (filter (\<lambda>(k, a). is_expired t0 a) (allocations t))"
  obtain m t' ct' where run: "drop_expired ?ks 0 t ct = (m, t', ct')" by (cases "drop_expired ?ks 0 t ct")
  from drop_expired_inv [OF assms run] have inv: "table_inv m t'" and m: "m \<le> length ?ks" by auto
  have "length ?ks \<le> hm_len (allocations t)" by (simp add: hm_len_def)
  then have "m < 2 ^ 64" using m hm_len_allocations_bound [OF assms] by simp
  from table_inv_subtract [OF inv this] show ?thesis
    using inv by (cases "m = 0") (simp_all add: cleanup_expired_def run)
qed

lemma refresh_allocation_same:
  "hm_wf (allocations t) \<Longrightarrow> same_relays t (snd (refresh_allocation k secs t))"
  by (auto simp: refresh_allocation_def same_relays_refl same_relays_update split: option.split)

lemma find_entry:
  assumes "hm_wf (allocations t)" and "find (\<lambda>(k, a). client_addr a = client) (allocations t) = Some (k, a)"
  shows "hm_get (allocations t) k = Some a" and "client_addr a = client"
  using find_SomeD [OF assms(2)] assms(1) by (auto simp: hm_get_Some_iff)

lemma add_permissions_same:
  "hm_wf (allocations t) \<Longrightarrow> same_relays t (snd (add_permissions client peers t))"
  by (auto simp: add_permissions_def same_relays_refl split: option.split
      intro!: same_relays_update(3) [OF _ find_entry(1)])

lemma send_to_peer_same:
  "hm_wf (allocations t) \<Longrightarrow> same_relays t (fst (snd (send_to_peer e client peer data t)))"
  by (auto simp: send_to_peer_def same_relays_refl split: option.split
      intro!: same_relays_update(2) [OF _ find_entry(1)])

lemma same_relays_stats:
  "hm_wf (allocations t) \<Longrightarrow> active_allocations st = active_allocations (stats t) \<Longrightarrow> same_relays t (t\<lparr>stats := st\<rparr>)"
  by (simp add: same_relays_def)

lemma task_recv_same:
  "hm_wf (allocations t) \<Longrightarrow> same_relays t (fst (task_recv e tid peer data t ct))"
  by (simp add: task_recv_def same_relays_refl same_relays_stats Let_def split: option.split)

lemma table_inv_remove_task:
  "table_inv d t \<Longrightarrow> table_inv d (t\<lparr>tasks := hm_remove tid (tasks t)\<rparr>)"
  by (auto simp: table_inv_def entry_ok_def task_ok_def hm.wf_ops dest!: hm.get_remove_SomeD)

lemma table_inv_senders:
  "table_inv d (t\<lparr>client_senders := cs\<rparr>) \<longleftrightarrow> table_inv d t"
  "table_inv d (t\<lparr>default_sender := ds\<rparr>) \<longleftrightarrow> table_inv d t"
  "table_inv d (t\<lparr>main_socket := ms\<rparr>) \<longleftrightarrow> table_inv d t"
  by (simp_all add: table_inv_def entry_ok_def task_ok_def)

text \<open>
  The bind loop, under the invariant of the port pool: it returns, it changes only the
  allocator, and it ends with one fresh port more in use or, on an error, with the same ports
  in use as before.
\<close>

fun bind_post :: "ipv4_addr \<Rightarrow> ipv4_addr \<Rightarrow> u16 set \<Rightarrow> u16 set \<Rightarrow> u16 set \<Rightarrow>
    turn_error + socket_addr \<times> socket_addr \<Rightarrow> bool" where
  "bind_post bnd ext rng used used' (Inl err) \<longleftrightarrow> used' = used \<and>
     (err = Err_RelayPortExhausted \<or> (\<exists>addr source. err = Err_RelayBindFailed addr source))"
| "bind_post bnd ext rng used used' (Inr (b, r)) \<longleftrightarrow>
     (\<exists>p. b = SocketV4 bnd p \<and> r = SocketV4 ext p \<and> p \<in> rng - used \<and> used' = insert p used)"

lemma bind_relay_spec:
  assumes "pa_wf (port_alloc t)"
  shows "\<exists>res pa. bind_relay e n i sd lf t = Returns (res, t\<lparr>port_alloc := pa\<rparr>) \<and> pa_wf pa \<and>
    port_range pa = port_range (port_alloc t) \<and>
    bind_post (bind_addr t) (external_addr t) (port_range (port_alloc t)) (used_ports (port_alloc t))
      (used_ports pa) res"
  using assms
proof (induction n arbitrary: i sd lf t)
  case 0
  then show ?case
    by (auto intro!: exI [of _ "port_alloc t"] split: option.split)
next
  case (Suc n)
  let ?o = "\<lparr>fresh1 = fst (port_entropy e i), fresh2 = snd (port_entropy e i), seed = sd,
    weak_failures = weak_cas e i\<rparr>"
  obtain r pa s where al: "port_allocate ?o (port_alloc t) = Returns (r, pa, s)"
    using ports.alloc_returns [OF Suc.prems] by blast
  show ?case
  proof (cases r)
    case None
    then show ?thesis
      using al ports.alloc_None [OF Suc.prems] Suc.prems by (auto intro!: exI [of _ pa])
  next
    case (Some p)
    note got = ports.alloc_Some [OF Suc.prems al [unfolded Some]]
    show ?thesis
    proof (cases "bind_error e i (SocketV4 (bind_addr t) p)")
      case None
      then show ?thesis
        using al Some got by (auto intro!: exI [of _ pa])
    next
      case (Some err)
      let ?pa = "snd (release p pa)"
      have rel: "used_ports ?pa = used_ports (port_alloc t)" "pa_wf ?pa"
          "port_range ?pa = port_range (port_alloc t)"
        using ports.free_facts [of pa p] got by auto
      from Suc.IH [of "t\<lparr>port_alloc := ?pa\<rparr>" "Suc i" s "Some (SocketV4 (bind_addr t) p, err)"] rel
      show ?thesis
        using al \<open>r = Some p\<close> Some by simp
    qed
  qed
qed

lemma install_allocation_inv:
  assumes inv: "table_inv 0 t" and p: "p \<notin> used_ports (port_alloc t)"
    and pa: "pa_wf pa" "used_ports pa = insert p (used_ports (port_alloc t))"
    and quota: "\<And>limit. max_concurrent_allocations t = Some limit \<Longrightarrow> hm_len (allocations t) < limit"
    and inst: "install_allocation e client life (SocketV4 (bind_addr t) p) (SocketV4 (external_addr t) p)
      (t\<lparr>port_alloc := pa\<rparr>) = (a, t')"
  shows "table_inv 0 t'"
proof -
  let ?k = "SocketV4 (external_addr t) p" and ?b = "SocketV4 (bind_addr t) p" and ?tid = "next_task t"
  have fresh: "hm_get (allocations t) ?k = None"
    using p table_invD(4) [OF inv] by auto
  have a: "relayed_addr a = ?k" "client_addr a = client" "five_tuple a = (client, ?k)"
      "relay a = Some \<lparr>relay_socket = ?b, task_handle = ?tid\<rparr>"
    and t': "allocations t' = hm_insert ?k a (allocations t)" "port_alloc t' = pa"
      "bind_addr t' = bind_addr t" "external_addr t' = external_addr t" "next_task t' = Suc ?tid"
      "active_allocations (stats t') = active_allocations (stats t) + 1"
      "max_concurrent_allocations t' = max_concurrent_allocations t"
      "bandwidth t' = register_allocation (now e) (sock_to_string ?k) None (bandwidth t)"
      "tasks t' = hm_insert ?tid \<lparr>task_client = client, task_bind = ?b, task_relayed = ?k\<rparr> (tasks t)"
    using inst by (auto simp: install_allocation_def spawn_allocation_task_def allocation_with_relay_def Let_def)
  have len: "hm_len (allocations t') = Suc (hm_len (allocations t))"
    using hm.len_insert_new [OF table_invD(1) [OF inv] fresh] t'(1) by simp
  have get: "hm_get (allocations t') k = (if k = ?k then Some a else hm_get (allocations t) k)" for k
    by (simp add: t'(1) hm.get_insert)
  show ?thesis
  proof (rule table_invI)
    show "entry_ok t' k a'" if "hm_get (allocations t') k = Some a'" for k a'
    proof (cases "k = ?k")
      case True
      then have "a' = a" using that by (simp add: get)
      then show ?thesis using True a t'(3,4,5) by (simp add: entry_ok_def)
    next
      case False
      then have "entry_ok t k a'" using that table_invD(2) [OF inv] by (simp add: get)
      then show ?thesis by (auto simp: entry_ok_def t')
    qed
    show "used_ports (port_alloc t') = {q. hm_get (allocations t') (SocketV4 (external_addr t') q) \<noteq> None}"
      unfolding get t'(2) t'(4) pa(2) table_invD(4) [OF inv] by auto
    show "task_ok t' tid k" if "hm_get (tasks t') tid = Some k" for tid k
    proof (cases "tid = ?tid")
      case True
      then have "k = \<lparr>task_client = client, task_bind = ?b, task_relayed = ?k\<rparr>"
        using that by (simp add: t'(9) hm.get_insert)
      then show ?thesis using True a by (simp add: task_ok_def get)
    next
      case False
      then have "task_ok t tid k" using that table_invD(9) [OF inv] by (simp add: t'(9) hm.get_insert)
      then show ?thesis using fresh by (auto simp: task_ok_def get)
    qed
    show "unat (active_allocations (stats t')) = hm_len (allocations t') + 0"
      using table_invD(5) [OF inv] hm_len_allocations_bound [OF inv] len
      by (simp add: t'(6) unat_word_ariths)
    have "dom (hm_get (allocations t')) = insert ?k (dom (hm_get (allocations t)))"
      by (auto simp: get split: if_splits)
    then show "dom (hm_get (trackers (bandwidth t'))) = sock_to_string ` dom (hm_get (allocations t'))"
      using table_invD(7) [OF inv] by (simp add: t'(8) register_allocation_def hm.get_insert)
    show "hm_len (allocations t') \<le> limit" if "max_concurrent_allocations t' = Some limit" for limit
      using quota [of limit] that len by (simp add: t'(7))
  qed (use inv pa(1) in \<open>simp_all add: t' table_inv_def hm.wf_ops register_allocation_def\<close>)
qed

text \<open>What creating an allocation does, on each of its branches.\<close>

lemma create_allocation_cases:
  assumes inv: "table_inv 0 t"
  obtains (quota) "create_allocation e client req t = Returns (Inl Err_AllocationQuotaReached, t)"
      "\<exists>limit. max_concurrent_allocations t = Some limit \<and> limit \<le> hm_len (allocations t)"
  | (fail) err pa where "create_allocation e client req t = Returns (Inl err, t\<lparr>port_alloc := pa\<rparr>)"
      "pa_wf pa" "used_ports pa = used_ports (port_alloc t)"
      "err = Err_RelayPortExhausted \<or> (\<exists>addr source. err = Err_RelayBindFailed addr source)"
  | (ok) p pa a t' where "create_allocation e client req t = Returns (Inr a, t')"
      "p \<in> port_range (port_alloc t) - used_ports (port_alloc t)" "pa_wf pa"
      "used_ports pa = insert p (used_ports (port_alloc t))"
      "install_allocation e client (from_secs (unat (lifetime_secs req t))) (SocketV4 (bind_addr t) p)
        (SocketV4 (external_addr t) p) (t\<lparr>port_alloc := pa\<rparr>) = (a, t')"
      "\<And>limit. max_concurrent_allocations t = Some limit \<Longrightarrow> hm_len (allocations t) < limit"
proof -
  have act: "unat (active_allocations (stats t)) = hm_len (allocations t)"
    using table_invD(5) [OF inv] by simp
  obtain res pa where b: "bind_relay e MAX_ATTEMPTS 0 (port_seed e) None t = Returns (res, t\<lparr>port_alloc := pa\<rparr>)"
      "pa_wf pa"
    and res: "bind_post (bind_addr t) (external_addr t) (port_range (port_alloc t))
      (used_ports (port_alloc t)) (used_ports pa) res"
    using bind_relay_spec [OF table_invD(3) [OF inv]] by blast
  show thesis
  proof (cases "\<exists>limit. max_concurrent_allocations t = Some limit \<and> limit \<le> hm_len (allocations t)")
    case True
    then show thesis by (intro quota) (auto simp: create_allocation_def act)
  next
    case False
    then have nq: "\<not> (case max_concurrent_allocations t of
        Some limit \<Rightarrow> unat (active_allocations (stats t)) \<ge> limit | None \<Rightarrow> False)"
      by (auto simp: act split: option.split)
    show thesis
    proof (cases res)
      case (Inl err)
      then show thesis
        using nq b res by (intro fail [of err pa]) (simp_all add: create_allocation_def)
    next
      case (Inr br)
      then obtain p where p: "br = (SocketV4 (bind_addr t) p, SocketV4 (external_addr t) p)"
          "p \<in> port_range (port_alloc t) - used_ports (port_alloc t)"
          "used_ports pa = insert p (used_ports (port_alloc t))"
        using res by (cases br) auto
      obtain a t' where i: "install_allocation e client (from_secs (unat (lifetime_secs req t)))
          (SocketV4 (bind_addr t) p) (SocketV4 (external_addr t) p) (t\<lparr>port_alloc := pa\<rparr>) = (a, t')"
        by fastforce
      show thesis
      proof (rule ok [OF _ p(2) b(2) p(3) i])
        show "create_allocation e client req t = Returns (Inr a, t')"
          using nq b(1) Inr p(1) i by (simp add: create_allocation_def)
      qed (use False in \<open>auto simp: not_le\<close>)
    qed
  qed
qed

lemma table_inv_port_alloc:
  assumes "table_inv d t" and "pa_wf pa" and "used_ports pa = used_ports (port_alloc t)"
  shows "table_inv d (t\<lparr>port_alloc := pa\<rparr>)"
  using assms by (simp add: table_inv_def entry_ok_def task_ok_def)

lemma create_allocation_inv:
  assumes inv: "table_inv 0 t" and "create_allocation e client req t = Returns (res, t')"
  shows "table_inv 0 t'"
  using inv
proof (cases rule: create_allocation_cases [where e = e and client = client and req = req])
  case quota
  then show ?thesis using assms by simp
next
  case (fail err pa)
  then show ?thesis using assms table_inv_port_alloc [OF inv] by simp
next
  case (ok p pa a t'')
  then show ?thesis using assms install_allocation_inv [OF inv _ ok(3,4,6,5)] by simp
qed

lemma get_drop_entry:
  "hm_get (allocations (drop_entry k a t)) k' = (if k' = k then None else hm_get (allocations t) k')"
  by (simp add: drop_entry_def hm.get_remove)

lemma get_drop_expired:
  "drop_expired ks n t ct = (m, t', ct') \<Longrightarrow>
     hm_get (allocations t') k = (if k \<in> set ks then None else hm_get (allocations t) k)"
proof (induction ks n t ct rule: drop_expired.induct)
  case (2 k' ks n t ct)
  then show ?case
    by (cases "hm_get (allocations t) k'") (auto simp: get_drop_entry)
qed simp

lemma count_drop_expired:
  "drop_expired ks n t ct = (m, t', ct') \<Longrightarrow> distinct ks \<Longrightarrow> \<forall>k\<in>set ks. hm_get (allocations t) k \<noteq> None \<Longrightarrow>
     m = n + length ks"
proof (induction ks n t ct rule: drop_expired.induct)
  case (2 k' ks n t ct)
  then obtain a where a: "hm_get (allocations t) k' = Some a" by auto
  have "\<forall>k\<in>set ks. hm_get (allocations (drop_entry k' a t)) k \<noteq> None"
    using 2(4,5) by (auto simp: get_drop_entry)
  then show ?case using 2(2) [OF a] 2(3,4) a by simp
qed simp

lemma channels_drop_expired:
  "drop_expired ks n t (Some c) = (m, t', ct') \<Longrightarrow> ct_wf c \<Longrightarrow>
     \<exists>c'. ct' = Some c' \<and> ct_wf c' \<and>
       (\<forall>r ch. get_by_channel c' r ch =
          (if r \<in> set ks \<and> hm_get (allocations t) r \<noteq> None then None else get_by_channel c r ch))"
proof (induction ks arbitrary: n t c)
  case (Cons k ks)
  show ?case
  proof (cases "hm_get (allocations t) k")
    case None
    then show ?thesis using Cons by fastforce
  next
    case (Some a)
    let ?c = "snd (remove_for_relayed k c)"
    from Cons.prems(1) Some have "drop_expired ks (Suc n) (drop_entry k a t) (Some ?c) = (m, t', ct')" by simp
    from Cons.IH [OF this ct_wf_remove_for_relayed [OF Cons.prems(2)]]
    obtain c' where "ct' = Some c'" "ct_wf c'" and g: "\<And>r ch. get_by_channel c' r ch =
        (if r \<in> set ks \<and> hm_get (allocations (drop_entry k a t)) r \<noteq> None then None else get_by_channel ?c r ch)"
      by blast
    then show ?thesis
      using Some by (auto simp: g get_drop_entry get_remove_for_relayed [OF Cons.prems(2)])
  qed
qed auto

lemma expired_keys:
  assumes "hm_wf m"
  shows "k \<in> set (map fst (filter (\<lambda>(k, a). P a) m)) \<longleftrightarrow> (\<exists>a. hm_get m k = Some a \<and> P a)"
    and "distinct (map fst (filter (\<lambda>(k, a). P a) m))"
  using assms by (force simp: hm_get_Some_iff, simp add: hm_wf_def distinct_map_filter)

section \<open>Properties of the allocation table\<close>

text \<open>C6. Creating an allocation, with any outcome of the binds and any random start: the call
  returns and keeps the table invariant (ports in use, active counter, bandwidth trackers and
  relay tasks all agree with the entries, and the configured quota holds). On success the new
  entry is filed under a relayed address that was free, belongs to the client, starts without
  permissions at the current instant, and lives for the requested time (600 s by default) cut
  to the configured maximum. On an error the entries and the ports in use are as before, and
  the quota error is the answer exactly when the quota is reached.\<close>

theorem create_allocation_correct:
  assumes "table_inv 0 t"
  shows "\<exists>res t'. create_allocation e client req t = Returns (res, t') \<and> table_inv 0 t' \<and>
    (res = Inl Err_AllocationQuotaReached \<longleftrightarrow>
       (\<exists>limit. max_concurrent_allocations t = Some limit \<and> limit \<le> hm_len (allocations t))) \<and>
    (case res of
       Inl err \<Rightarrow> allocations t' = allocations t \<and> used_ports (port_alloc t') = used_ports (port_alloc t)
     | Inr a \<Rightarrow> hm_get (allocations t) (relayed_addr a) = None \<and>
         hm_get (allocations t') = (hm_get (allocations t))(relayed_addr a \<mapsto> a) \<and>
         client_addr a = client \<and> created_at a = now e \<and> permissions a = {} \<and>
         lifetime a = from_secs (unat (lifetime_secs req t)))"
  using assms
proof (cases rule: create_allocation_cases [where e = e and client = client and req = req])
  case quota
  then show ?thesis using assms by auto
next
  case (fail err pa)
  note c = create_allocation_cases [OF assms, of e client req]
  have nq: "\<not> (\<exists>limit. max_concurrent_allocations t = Some limit \<and> limit \<le> hm_len (allocations t))"
  proof
    assume "\<exists>limit. max_concurrent_allocations t = Some limit \<and> limit \<le> hm_len (allocations t)"
    then have "create_allocation e client req t = Returns (Inl Err_AllocationQuotaReached, t)"
      using table_invD(5) [OF assms] by (auto simp: create_allocation_def)
    then show False using fail(1,4) by auto
  qed
  have "err \<noteq> Err_AllocationQuotaReached" using fail(4) by auto
  then show ?thesis using fail nq create_allocation_inv [OF assms fail(1)] by auto
next
  case (ok p pa a t')
  have "hm_get (allocations t) (SocketV4 (external_addr t) p) = None"
    using ok(2) table_invD(4) [OF assms] by auto
  moreover have "relayed_addr a = SocketV4 (external_addr t) p" "client_addr a = client"
      "created_at a = now e" "permissions a = {}" "lifetime a = from_secs (unat (lifetime_secs req t))"
      "allocations t' = hm_insert (SocketV4 (external_addr t) p) a (allocations t)"
    using ok(5)
    by (auto simp: install_allocation_def spawn_allocation_task_def allocation_with_relay_def Let_def)
  ultimately show ?thesis
    using ok(1,6) create_allocation_inv [OF assms ok(1)] by (force simp: hm.get_insert)
qed

definition sample_table :: alloc_table where
  "sample_table = with_port_range_and_bind_addr 0 (Ipv4 203 0 113 1) (Ipv4 0 0 0 0) ''realm'' 50000 50003 (Some 2) None"

lemma sample_table_inv: "table_inv 0 sample_table"
  unfolding sample_table_def by (rule table_inv_new) (simp_all add: word_le_nat_alt)

definition sample_env :: env where
  "sample_env = \<lparr>now = 5, unix_nanos = 7, unix_secs = 0, port_seed = 1, port_entropy = (\<lambda>_. (1, 1)),
     weak_cas = (\<lambda>_ _. False), bind_error = (\<lambda>_ _. None), send_fails = (\<lambda>_. False),
     nonce_bytes = replicate 16 0\<rparr>"

theorem create_allocation_correct_witness:
  "\<exists>res t'. create_allocation sample_env (SocketV4 (Ipv4 10 0 0 1) 1000) None sample_table = Returns (res, t') \<and>
     table_inv 0 t' \<and> res \<noteq> Inl Err_AllocationQuotaReached"
proof -
  have "\<not> (\<exists>limit. max_concurrent_allocations sample_table = Some limit \<and> limit \<le> hm_len (allocations sample_table))"
    by (simp add: sample_table_def with_port_range_and_bind_addr_def)
  then show ?thesis
    using create_allocation_correct [OF sample_table_inv, of sample_env "SocketV4 (Ipv4 10 0 0 1) 1000" None]
    by blast
qed

text \<open>The bind loop looks at no attempt beyond those it has left, and when all of them fail it ends with the last failure.\<close>

lemma bind_relay_prefix:
  assumes "\<And>j. i \<le> j \<Longrightarrow> j < i + n \<Longrightarrow>
    port_entropy e' j = port_entropy e j \<and> weak_cas e' j = weak_cas e j \<and> bind_error e' j = bind_error e j"
  shows "bind_relay e' n i sd lf t = bind_relay e n i sd lf t"
  using assms
proof (induction n arbitrary: i sd lf t)
  case (Suc n)
  have "bind_relay e' n (Suc i) = bind_relay e n (Suc i)"
    by (intro ext Suc.IH) (use Suc.prems in auto)
  moreover have "port_entropy e' i = port_entropy e i" "weak_cas e' i = weak_cas e i" "bind_error e' i = bind_error e i"
    using Suc.prems [of i] by auto
  ultimately show ?case unfolding bind_relay.simps by (simp only:)
qed simp

lemma bind_relay_all_fail:
  assumes "pa_wf (port_alloc t)" and "used_ports (port_alloc t) \<noteq> port_range (port_alloc t)"
    and "\<And>j addr. i \<le> j \<Longrightarrow> j < i + n \<Longrightarrow> bind_error e j addr \<noteq> None" and "0 < n \<or> lf \<noteq> None"
  shows "\<exists>addr err t'. bind_relay e n i sd lf t = Returns (Inl (Err_RelayBindFailed addr err), t') \<and>
    (0 < n \<longrightarrow> bind_error e (i + n - 1) addr = Some err) \<and> (n = 0 \<longrightarrow> lf = Some (addr, err))"
  using assms
proof (induction n arbitrary: i sd lf t)
  case 0
  then show ?case by auto
next
  case (Suc n)
  let ?o = "\<lparr>fresh1 = fst (port_entropy e i), fresh2 = snd (port_entropy e i), seed = sd,
    weak_failures = weak_cas e i\<rparr>"
  obtain r pa s where al: "port_allocate ?o (port_alloc t) = Returns (r, pa, s)"
    using ports.alloc_returns [OF Suc.prems(1)] by blast
  have "r \<noteq> None" using ports.alloc_None(1) [OF Suc.prems(1)] al Suc.prems(2) by metis
  then obtain p where p: "r = Some p" by blast
  note got = ports.alloc_Some [OF Suc.prems(1) al [unfolded p]]
  obtain err where err: "bind_error e i (SocketV4 (bind_addr t) p) = Some err"
    using Suc.prems(3) [of i "SocketV4 (bind_addr t) p"] by auto
  let ?t = "t\<lparr>port_alloc := snd (release p pa)\<rparr>"
  have rel: "used_ports (port_alloc ?t) = used_ports (port_alloc t)" "pa_wf (port_alloc ?t)"
      "port_range (port_alloc ?t) = port_range (port_alloc t)"
    using ports.free_facts [of pa p] got by auto
  have step: "bind_relay e (Suc n) i sd lf t = bind_relay e n (Suc i) s (Some (SocketV4 (bind_addr t) p, err)) ?t"
    using al p err by simp
  obtain addr err' t' where
    "bind_relay e n (Suc i) s (Some (SocketV4 (bind_addr t) p, err)) ?t = Returns (Inl (Err_RelayBindFailed addr err'), t')"
    "0 < n \<longrightarrow> bind_error e (Suc i + n - 1) addr = Some err'"
    "n = 0 \<longrightarrow> Some (SocketV4 (bind_addr t) p, err) = Some (addr, err')"
    using Suc.IH [of ?t "Suc i" "Some (SocketV4 (bind_addr t) p, err)" s] rel Suc.prems(2,3) by fastforce
  then show ?case unfolding step using err by (cases n) auto
qed

text \<open>C20. The bind loop of an Allocate ends after at most 100 attempts. What the sockets and the
  random numbers do from attempt 101 on has no influence on the outcome. And when quota and
  ports allow an allocation but the first 100 binds fail, the call returns the error of the
  last attempt, with the entries and the ports in use as they were.\<close>

theorem create_allocation_gives_up:
  assumes "table_inv 0 t" and "\<And>limit. max_concurrent_allocations t = Some limit \<Longrightarrow> hm_len (allocations t) < limit"
    and "used_ports (port_alloc t) \<noteq> port_range (port_alloc t)"
    and "\<And>j addr. j < 100 \<Longrightarrow> bind_error e j addr \<noteq> None"
  shows "(\<exists>addr err t'. create_allocation e client req t = Returns (Inl (Err_RelayBindFailed addr err), t') \<and>
      bind_error e 99 addr = Some err \<and> allocations t' = allocations t \<and>
      used_ports (port_alloc t') = used_ports (port_alloc t)) \<and>
    (\<forall>pe wc be. (\<forall>j < 100. pe j = port_entropy e j \<and> wc j = weak_cas e j \<and> be j = bind_error e j) \<longrightarrow>
      create_allocation (e\<lparr>port_entropy := pe, weak_cas := wc, bind_error := be\<rparr>) client req t =
      create_allocation e client req t)"
proof (intro conjI allI impI)
  have nq: "\<not> (case max_concurrent_allocations t of
      Some limit \<Rightarrow> unat (active_allocations (stats t)) \<ge> limit | None \<Rightarrow> False)"
    using assms(2) table_invD(5) [OF assms(1)] by (auto simp: not_le split: option.split)
  obtain addr err t' where b: "bind_relay e MAX_ATTEMPTS 0 (port_seed e) None t = Returns (Inl (Err_RelayBindFailed addr err), t')"
      "bind_error e 99 addr = Some err"
    using bind_relay_all_fail [OF table_invD(3) [OF assms(1)] assms(3), of 0 MAX_ATTEMPTS e None "port_seed e"] assms(4)
    by (auto simp: MAX_ATTEMPTS_def)
  then have c: "create_allocation e client req t = Returns (Inl (Err_RelayBindFailed addr err), t')"
    using nq by (simp add: create_allocation_def)
  moreover have "allocations t' = allocations t \<and> used_ports (port_alloc t') = used_ports (port_alloc t)"
    using assms(1) by (cases rule: create_allocation_cases [where e = e and client = client and req = req]) (use c in auto)
  ultimately show "\<exists>addr err t'. create_allocation e client req t = Returns (Inl (Err_RelayBindFailed addr err), t') \<and>
      bind_error e 99 addr = Some err \<and> allocations t' = allocations t \<and>
      used_ports (port_alloc t') = used_ports (port_alloc t)"
    using b(2) by blast
next
  fix pe wc be assume agree: "\<forall>j < 100. pe j = port_entropy e j \<and> wc j = weak_cas e j \<and> be j = bind_error e j"
  let ?e = "e\<lparr>port_entropy := pe, weak_cas := wc, bind_error := be\<rparr>"
  have b: "bind_relay ?e MAX_ATTEMPTS 0 sd lf t = bind_relay e MAX_ATTEMPTS 0 sd lf t" for sd lf t
    by (rule bind_relay_prefix) (use agree in \<open>simp add: MAX_ATTEMPTS_def\<close>)
  have i: "install_allocation ?e = install_allocation e"
    by (intro ext) (simp add: install_allocation_def)
  show "create_allocation ?e client req t = create_allocation e client req t"
    unfolding create_allocation_def b i by simp
qed

theorem create_allocation_gives_up_witness:
  "\<exists>addr t'. create_allocation (sample_env\<lparr>bind_error := \<lambda>j _. if j < 100 then Some ''in use'' else None\<rparr>)
      (SocketV4 (Ipv4 10 0 0 1) 1000) None sample_table = Returns (Inl (Err_RelayBindFailed addr ''in use''), t') \<and>
     allocations t' = []"
proof -
  have "used_ports (port_allocator_new 50000 50003) = {}"
    by (rule pa_wf_new) (simp_all add: word_le_nat_alt)
  moreover have "50000 \<in> port_range (port_allocator_new 50000 50003)"
    by (simp add: port_range_def port_allocator_new_def word_le_nat_alt)
  ultimately have "used_ports (port_alloc sample_table) \<noteq> port_range (port_alloc sample_table)"
    by (auto simp: sample_table_def with_port_range_and_bind_addr_def)
  then show ?thesis
    using create_allocation_gives_up [OF sample_table_inv, of "sample_env\<lparr>bind_error := \<lambda>j _. if j < 100 then Some ''in use'' else None\<rparr>"
        "SocketV4 (Ipv4 10 0 0 1) 1000" None]
    by (auto simp: sample_table_def with_port_range_and_bind_addr_def)
qed

text \<open>C13. Expiry removes exactly the expired allocations: an entry survives if and only if its
  age does not exceed its lifetime, the count returned is the number removed, the channels of
  the removed allocations are gone and no others, and the table invariant is kept.\<close>

theorem cleanup_expired_exact:
  assumes "table_inv 0 t" and "ct_wf c" and "cleanup_expired t0 t (Some c) = (n, t', ct')"
  shows "table_inv 0 t' \<and>
    (\<forall>k. hm_get (allocations t') k = (case hm_get (allocations t) k of
        None \<Rightarrow> None | Some a \<Rightarrow> if is_expired t0 a then None else Some a)) \<and>
    n = card {k. \<exists>a. hm_get (allocations t) k = Some a \<and> is_expired t0 a} \<and>
    (\<exists>c'. ct' = Some c' \<and> (\<forall>r ch. get_by_channel c' r ch =
       (if \<exists>a. hm_get (allocations t) r = Some a \<and> is_expired t0 a then None else get_by_channel c r ch)))"
proof -
  define ks where "ks = map fst (filter (\<lambda>(k, a). is_expired t0 a) (allocations t))"
  have ks: "k \<in> set ks \<longleftrightarrow> (\<exists>a. hm_get (allocations t) k = Some a \<and> is_expired t0 a)" "distinct ks" for k
    unfolding ks_def using expired_keys [OF table_invD(1) [OF assms(1)], where P = "is_expired t0"] by blast+
  obtain m t1 ct1 where run: "drop_expired ks 0 t (Some c) = (m, t1, ct1)"
    by (cases "drop_expired ks 0 t (Some c)")
  have eq: "n = m" "ct' = ct1" "allocations t' = allocations t1"
    using assms(3) run unfolding cleanup_expired_def Let_def ks_def [symmetric] by (auto split: if_splits)
  have "m = length ks" using count_drop_expired [OF run ks(2)] ks(1) by auto
  also have "\<dots> = card {k. \<exists>a. hm_get (allocations t) k = Some a \<and> is_expired t0 a}"
    unfolding distinct_card [OF ks(2), symmetric] by (rule arg_cong [where f = card]) (use ks(1) in blast)
  finally have n: "n = card {k. \<exists>a. hm_get (allocations t) k = Some a \<and> is_expired t0 a}"
    using eq by simp
  have get: "hm_get (allocations t') k = (case hm_get (allocations t) k of
      None \<Rightarrow> None | Some a \<Rightarrow> if is_expired t0 a then None else Some a)" for k
    using get_drop_expired [OF run, of k] eq(3) by (cases "hm_get (allocations t) k") (simp_all add: ks(1))
  obtain c' where c': "ct1 = Some c'" and g: "\<And>r ch. get_by_channel c' r ch =
      (if r \<in> set ks \<and> hm_get (allocations t) r \<noteq> None then None else get_by_channel c r ch)"
    using channels_drop_expired [OF run assms(2)] by blast
  have "get_by_channel c' r ch =
      (if \<exists>a. hm_get (allocations t) r = Some a \<and> is_expired t0 a then None else get_by_channel c r ch)" for r ch
    unfolding g ks(1) by auto
  moreover have "table_inv 0 t'"
    using cleanup_expired_inv [OF assms(1), of t0 "Some c"] assms(3) by simp
  ultimately show ?thesis using n get c' eq(2) by simp
qed

theorem cleanup_expired_exact_witness:
  "fst (cleanup_expired 9 sample_table (Some channel_table_new)) =
     card {k. \<exists>a. hm_get (allocations sample_table) k = Some a \<and> is_expired 9 a}"
proof -
  obtain n t' ct' where run: "cleanup_expired 9 sample_table (Some channel_table_new) = (n, t', ct')"
    by (cases "cleanup_expired 9 sample_table (Some channel_table_new)")
  from cleanup_expired_exact [OF sample_table_inv ct_wf_new run] show ?thesis
    by (simp only: run fst_conv)
qed

text \<open>A Refresh does not extend an allocation beyond its creation time plus the new
  lifetime: the refresh replaces the lifetime but not the instant it is counted from, so an
  allocation refreshed for \<open>secs\<close> seconds is expired as soon as that many seconds have
  passed since its creation, however recent the refresh.\<close>

theorem refresh_counts_from_creation:
  assumes "hm_get (allocations t) k = Some a" and "created_at a \<le> t1"
  shows "\<exists>a'. hm_get (allocations (snd (refresh_allocation k secs t))) k = Some a' \<and>
    (is_expired t1 a' \<longleftrightarrow> t1 > created_at a + from_secs (unat secs))"
  using assms by (auto simp: refresh_allocation_def hm.get_insert is_expired_def)

definition sample_allocation :: allocation where
  "sample_allocation = allocation_new 0 [] (SocketV4 (Ipv4 203 0 113 1) 50000) (SocketV4 (Ipv4 10 0 0 1) 1000)
     (from_secs 600) (SocketV4 (Ipv4 10 0 0 1) 1000) (SocketV4 (Ipv4 203 0 113 1) 50000)"

theorem refresh_counts_from_creation_witness:
  "\<exists>a'. hm_get (allocations (snd (refresh_allocation (SocketV4 (Ipv4 203 0 113 1) 50000) 600
       (sample_table\<lparr>allocations := [(SocketV4 (Ipv4 203 0 113 1) 50000, sample_allocation)]\<rparr>))))
     (SocketV4 (Ipv4 203 0 113 1) 50000) = Some a' \<and> is_expired (from_secs 601) a'"
  using refresh_counts_from_creation
    [of "sample_table\<lparr>allocations := [(SocketV4 (Ipv4 203 0 113 1) 50000, sample_allocation)]\<rparr>"
      "SocketV4 (Ipv4 203 0 113 1) 50000" sample_allocation "from_secs 601" 600]
  by (auto simp: hm_get_def sample_allocation_def allocation_new_def from_secs_def)

text \<open>Client data leaves only towards permitted peers: every datagram that
  \<open>send_to_peer\<close> emits carries the given data from the relay socket of an allocation of
  this client to a peer whose IP address is in that allocation's permissions, and at most one
  is emitted.\<close>

lemma send_to_peer_permitted:
  assumes "hm_wf (allocations t)" and "eff \<in> set (snd (snd (send_to_peer e client peer data t)))"
  shows "\<exists>k a r. hm_get (allocations t) k = Some a \<and> client_addr a = client \<and> relay a = Some r \<and>
    sock_ip peer \<in> permissions a \<and> eff = ToPeer (relay_socket r) peer data \<and>
    snd (snd (send_to_peer e client peer data t)) = [eff]"
proof -
  obtain k a r where f: "find (\<lambda>(k, a). client_addr a = client) (allocations t) = Some (k, a)"
      "relay a = Some r" "sock_ip peer \<in> permissions a"
      "snd (snd (send_to_peer e client peer data t)) = [ToPeer (relay_socket r) peer data]"
    using assms(2) by (auto simp: send_to_peer_def split: option.splits if_splits)
  then show ?thesis using find_entry [OF assms(1) f(1)] assms(2) by auto
qed

definition relayed_allocation :: allocation where
  "relayed_allocation = sample_allocation\<lparr>permissions := {IpV4 (Ipv4 8 8 8 8)},
     relay := Some \<lparr>relay_socket = SocketV4 (Ipv4 0 0 0 0) 50000, task_handle = 0\<rparr>\<rparr>"





end
