(* ===== verification/Auth_Manager.thy ===== *)
theory Auth_Manager
  imports Hash_Map Net_Addr
begin

text \<open>
  Users, API keys and access control of \<open>src/auth.rs\<close>. The clock is the number of seconds
  since the Unix epoch. Addresses reach the access-control list as printed text, and ranges
  are kept as the text the administrator wrote, so matching is string processing: the
  development relates it to the subnet relation on 32-bit addresses.
\<close>

section \<open>Data\<close>

datatype user_type = Temporary | Fixed | ApiKey

datatype acl_action = Allow | Deny

record user =
  username :: string
  password :: string
  utype :: user_type
  user_created_at :: u64
  expires_at :: "u64 option"
  max_allocations :: nat
  bandwidth_limit :: "u64 option"
  ip_whitelist :: "string list option"
  user_max_duration_secs :: "u32 option"

record acl_rule =
  ip_range :: string
  acl_action :: acl_action
  priority :: u32

record auth_manager =
  users :: "(string, user) hashmap"
  api_keys :: "(string, string) hashmap"
  acl_rules :: "acl_rule list"
  auth_realm :: string

definition auth_manager_new :: "string \<Rightarrow> auth_manager" where
  "auth_manager_new rlm = \<lparr>users = [], api_keys = [], acl_rules = [], auth_realm = rlm\<rparr>"

section \<open>Users\<close>

definition add_user :: "user \<Rightarrow> auth_manager \<Rightarrow> auth_manager" where
  "add_user u m = m\<lparr>users := hm_insert (username u) u (users m)\<rparr>"

definition remove_user :: "string \<Rightarrow> auth_manager \<Rightarrow> auth_manager" where
  "remove_user name m = m\<lparr>users := hm_remove name (users m)\<rparr>"

definition list_users :: "auth_manager \<Rightarrow> user list" where
  "list_users m = hm_values (users m)"

definition load_from_config ::
  "user list \<Rightarrow> (string, string) hashmap \<Rightarrow> acl_rule list \<Rightarrow> auth_manager \<Rightarrow> auth_manager" where
  "load_from_config us keys rules m =
     m\<lparr>users := fold (\<lambda>u. hm_insert (username u) u) us (users m), api_keys := keys, acl_rules := rules\<rparr>"

definition user_expired :: "nat \<Rightarrow> user \<Rightarrow> bool" where
  "user_expired t u = (case expires_at u of Some expires \<Rightarrow> t > unat expires | None \<Rightarrow> False)"

definition authenticate :: "nat \<Rightarrow> string \<Rightarrow> string \<Rightarrow> auth_manager \<Rightarrow> user option" where
  "authenticate t name pw m =
     (case hm_get (users m) name of
        Some u \<Rightarrow> if password u = pw then (if user_expired t u then None else Some u) else None
      | None \<Rightarrow> None)"

definition authenticate_api_key :: "string \<Rightarrow> auth_manager \<Rightarrow> string option" where
  "authenticate_api_key key m = hm_get (api_keys m) key"

definition get_user_password :: "nat \<Rightarrow> string \<Rightarrow> auth_manager \<Rightarrow> string option" where
  "get_user_password t name m =
     (case hm_get (users m) name of
        None \<Rightarrow> None
      | Some u \<Rightarrow> if user_expired t u then None else Some (password u))"

section \<open>Access control\<close>

text \<open>\<open>p.parse().unwrap_or(0)\<close> at \<open>u8\<close>\<close>

definition octet_of :: "string \<Rightarrow> u8" where
  "octet_of p = (case parse_uint 8 p of Some n \<Rightarrow> word_of_nat n | None \<Rightarrow> 0)"

definition octets_u32 :: "u8 list \<Rightarrow> u32" where
  "octets_u32 os =
     push_bit 24 (ucast (os ! 0)) OR push_bit 16 (ucast (os ! 1)) OR push_bit 8 (ucast (os ! 2)) OR ucast (os ! 3)"

definition ip_matches_subnet :: "string \<Rightarrow> string \<Rightarrow> nat \<Rightarrow> bool" where
  "ip_matches_subnet ip base bits =
     (if bits = 0 then True
      else let ip_parts = map octet_of (split_on CHR ''.'' ip);
               base_parts = map octet_of (split_on CHR ''.'' base)
        in if length ip_parts \<noteq> 4 \<or> length base_parts \<noteq> 4 then False
           else let ip_int = octets_u32 ip_parts;
                    base_int = octets_u32 base_parts;
                    mask_int = (if bits \<ge> 32 then 0xFFFFFFFF else NOT (push_bit (32 - bits) 1 - 1))
             in (ip_int AND mask_int) = (base_int AND mask_int))"

definition ip_in_range :: "string \<Rightarrow> string \<Rightarrow> bool" where
  "ip_in_range ip rng =
     (if CHR ''/'' \<in> set rng then
        (let parts = split_on CHR ''/'' rng in
         if length parts \<noteq> 2 then False
         else let bits = (case parse_uint 32 (parts ! 1) of Some n \<Rightarrow> n | None \<Rightarrow> 32)
           in ip_matches_subnet ip (parts ! 0) bits)
      else ip = rng)"

definition check_acl :: "string \<Rightarrow> auth_manager \<Rightarrow> bool" where
  "check_acl ip m =
     (case find (\<lambda>r. ip_in_range ip (ip_range r)) (acl_rules m) of
        Some r \<Rightarrow> acl_action r = Allow
      | None \<Rightarrow> True)"

text \<open>\<open>sort_by\<close> is stable; descending priority is ascending negated priority.\<close>

definition add_acl_rule :: "acl_rule \<Rightarrow> auth_manager \<Rightarrow> auth_manager" where
  "add_acl_rule r m = m\<lparr>acl_rules := sort_key (\<lambda>r. - int (unat (priority r))) (acl_rules m @ [r])\<rparr>"

definition list_acl_rules :: "auth_manager \<Rightarrow> acl_rule list" where
  "list_acl_rules m = acl_rules m"

definition remove_acl_rule :: "string \<Rightarrow> u32 \<Rightarrow> auth_manager \<Rightarrow> auth_manager" where
  "remove_acl_rule rng prio m =
     m\<lparr>acl_rules := filter (\<lambda>r. \<not> (ip_range r = rng \<and> priority r = prio)) (acl_rules m)\<rparr>"

section \<open>Lemmas\<close>

definition users_wf :: "(string, user) hashmap \<Rightarrow> bool" where
  "users_wf us \<longleftrightarrow> hm_wf us \<and> (\<forall>name u. hm_get us name = Some u \<longrightarrow> username u = name)"

definition acl_sorted :: "auth_manager \<Rightarrow> bool" where
  "acl_sorted m \<longleftrightarrow> sorted_wrt (\<lambda>r s. priority s \<le> priority r) (acl_rules m)"

lemma users_wf_insert: "users_wf us \<Longrightarrow> users_wf (hm_insert (username u) u us)"
  by (simp add: users_wf_def hm.wf_insert hm.get_insert)

lemma users_wf_remove: "users_wf us \<Longrightarrow> users_wf (hm_remove name us)"
  by (simp add: users_wf_def hm.wf_remove hm.get_remove)

lemma users_wf_ops:
  "users_wf (users (auth_manager_new rlm))"
  "users_wf (users m) \<Longrightarrow> users_wf (users (add_user u m))"
  "users_wf (users m) \<Longrightarrow> users_wf (users (remove_user name m))"
  by (simp_all add: auth_manager_new_def add_user_def remove_user_def users_wf_insert users_wf_remove)
     (simp add: users_wf_def)

lemma users_wf_load: "users_wf (users m) \<Longrightarrow> users_wf (users (load_from_config us keys rules m))"
proof -
  have "users_wf us0 \<Longrightarrow> users_wf (fold (\<lambda>u. hm_insert (username u) u) us us0)" for us0
    by (induction us arbitrary: us0) (simp_all add: users_wf_insert)
  then show "users_wf (users m) \<Longrightarrow> ?thesis" by (simp add: load_from_config_def)
qed

lemma acl_sorted_add: "acl_sorted (add_acl_rule r m)"
proof -
  have "sorted (map (\<lambda>r. - int (unat (priority r))) (sort_key (\<lambda>r. - int (unat (priority r))) (acl_rules m @ [r])))"
    by simp
  then show ?thesis
    unfolding acl_sorted_def add_acl_rule_def sorted_map
    by (simp add: word_le_def)
qed

lemma acl_sorted_remove: "acl_sorted m \<Longrightarrow> acl_sorted (remove_acl_rule rng prio m)"
  by (simp add: acl_sorted_def remove_acl_rule_def sorted_wrt_filter)

lemma first_match_highest:
  assumes "sorted_wrt (\<lambda>r s. priority s \<le> priority r) rs" and "find P rs = Some r"
    and "s \<in> set rs" and "P s"
  shows "priority s \<le> priority r"
  using assms by (induction rs) (auto split: if_splits)

lemma octet_of_show: "octet_of (show_nat (unat (b :: u8))) = b"
proof -
  have "unat b < 2 ^ 8" using unsigned_less [of b, where ?'a = nat] by simp
  then show ?thesis by (simp add: octet_of_def parse_uint_show_nat)
qed

fun ipv4_u32 :: "ipv4_addr \<Rightarrow> u32" where
  "ipv4_u32 (Ipv4 a b c d) = be32 a b c d"

lemma octets_of_ipv4:
  "map octet_of (split_on CHR ''.'' (ipv4_to_string (Ipv4 a b c d))) = [a, b, c, d]"
  by (simp only: split_ipv4_to_string list.map octet_of_show)

lemma and_top_mask:
  assumes "m \<le> 32"
  shows "x AND NOT (push_bit (32 - m) 1 - 1) = y AND NOT (push_bit (32 - m) 1 - 1) \<longleftrightarrow>
    drop_bit (32 - m) x = drop_bit (32 - m) (y :: u32)"
proof -
  have "(push_bit (32 - m) 1 - 1 :: u32) = mask (32 - m)"
    by (simp add: mask_eq_exp_minus_1)
  moreover have "z AND NOT (mask n) = push_bit n (drop_bit n z)" for n and z :: u32
    by (rule bit_word_eqI) (auto simp: bit_simps)
  moreover have "drop_bit n (push_bit n (drop_bit n z)) = drop_bit n z" for n and z :: u32
    by (rule bit_word_eqI) (auto simp: bit_simps dest: bit_imp_le_length)
  ultimately show ?thesis by metis
qed

lemma ip_matches_subnet_ipv4:
  assumes "m \<le> 32"
  shows "ip_matches_subnet (ipv4_to_string ip) (ipv4_to_string base) m \<longleftrightarrow>
    drop_bit (32 - m) (ipv4_u32 ip) = drop_bit (32 - m) (ipv4_u32 base)"
proof -
  obtain a b c d where ip: "ip = Ipv4 a b c d" by (cases ip)
  obtain a' b' c' d' where base: "base = Ipv4 a' b' c' d'" by (cases base)
  have o: "octets_u32 (map octet_of (split_on CHR ''.'' (ipv4_to_string ip))) = ipv4_u32 ip"
      "octets_u32 (map octet_of (split_on CHR ''.'' (ipv4_to_string base))) = ipv4_u32 base"
    unfolding ip base octets_of_ipv4 by (simp_all add: octets_u32_def be32_def)
  have l: "length (map octet_of (split_on CHR ''.'' (ipv4_to_string ip))) = 4"
      "length (map octet_of (split_on CHR ''.'' (ipv4_to_string base))) = 4"
    unfolding ip base octets_of_ipv4 by simp_all
  consider "m = 0" | "m = 32" | "0 < m" "m < 32" using assms by linarith
  then show ?thesis
  proof cases
    case 1
    have "drop_bit 32 x = 0" for x :: u32
      by (rule bit_word_eqI) (simp add: bit_simps)
    then show ?thesis using 1 by (simp add: ip_matches_subnet_def)
  next
    case 2
    have "(0xFFFFFFFF :: u32) = - 1" by simp
    then have "x AND 0xFFFFFFFF = x" for x :: u32
      by (simp only: and.right_neutral)
    then show ?thesis using 2 o l by (simp add: ip_matches_subnet_def Let_def)
  next
    case 3
    then show ?thesis
      using and_top_mask [OF assms, of "ipv4_u32 ip" "ipv4_u32 base"]
      by (simp only: ip_matches_subnet_def Let_def o l) simp
  qed
qed

section \<open>Properties of access control\<close>

text \<open>C33. CIDR matching on text is the subnet relation on addresses: the printed address
  \<open>ip\<close> matches the printed range \<open>base/m\<close> exactly when the two 32-bit addresses agree on
  their top \<open>m\<close> bits; a range without a slash matches only the address itself.\<close>

theorem cidr_match_correct:
  assumes "m \<le> 32"
  shows "(ip_in_range (ipv4_to_string ip) (ipv4_to_string base @ CHR ''/'' # show_nat m) \<longleftrightarrow>
      drop_bit (32 - m) (ipv4_u32 ip) = drop_bit (32 - m) (ipv4_u32 base)) \<and>
    (ip_in_range (ipv4_to_string ip) (ipv4_to_string base) \<longleftrightarrow> ip = base)"
proof -
  have "m < 2 ^ 32" using assms by simp
  then have "ip_in_range (ipv4_to_string ip) (ipv4_to_string base @ CHR ''/'' # show_nat m) \<longleftrightarrow>
      ip_matches_subnet (ipv4_to_string ip) (ipv4_to_string base) m"
    by (simp add: ip_in_range_def split_on_append split_on_no_sep parse_uint_show_nat)
  moreover have "ip_in_range (ipv4_to_string ip) (ipv4_to_string base) \<longleftrightarrow> ip = base"
    using ipv4_to_string_inj by (auto simp: ip_in_range_def)
  ultimately show ?thesis using ip_matches_subnet_ipv4 [OF assms] by simp
qed

theorem cidr_match_correct_witness:
  "ip_in_range (ipv4_to_string (Ipv4 192 168 1 77)) (ipv4_to_string (Ipv4 192 168 0 0) @ CHR ''/'' # show_nat 16) \<and>
   \<not> ip_in_range (ipv4_to_string (Ipv4 192 169 1 77)) (ipv4_to_string (Ipv4 192 168 0 0) @ CHR ''/'' # show_nat 16)"
  using cidr_match_correct [of 16 "Ipv4 192 168 1 77" "Ipv4 192 168 0 0"]
    cidr_match_correct [of 16 "Ipv4 192 169 1 77" "Ipv4 192 168 0 0"]
  by (simp add: be32_def)

text \<open>C34. While rules are added and removed one by one, the decision is that of the matching
  rule of highest priority: adding a rule leaves the list sorted by descending priority, and
  on a sorted list an address is refused exactly when a rule matches and the first match, which
  no other match outranks, denies it.\<close>

theorem acl_highest_priority_decides:
  "acl_sorted (add_acl_rule r m) \<and> mset (acl_rules (add_acl_rule r m)) = add_mset r (mset (acl_rules m)) \<and>
   (acl_sorted m \<longrightarrow> acl_sorted (remove_acl_rule rng prio m) \<and>
     (if \<exists>s\<in>set (acl_rules m). ip_in_range ip (ip_range s)
      then \<exists>s\<in>set (acl_rules m). ip_in_range ip (ip_range s) \<and> (check_acl ip m \<longleftrightarrow> acl_action s = Allow) \<and>
        (\<forall>s'\<in>set (acl_rules m). ip_in_range ip (ip_range s') \<longrightarrow> priority s' \<le> priority s)
      else check_acl ip m))"
proof -
  let ?P = "\<lambda>r. ip_in_range ip (ip_range r)"
  have "mset (acl_rules (add_acl_rule r m)) = add_mset r (mset (acl_rules m))"
    by (simp add: add_acl_rule_def)
  moreover have "if \<exists>s\<in>set (acl_rules m). ?P s
      then \<exists>s\<in>set (acl_rules m). ?P s \<and> (check_acl ip m \<longleftrightarrow> acl_action s = Allow) \<and>
        (\<forall>s'\<in>set (acl_rules m). ?P s' \<longrightarrow> priority s' \<le> priority s)
      else check_acl ip m" if sorted: "acl_sorted m"
  proof (cases "find ?P (acl_rules m)")
    case None
    then have "\<not> (\<exists>s\<in>set (acl_rules m). ?P s)" by (auto simp: find_None_iff)
    then show ?thesis using None by (simp add: check_acl_def)
  next
    case (Some s)
    then have "s \<in> set (acl_rules m)" "?P s" using find_SomeD [OF Some] by auto
    moreover have "\<forall>s'\<in>set (acl_rules m). ?P s' \<longrightarrow> priority s' \<le> priority s"
      using first_match_highest [OF sorted [unfolded acl_sorted_def] Some] by blast
    ultimately show ?thesis using Some by (auto simp: check_acl_def)
  qed
  ultimately show ?thesis using acl_sorted_add acl_sorted_remove by blast
qed

definition low_allow :: acl_rule where
  "low_allow = \<lparr>ip_range = ''0.0.0.0/0'', acl_action = Allow, priority = 1\<rparr>"

definition high_deny :: acl_rule where
  "high_deny = \<lparr>ip_range = ''10.0.0.1'', acl_action = Deny, priority = 100\<rparr>"

theorem acl_highest_priority_decides_witness:
  "acl_sorted (add_acl_rule high_deny (auth_manager_new ''r'')) \<and>
   acl_sorted (remove_acl_rule ''10.0.0.1'' 100 (auth_manager_new ''r''))"
  using acl_highest_priority_decides [of high_deny "auth_manager_new ''r''" "''10.0.0.1''" 100 "[]"]
  by (simp add: acl_sorted_def auth_manager_new_def)

text \<open>Rules loaded from the configuration are not sorted: the order of the file decides,
  whatever the priorities. A low-priority rule that allows everybody, written before a
  high-priority rule that denies one address, lets that address in after a load, while adding
  the same two rules one by one refuses it.\<close>

theorem load_from_config_ignores_priority:
  "check_acl ''10.0.0.1'' (load_from_config [] [] [low_allow, high_deny] (auth_manager_new ''r'')) \<and>
   \<not> check_acl ''10.0.0.1'' (add_acl_rule high_deny (add_acl_rule low_allow (auth_manager_new ''r'')))"
  by (simp add: check_acl_def load_from_config_def auth_manager_new_def low_allow_def high_deny_def
      add_acl_rule_def ip_in_range_def ip_matches_subnet_def parse_uint_def is_digit_def digits_val_def
      digit_val_def of_char_def)

text \<open>
  The user database as the relay and the console share it: one side stores and deletes entries, the
  other asks for the secret of a name at a time, and answers with a fallback where there is none.
\<close>

locale credential_store =
  fixes put :: "'u \<Rightarrow> 's \<Rightarrow> 's" and del :: "'k \<Rightarrow> 's \<Rightarrow> 's" and lookup :: "'t \<Rightarrow> 'k \<Rightarrow> 's \<Rightarrow> 'p option"
    and name_of :: "'u \<Rightarrow> 'k" and secret_of :: "'u \<Rightarrow> 'p" and valid :: "'t \<Rightarrow> 'u \<Rightarrow> bool"
  assumes lookup_put: "lookup t k (put u s) =
      (if k = name_of u then (if valid t u then Some (secret_of u) else None) else lookup t k s)"
    and lookup_del: "lookup t k (del k' s) = (if k = k' then None else lookup t k s)"
begin

lemma answer_put:
  "valid t u \<Longrightarrow> case_option d id (lookup t (name_of u) (put u s)) = secret_of u"
  "k \<noteq> name_of u \<Longrightarrow> case_option d id (lookup t k (put u s)) = case_option d id (lookup t k s)"
  by (simp_all add: lookup_put)

lemma answer_del:
  "case_option d id (lookup t k (del k s)) = d"
  "k \<noteq> k' \<Longrightarrow> case_option d id (lookup t k (del k' s)) = case_option d id (lookup t k s)"
  by (simp_all add: lookup_del)

lemma answer_replace:
  "case_option d id (lookup t k (put u (del (name_of u) s))) = case_option d id (lookup t k (put u s))"
  by (simp add: lookup_put lookup_del)

end

interpretation creds: credential_store add_user remove_user get_user_password username password "\<lambda>t u. \<not> user_expired t u"
  by unfold_locales (simp_all add: get_user_password_def add_user_def remove_user_def hm.get_insert hm.get_remove)

text \<open>Password lookup honours expiry: a password is returned exactly for a stored user whose
  expiry, if any, is not in the past, and then it is that user's password; authentication
  accepts exactly that password.\<close>

theorem get_user_password_correct:
  "(get_user_password t name m = Some pw \<longleftrightarrow>
     (\<exists>u. hm_get (users m) name = Some u \<and> password u = pw \<and>
       (case expires_at u of None \<Rightarrow> True | Some x \<Rightarrow> t \<le> unat x))) \<and>
   (authenticate t name pw m \<noteq> None \<longleftrightarrow> get_user_password t name m = Some pw)"
  by (auto simp: get_user_password_def authenticate_def user_expired_def split: option.splits if_splits)

end
