(* ===== verification/Short_Term.thy ===== *)
theory Short_Term
  imports Rust_Text
begin

text \<open>
  The short-term credentials of \<open>src/short_term.rs\<close>: a user name that carries its expiry
  time and a password that is a keyed hash of it. HMAC-SHA1, MD5 and the hexadecimal printer
  come from third-party crates; they are the functions of the record \<open>crypto\<close>, which the
  definitions take as a parameter. The clock is in seconds since the Unix epoch.
\<close>

record crypto =
  hmac_sha1 :: "bytes \<Rightarrow> bytes \<Rightarrow> bytes"  \<comment> \<open>key, message\<close>
  md5 :: "bytes \<Rightarrow> bytes"
  hex_encode :: "bytes \<Rightarrow> string"

record short_term_manager =
  secret_key :: bytes
  default_lifetime_secs :: u64

definition short_term_new :: "string \<Rightarrow> short_term_manager" where
  "short_term_new secret = \<lparr>secret_key = as_bytes secret, default_lifetime_secs = 3600\<rparr>"

definition with_lifetime :: "u64 \<Rightarrow> short_term_manager \<Rightarrow> short_term_manager" where
  "with_lifetime secs m = m\<lparr>default_lifetime_secs := secs\<rparr>"

definition compute_password :: "crypto \<Rightarrow> short_term_manager \<Rightarrow> string \<Rightarrow> string" where
  "compute_password c m name = hex_encode c (hmac_sha1 c (secret_key m) (as_bytes name))"

definition generate ::
  "crypto \<Rightarrow> short_term_manager \<Rightarrow> u64 \<Rightarrow> string \<Rightarrow> u64 option \<Rightarrow> string \<times> string \<times> u64" where
  "generate c m now_secs user_id life =
     (let secs = (case life of Some s \<Rightarrow> s | None \<Rightarrow> default_lifetime_secs m);
          timestamp = now_secs + secs;
          name = show_nat (unat timestamp) @ CHR '':'' # user_id
      in (name, compute_password c m name, timestamp))"

definition parse_username :: "string \<Rightarrow> (nat \<times> string) option" where
  "parse_username name =
     (let parts = split_on CHR '':'' name in
      if length parts \<noteq> 2 then None
      else case parse_uint 64 (parts ! 0) of None \<Rightarrow> None | Some ts \<Rightarrow> Some (ts, parts ! 1))"

definition verify :: "crypto \<Rightarrow> short_term_manager \<Rightarrow> u64 \<Rightarrow> string \<Rightarrow> string \<Rightarrow> bool" where
  "verify c m now_secs name pw =
     (let parts = split_on CHR '':'' name in
      if length parts \<noteq> 2 then False
      else case parse_uint 64 (parts ! 0) of
        None \<Rightarrow> False
      | Some timestamp \<Rightarrow>
          if timestamp < unat now_secs then False
          else compute_password c m name = pw)"

definition credential_is_expired :: "u64 \<Rightarrow> string \<Rightarrow> bool" where
  "credential_is_expired now_secs name =
     (case parse_username name of Some (timestamp, _) \<Rightarrow> timestamp < unat now_secs | None \<Rightarrow> True)"

lemma parse_generated:
  assumes "generate c m t0 uid life = (name, pw, ts)"
  shows "parse_username name = (if CHR '':'' \<in> set uid then None else Some (unat ts, uid))"
    and "split_on CHR '':'' name = show_nat (unat ts) # split_on CHR '':'' uid"
    and "pw = compute_password c m name"
proof -
  have name: "name = show_nat (unat ts) @ CHR '':'' # uid" and pw: "pw = compute_password c m name"
    using assms by (auto simp: generate_def Let_def)
  show split: "split_on CHR '':'' name = show_nat (unat ts) # split_on CHR '':'' uid"
    by (simp add: name split_on_append)
  have "unat ts < 2 ^ 64" using unsigned_less [of ts, where ?'a = nat] by simp
  moreover have "length (split_on CHR '':'' uid) = 1 \<longleftrightarrow> CHR '':'' \<notin> set uid"
    by (simp add: length_split_on count_list_0_iff)
  ultimately show "parse_username name = (if CHR '':'' \<in> set uid then None else Some (unat ts, uid))"
    by (auto simp: parse_username_def split parse_uint_show_nat split_on_no_sep)
  show "pw = compute_password c m name" by (rule pw)
qed

lemma verify_iff_parse:
  "verify c m t name pw \<longleftrightarrow>
     (\<exists>ts uid. parse_username name = Some (ts, uid) \<and> unat t \<le> ts) \<and> pw = compute_password c m name"
  by (auto simp: verify_def parse_username_def Let_def split: option.splits)

section \<open>Properties of short-term credentials\<close>

text \<open>C35. Generated credentials verify until they expire and not afterwards: for a user id
  without a colon, whatever the hash functions, \<open>verify\<close> accepts the generated pair at time
  \<open>t\<close> exactly when \<open>t\<close> is not past the returned expiry, and the user name parses back to the
  expiry and the user id.\<close>

theorem short_term_roundtrip:
  assumes "generate c m t0 uid life = (name, pw, ts)" and "CHR '':'' \<notin> set uid"
  shows "(verify c m t name pw \<longleftrightarrow> t \<le> ts) \<and> parse_username name = Some (unat ts, uid) \<and>
    (credential_is_expired t name \<longleftrightarrow> \<not> verify c m t name pw)"
  using parse_generated [OF assms(1)] assms(2)
  by (auto simp: verify_iff_parse credential_is_expired_def word_le_nat_alt)

theorem short_term_roundtrip_witness:
  "let c = \<lparr>hmac_sha1 = (\<lambda>k m. k @ m), md5 = id, hex_encode = of_bytes\<rparr>; m = short_term_new ''key'' in
   case generate c m 1000 ''alice'' (Some 60) of (name, pw, ts) \<Rightarrow>
     verify c m 1060 name pw \<and> \<not> verify c m 1061 name pw"
proof -
  let ?c = "\<lparr>hmac_sha1 = (\<lambda>k m. k @ m), md5 = id, hex_encode = of_bytes\<rparr>" and ?m = "short_term_new ''key''"
  obtain name pw ts where g: "generate ?c ?m 1000 ''alice'' (Some 60) = (name, pw, ts)"
    by (cases "generate ?c ?m 1000 ''alice'' (Some 60)")
  then have "ts = 1060" by (simp add: generate_def Let_def)
  then show ?thesis
    using short_term_roundtrip [OF g, of 1060] short_term_roundtrip [OF g, of 1061] g
    by (simp add: word_le_nat_alt)
qed

text \<open>Credentials generated for a user id that contains a colon never verify: the name
  splits into more than two parts, so they are refused from the moment they are issued.\<close>

theorem short_term_colon_refused:
  assumes "generate c m t0 uid life = (name, pw, ts)" and "CHR '':'' \<in> set uid"
  shows "\<not> verify c m t name pw' \<and> credential_is_expired t name"
  using parse_generated [OF assms(1)] assms(2) by (simp add: verify_iff_parse credential_is_expired_def)

theorem short_term_colon_refused_witness:
  "let c = \<lparr>hmac_sha1 = (\<lambda>k m. k @ m), md5 = id, hex_encode = of_bytes\<rparr>; m = short_term_new ''key'' in
   case generate c m 1000 ''a:b'' None of (name, pw, ts) \<Rightarrow> \<not> verify c m 1000 name pw"
proof -
  let ?c = "\<lparr>hmac_sha1 = (\<lambda>k m. k @ m), md5 = id, hex_encode = of_bytes\<rparr>" and ?m = "short_term_new ''key''"
  obtain name pw ts where g: "generate ?c ?m 1000 ''a:b'' None = (name, pw, ts)"
    by (cases "generate ?c ?m 1000 ''a:b'' None")
  then show ?thesis using short_term_colon_refused [OF g, of 1000 pw] by simp
qed

end
