(* ===== verification/Turn_Server.thy ===== *)
theory Turn_Server
  imports Allocation_Table Stream_Framing Auth_Manager Short_Term
begin

text \<open>
  The protocol engine of \<open>src/server.rs\<close>: authentication with nonces and
  MESSAGE-INTEGRITY, the handler of each TURN method, ChannelData, the entry points of the
  datagram and stream transports, and the periodic cleanups. A handler call is one transition
  of the server record; its outcome is the new server, the packets it sends to peers and
  clients, and the response bytes, or a panic. The record \<open>crypto\<close> stands for the hash
  crates, \<open>env\<close> for what the runtime decides during the call.
\<close>

section \<open>State\<close>

record nonce_entry =
  entry_nonce :: string
  nonce_created_at :: nat

record turn_server =
  alloc :: alloc_table
  chans :: channel_table
  relay_addr :: ipv4_addr
  relay_bind_addr :: ipv4_addr
  srv_realm :: string
  nonce_map :: "(string, nonce_entry) hashmap"
  srv_password :: string
  auth_disabled :: bool
  auth :: "auth_manager option"
  stats_dump_interval_secs :: u64
  stats_dump_skip_if_no_change :: bool
  server_name :: string
  stun_enabled :: bool
  turn_enabled :: bool

type_synonym outcome = "(turn_server \<times> effect list \<times> bytes option) rust"

text \<open>
  The constructors. \<open>t0\<close> is the clock, \<open>name\<close> the package name and version that the build
  puts in. The struct literal they share is \<open>turn_server_with\<close>.
\<close>

definition turn_server_with :: "alloc_table \<Rightarrow> ipv4_addr \<Rightarrow> ipv4_addr \<Rightarrow> string \<Rightarrow> string \<Rightarrow> bool \<Rightarrow> string \<Rightarrow> turn_server" where
  "turn_server_with t relay_ip bind_ip rlm pw disabled name =
     \<lparr>alloc = t, chans = channel_table_new, relay_addr = relay_ip, relay_bind_addr = bind_ip, srv_realm = rlm,
      nonce_map = [], srv_password = pw, auth_disabled = disabled, auth = None,
      stats_dump_interval_secs = 30, stats_dump_skip_if_no_change = True, server_name = name,
      stun_enabled = True, turn_enabled = True\<rparr>"

definition with_port_range_limits_bind_address_and_password ::
  "nat \<Rightarrow> string \<Rightarrow> ipv4_addr \<Rightarrow> ipv4_addr \<Rightarrow> string \<Rightarrow> u16 \<Rightarrow> u16 \<Rightarrow> nat option \<Rightarrow> u32 option \<Rightarrow> string \<Rightarrow> bool \<Rightarrow> turn_server" where
  "with_port_range_limits_bind_address_and_password t0 name relay_ip bind_ip rlm lo hi max_conc max_dur pw disabled =
     turn_server_with (with_port_range_and_bind_addr t0 relay_ip bind_ip rlm lo hi max_conc max_dur)
       relay_ip bind_ip rlm pw disabled name"

definition with_port_range_limits_and_password ::
  "nat \<Rightarrow> string \<Rightarrow> ipv4_addr \<Rightarrow> string \<Rightarrow> u16 \<Rightarrow> u16 \<Rightarrow> nat option \<Rightarrow> u32 option \<Rightarrow> string \<Rightarrow> bool \<Rightarrow> turn_server" where
  "with_port_range_limits_and_password t0 name relay_ip rlm lo hi max_conc max_dur pw disabled =
     with_port_range_limits_bind_address_and_password t0 name relay_ip relay_ip rlm lo hi max_conc max_dur pw disabled"

definition with_port_range_and_bind_address_and_password ::
  "nat \<Rightarrow> string \<Rightarrow> ipv4_addr \<Rightarrow> ipv4_addr \<Rightarrow> string \<Rightarrow> u16 \<Rightarrow> u16 \<Rightarrow> string \<Rightarrow> turn_server" where
  "with_port_range_and_bind_address_and_password t0 name relay_ip bind_ip rlm lo hi pw =
     turn_server_with (with_port_range_and_bind_addr t0 relay_ip bind_ip rlm lo hi None None)
       relay_ip bind_ip rlm pw False name"

definition with_port_range_and_password ::
  "nat \<Rightarrow> string \<Rightarrow> ipv4_addr \<Rightarrow> string \<Rightarrow> u16 \<Rightarrow> u16 \<Rightarrow> string \<Rightarrow> turn_server" where
  "with_port_range_and_password t0 name relay_ip rlm lo hi pw =
     with_port_range_and_bind_address_and_password t0 name relay_ip relay_ip rlm lo hi pw"

definition with_port_range_auth_disabled ::
  "nat \<Rightarrow> string \<Rightarrow> ipv4_addr \<Rightarrow> string \<Rightarrow> u16 \<Rightarrow> u16 \<Rightarrow> turn_server" where
  "with_port_range_auth_disabled t0 name relay_ip rlm lo hi =
     turn_server_with (with_port_range_and_bind_addr t0 relay_ip relay_ip rlm lo hi None None)
       relay_ip relay_ip rlm [] True name"

definition with_limits_and_password ::
  "nat \<Rightarrow> string \<Rightarrow> ipv4_addr \<Rightarrow> string \<Rightarrow> nat option \<Rightarrow> u32 option \<Rightarrow> string \<Rightarrow> bool \<Rightarrow> turn_server" where
  "with_limits_and_password t0 name relay_ip rlm max_conc max_dur pw disabled =
     turn_server_with (with_limits_and_bind_addr t0 relay_ip relay_ip rlm max_conc max_dur)
       relay_ip relay_ip rlm pw disabled name"

definition with_limits ::
  "nat \<Rightarrow> string \<Rightarrow> ipv4_addr \<Rightarrow> string \<Rightarrow> nat option \<Rightarrow> u32 option \<Rightarrow> turn_server" where
  "with_limits t0 name relay_ip rlm max_conc max_dur =
     with_limits_and_password t0 name relay_ip rlm max_conc max_dur ''password'' False"

definition turn_server_new :: "nat \<Rightarrow> string \<Rightarrow> ipv4_addr \<Rightarrow> string \<Rightarrow> turn_server" where
  "turn_server_new t0 name relay_ip rlm =
     with_limits_and_password t0 name relay_ip rlm None None ''password'' False"

definition with_password :: "nat \<Rightarrow> string \<Rightarrow> ipv4_addr \<Rightarrow> string \<Rightarrow> string \<Rightarrow> turn_server" where
  "with_password t0 name relay_ip rlm pw = with_limits_and_password t0 name relay_ip rlm None None pw False"

definition with_auth_disabled :: "nat \<Rightarrow> string \<Rightarrow> ipv4_addr \<Rightarrow> string \<Rightarrow> turn_server" where
  "with_auth_disabled t0 name relay_ip rlm = with_limits_and_password t0 name relay_ip rlm None None [] True"

definition set_stats_dump_interval :: "u64 \<Rightarrow> turn_server \<Rightarrow> turn_server" where
  "set_stats_dump_interval secs s = s\<lparr>stats_dump_interval_secs := secs\<rparr>"

definition set_stats_dump_skip_if_no_change :: "bool \<Rightarrow> turn_server \<Rightarrow> turn_server" where
  "set_stats_dump_skip_if_no_change skip s = s\<lparr>stats_dump_skip_if_no_change := skip\<rparr>"

definition set_server_name :: "string \<Rightarrow> turn_server \<Rightarrow> turn_server" where
  "set_server_name name s = s\<lparr>server_name := name\<rparr>"

fun enabled_protocol_label :: "bool \<Rightarrow> bool \<Rightarrow> string" where
  "enabled_protocol_label True True = ''STUN/TURN''"
| "enabled_protocol_label True False = ''STUN''"
| "enabled_protocol_label False True = ''TURN''"
| "enabled_protocol_label False False = ''disabled STUN/TURN''"

definition set_protocol_enabled :: "bool \<Rightarrow> bool \<Rightarrow> turn_server \<Rightarrow> turn_server" where
  "set_protocol_enabled stun turn s = s\<lparr>stun_enabled := stun, turn_enabled := turn\<rparr>"

definition set_auth_manager :: "auth_manager \<Rightarrow> turn_server \<Rightarrow> turn_server" where
  "set_auth_manager am s = s\<lparr>auth := Some am\<rparr>"

section \<open>Authentication\<close>

definition get_password_for_user :: "env \<Rightarrow> string \<Rightarrow> turn_server \<Rightarrow> string option" where
  "get_password_for_user e name s =
     (case (case auth s of Some am \<Rightarrow> get_user_password (unix_secs e) name am | None \<Rightarrow> None) of
        Some pw \<Rightarrow> Some pw
      | None \<Rightarrow> if srv_password s \<noteq> [] then Some (srv_password s) else None)"

definition generate_nonce :: "crypto \<Rightarrow> env \<Rightarrow> string" where
  "generate_nonce c e = hex_encode c (nonce_bytes e)"

definition compute_message_integrity_key :: "crypto \<Rightarrow> string \<Rightarrow> string \<Rightarrow> string \<Rightarrow> bytes" where
  "compute_message_integrity_key c name rlm pw =
     md5 c (as_bytes (name @ CHR '':'' # rlm @ CHR '':'' # pw))"

text \<open>The bytes that are signed: the header with a length that counts the 24 bytes of
  MESSAGE-INTEGRITY, and the attributes before it.\<close>

definition integrity_input :: "message_header \<Rightarrow> attribute list \<Rightarrow> bytes" where
  "integrity_input h attrs =
     (let attr_buf = attrs_encode attrs
      in header_encode (h\<lparr>message_length := word_of_nat (length attr_buf + 24), magic_cookie := 0x2112A442\<rparr>) @ attr_buf)"

definition verify_message_integrity :: "crypto \<Rightarrow> message \<Rightarrow> bytes \<Rightarrow> bool rust" where
  "verify_message_integrity c msg key =
     (case get_attribute msg MESSAGE_INTEGRITY of
        None \<Rightarrow> Returns False
      | Some integrity_attr \<Rightarrow>
          (let before = takeWhile (\<lambda>a. attr_type a \<noteq> MESSAGE_INTEGRITY) (attributes msg);
               computed = hmac_sha1 c key (integrity_input (header msg) before)
           in rbind (prefix_slice computed 20)
                (\<lambda>x. rbind (prefix_slice (attr_value integrity_attr) 20) (\<lambda>y. Returns (x = y)))))"

definition add_response_message_integrity :: "crypto \<Rightarrow> message \<Rightarrow> bytes \<Rightarrow> message rust" where
  "add_response_message_integrity c response key =
     (let computed = hmac_sha1 c key (integrity_input (header response) (attributes response))
      in rbind (prefix_slice computed 20)
           (\<lambda>v. Returns (add_attribute \<lparr>attr_type = MESSAGE_INTEGRITY, attr_value = v\<rparr> response)))"

definition software_attr :: "turn_server \<Rightarrow> attribute" where
  "software_attr s = \<lparr>attr_type = SOFTWARE, attr_value = as_bytes (server_name s)\<rparr>"

definition create_401_response ::
  "crypto \<Rightarrow> env \<Rightarrow> message \<Rightarrow> string option \<Rightarrow> turn_server \<Rightarrow> bytes \<times> turn_server" where
  "create_401_response c e msg reason s =
     (let nonce = generate_nonce c e;
          s1 = s\<lparr>nonce_map := hm_insert nonce \<lparr>entry_nonce = nonce, nonce_created_at = now e\<rparr> (nonce_map s)\<rparr>;
          r0 = create_error_response_with_reason (header msg) Unauthorized reason;
          r1 = add_attribute \<lparr>attr_type = REALM, attr_value = as_bytes (srv_realm s)\<rparr> r0;
          r2 = add_attribute \<lparr>attr_type = NONCE, attr_value = as_bytes nonce\<rparr> r1;
          r3 = add_attribute (software_attr s) r2
      in (message_encode r3, s1))"

definition create_error_response_bytes :: "message \<Rightarrow> error_code \<Rightarrow> turn_server \<Rightarrow> bytes" where
  "create_error_response_bytes msg err s =
     message_encode (add_attribute (software_attr s) (create_error_response (header msg) err))"

definition create_error_response_bytes_with_reason :: "message \<Rightarrow> error_code \<Rightarrow> string \<Rightarrow> turn_server \<Rightarrow> bytes" where
  "create_error_response_bytes_with_reason msg err reason s =
     message_encode (add_attribute (software_attr s) (create_error_response_with_reason (header msg) err (Some reason)))"

text \<open>\<open>Ok(username)\<close> is \<open>Inr\<close>; \<open>Err(bytes)\<close>, the response to send, is \<open>Inl\<close>.\<close>

definition verify_turn_auth ::
  "crypto \<Rightarrow> env \<Rightarrow> message \<Rightarrow> socket_addr \<Rightarrow> turn_server \<Rightarrow> ((bytes + string) \<times> turn_server) rust" where
  "verify_turn_auth c e msg client s =
     (let refuse = (\<lambda>reason. case create_401_response c e msg reason s of (r, s') \<Rightarrow> Returns (Inl r, s')) in
      if auth_disabled s then
        (case get_attribute msg USERNAME of
           Some a \<Rightarrow> Returns (Inr (from_utf8_lossy (attr_value a)), s)
         | None \<Rightarrow> Returns (Inr [], s))
      else if (case auth s of Some am \<Rightarrow> \<not> check_acl (ip_to_string (sock_ip client)) am | None \<Rightarrow> False)
      then Returns (Inl (create_error_response_bytes msg Forbidden s), s)
      else case (get_attribute msg NONCE, get_attribute msg USERNAME) of
        (Some nonce_attr, Some username_attr) \<Rightarrow>
          (let nonce = from_utf8_lossy (attr_value nonce_attr);
               name = from_utf8_lossy (attr_value username_attr)
           in case hm_get (nonce_map s) nonce of
                None \<Rightarrow> refuse (Some ''Invalid nonce'')
              | Some entry \<Rightarrow>
                  if (now e - nonce_created_at entry) div 1000000000 > 600 then refuse (Some ''Nonce expired'')
                  else case get_password_for_user e name s of
                    None \<Rightarrow> refuse (Some ''Unknown user'')
                  | Some pw \<Rightarrow>
                      rbind (verify_message_integrity c msg (compute_message_integrity_key c name (srv_realm s) pw))
                        (\<lambda>ok. if ok then Returns (Inr name, s) else refuse (Some ''Bad integrity'')))
      | _ \<Rightarrow> refuse None)"

text \<open>The signature that every successful response gets, when a password is known.\<close>

definition sign_response :: "crypto \<Rightarrow> env \<Rightarrow> string \<Rightarrow> turn_server \<Rightarrow> message \<Rightarrow> message rust" where
  "sign_response c e name s response =
     (if \<not> auth_disabled s then
        (case get_password_for_user e name s of
           Some pw \<Rightarrow> add_response_message_integrity c response (compute_message_integrity_key c name (srv_realm s) pw)
         | None \<Rightarrow> Returns response)
      else Returns response)"

text \<open>\<open>buf.get_u32()\<close> panics on fewer than four bytes.\<close>

definition get_lifetime :: "message \<Rightarrow> u32 rust" where
  "get_lifetime msg =
     (case get_attribute msg LIFETIME of
        Some a \<Rightarrow> if length (attr_value a) < 4 then Panics
          else Returns (be32 (attr_value a ! 0) (attr_value a ! 1) (attr_value a ! 2) (attr_value a ! 3))
      | None \<Rightarrow> Returns 600)"

text \<open>A handler's guard: an authentication failure is answered with its response.\<close>

definition with_auth ::
  "crypto \<Rightarrow> env \<Rightarrow> message \<Rightarrow> socket_addr \<Rightarrow> turn_server \<Rightarrow> (string \<Rightarrow> turn_server \<Rightarrow> outcome) \<Rightarrow> outcome" where
  "with_auth c e msg client s k =
     rbind (verify_turn_auth c e msg client s)
       (\<lambda>(res, s1). case res of Inl resp \<Rightarrow> Returns (s1, [], Some resp) | Inr name \<Rightarrow> k name s1)"

section \<open>Handlers\<close>

definition handle_binding :: "message \<Rightarrow> socket_addr \<Rightarrow> turn_server \<Rightarrow> outcome" where
  "handle_binding msg client s =
     Returns (s, [], Some (create_binding_response_fast (transaction_id (header msg)) client))"

definition remove_client_allocation :: "socket_addr \<Rightarrow> turn_server \<Rightarrow> turn_server" where
  "remove_client_allocation relayed s =
     (case remove_allocation relayed (alloc s) (Some (chans s)) of
        (_, t, ct) \<Rightarrow> s\<lparr>alloc := t, chans := (case ct of Some ch \<Rightarrow> ch | None \<Rightarrow> chans s)\<rparr>)"

text \<open>The existing allocation of a client goes before it gets a new one.\<close>

definition remove_existing :: "socket_addr \<Rightarrow> turn_server \<Rightarrow> turn_server" where
  "remove_existing client s =
     (case find_allocation_by_client (alloc s) client of
        Some old_relayed \<Rightarrow> remove_client_allocation old_relayed s
      | None \<Rightarrow> s)"

fun allocate_error :: "turn_error \<Rightarrow> error_code \<times> string" where
  "allocate_error Err_AllocationQuotaReached = (AllocationQuotaReached, ''server allocation quota reached'')"
| "allocate_error Err_RelayPortExhausted = (InsufficientCapacity, error_to_string Err_RelayPortExhausted)"
| "allocate_error (Err_RelayBindFailed a src) = (InsufficientCapacity, error_to_string (Err_RelayBindFailed a src))"
| "allocate_error err = (ServerError, error_to_string err)"

definition allocate_response :: "message \<Rightarrow> socket_addr \<Rightarrow> socket_addr \<Rightarrow> u32 \<Rightarrow> turn_server \<Rightarrow> message" where
  "allocate_response msg client relayed life s =
     \<lparr>header = \<lparr>hdr_method = hdr_method (header msg), hdr_event_type = Success, message_length = 0,
        magic_cookie = 0x2112A442, transaction_id = transaction_id (header msg)\<rparr>,
      attributes =
        [\<lparr>attr_type = XOR_RELAYED_ADDRESS, attr_value = encode_xor_address relayed 0x2112A442\<rparr>,
         \<lparr>attr_type = XOR_MAPPED_ADDRESS, attr_value = encode_xor_address client 0x2112A442\<rparr>,
         \<lparr>attr_type = LIFETIME, attr_value = put_u32 life\<rparr>,
         \<lparr>attr_type = REALM, attr_value = as_bytes (srv_realm s)\<rparr>,
         software_attr s]\<rparr>"

definition handle_allocate :: "crypto \<Rightarrow> env \<Rightarrow> message \<Rightarrow> socket_addr \<Rightarrow> turn_server \<Rightarrow> outcome" where
  "handle_allocate c e msg client s =
     with_auth c e msg client s (\<lambda>name s1.
       rbind (get_lifetime msg) (\<lambda>life.
         let s2 = remove_existing client s1
         in rbind (create_allocation e client (Some life) (alloc s2)) (\<lambda>(res, t).
              let s3 = s2\<lparr>alloc := t\<rparr> in
              case res of
                Inl err \<Rightarrow>
                  (case allocate_error err of (err_code, reason) \<Rightarrow>
                     Returns (s3, [], Some (create_error_response_bytes_with_reason msg err_code reason s3)))
              | Inr a \<Rightarrow>
                  rbind (sign_response c e name s3 (allocate_response msg client (relayed_addr a) life s3))
                    (\<lambda>response. Returns (s3, [], Some (message_encode response))))))"

definition handle_refresh :: "crypto \<Rightarrow> env \<Rightarrow> message \<Rightarrow> socket_addr \<Rightarrow> turn_server \<Rightarrow> outcome" where
  "handle_refresh c e msg client s =
     with_auth c e msg client s (\<lambda>name s1.
       rbind (get_lifetime msg) (\<lambda>life.
         case find_allocation_by_client (alloc s1) client of
           None \<Rightarrow> Returns (s1, [], Some (create_error_response_bytes msg AllocationMismatch s1))
         | Some relayed \<Rightarrow>
             (let (ok, s2) =
                (if life = 0 then (True, remove_client_allocation relayed s1)
                 else case refresh_allocation relayed life (alloc s1) of
                   (Inl _, t) \<Rightarrow> (False, s1\<lparr>alloc := t\<rparr>)
                 | (Inr _, t) \<Rightarrow> (True, s1\<lparr>alloc := t\<rparr>))
              in if \<not> ok then Returns (s2, [], Some (create_error_response_bytes msg AllocationMismatch s2))
                 else rbind (sign_response c e name s2
                        (add_attribute \<lparr>attr_type = LIFETIME, attr_value = put_u32 life\<rparr>
                           (create_success_response (header msg))))
                   (\<lambda>response. Returns (s2, [], Some (message_encode response))))))"

definition peers_of :: "message \<Rightarrow> socket_addr list" where
  "peers_of msg =
     List.map_filter (\<lambda>a. if attr_type a = PEER_ADDRESS then decode_xor_address (attr_value a) 0x2112A442 else None)
       (attributes msg)"

definition handle_create_permission :: "crypto \<Rightarrow> env \<Rightarrow> message \<Rightarrow> socket_addr \<Rightarrow> turn_server \<Rightarrow> outcome" where
  "handle_create_permission c e msg client s =
     with_auth c e msg client s (\<lambda>name s1.
       case find_allocation_by_client (alloc s1) client of
         None \<Rightarrow> Returns (s1, [], Some (create_error_response_bytes msg AllocationMismatch s1))
       | Some relayed \<Rightarrow>
           (let peers = peers_of msg in
            if peers = [] then Returns (s1, [], Some (create_error_response_bytes msg BadRequest s1))
            else case add_permissions client peers (alloc s1) of
              (added, t) \<Rightarrow>
                (let s2 = s1\<lparr>alloc := t\<rparr> in
                 if \<not> added then Returns (s2, [], Some (create_error_response_bytes msg AllocationMismatch s2))
                 else rbind (sign_response c e name s2 (create_success_response (header msg)))
                        (\<lambda>response. Returns (s2, [], Some (message_encode response))))))"

definition channel_number_of :: "attribute \<Rightarrow> u16 rust" where
  "channel_number_of a =
     rbind (index (attr_value a) 0) (\<lambda>hi. rbind (index (attr_value a) 1) (\<lambda>lo. Returns (be16 hi lo)))"

definition handle_channel_bind :: "crypto \<Rightarrow> env \<Rightarrow> message \<Rightarrow> socket_addr \<Rightarrow> turn_server \<Rightarrow> outcome" where
  "handle_channel_bind c e msg client s =
     with_auth c e msg client s (\<lambda>name s1.
       case (find_allocation_by_client (alloc s1) client, get_attribute msg PEER_ADDRESS,
             get_attribute msg CHANNEL_NUMBER) of
         (Some relayed, Some peer_attr, Some channel_attr) \<Rightarrow>
           (let peer = (case decode_xor_address (attr_value peer_attr) 0x2112A442 of
                          Some p \<Rightarrow> p | None \<Rightarrow> SocketV4 (Ipv4 0 0 0 0) 0)
            in rbind (channel_number_of channel_attr) (\<lambda>channel_num.
                 case ch_bind (now e) channel_num peer relayed (chans s1) of
                   (Inr _, ct) \<Rightarrow>
                     (let s2 = s1\<lparr>chans := ct\<rparr> in
                      rbind (sign_response c e name s2 (create_success_response (header msg)))
                        (\<lambda>response. Returns (s2, [], Some (message_encode response))))
                 | (Inl _, ct) \<Rightarrow>
                     Returns (s1\<lparr>chans := ct\<rparr>, [],
                       Some (create_error_response_bytes_with_reason msg BadRequest
                         ''Channel number already bound for this allocation'' s1))))
       | _ \<Rightarrow> Returns (s1, [], None))"

definition handle_send :: "env \<Rightarrow> message \<Rightarrow> socket_addr \<Rightarrow> turn_server \<Rightarrow> outcome" where
  "handle_send e msg client s =
     (if find_allocation_by_client (alloc s) client = None then Returns (s, [], None)
      else case get_attribute msg PEER_ADDRESS of
        None \<Rightarrow> Returns (s, [], None)
      | Some peer_attr \<Rightarrow>
          (case decode_xor_address (attr_value peer_attr) 0x2112A442 of
             None \<Rightarrow> Returns (s, [], None)
           | Some peer \<Rightarrow>
               (case get_attribute msg DATA of
                  None \<Rightarrow> Returns (s, [], None)
                | Some data_attr \<Rightarrow>
                    (case send_to_peer e client peer (attr_value data_attr) (alloc s) of
                       (_, t, effs) \<Rightarrow> Returns (s\<lparr>alloc := t\<rparr>, effs, None)))))"

definition process_message :: "crypto \<Rightarrow> env \<Rightarrow> message \<Rightarrow> socket_addr \<Rightarrow> turn_server \<Rightarrow> outcome" where
  "process_message c e msg client s =
     (if hdr_method (header msg) = Binding \<and> \<not> stun_enabled s then Returns (s, [], None)
      else if hdr_method (header msg) \<noteq> Binding \<and> \<not> turn_enabled s then Returns (s, [], None)
      else case hdr_method (header msg) of
        Binding \<Rightarrow> handle_binding msg client s
      | Allocate \<Rightarrow> handle_allocate c e msg client s
      | Refresh \<Rightarrow> handle_refresh c e msg client s
      | CreatePermission \<Rightarrow> handle_create_permission c e msg client s
      | ChannelBind \<Rightarrow> handle_channel_bind c e msg client s
      | Send \<Rightarrow> handle_send e msg client s
      | Data \<Rightarrow> Returns (s, [], None))"

section \<open>ChannelData and the entry points of the transports\<close>

definition handle_channel_data :: "env \<Rightarrow> bytes \<Rightarrow> socket_addr \<Rightarrow> turn_server \<Rightarrow> effect list" where
  "handle_channel_data e data client s =
     (if length data < 4 then []
      else let channel_num = be16 (data ! 0) (data ! 1);
               data_len = unat (be16 (data ! 2) (data ! 3));
               payload_end = 4 + min data_len (length data - 4);
               payload = slice_bytes data 4 payload_end
        in case get_allocation_by_client (alloc s) client of
             None \<Rightarrow> []
           | Some a \<Rightarrow>
               (case get_by_channel (chans s) (relayed_addr a) channel_num of
                  None \<Rightarrow> []
                | Some channel \<Rightarrow>
                    (case relay a of
                       None \<Rightarrow> []
                     | Some r \<Rightarrow>
                         if send_fails e (peer_addr channel) then []
                         else [ToPeer (relay_socket r) (peer_addr channel) payload])))"

definition handle_tcp_message :: "crypto \<Rightarrow> env \<Rightarrow> bytes \<Rightarrow> socket_addr \<Rightarrow> turn_server \<Rightarrow> outcome" where
  "handle_tcp_message c e data client s =
     (if is_channel_data_frame data then Returns (s, handle_channel_data e data client s, None)
      else case message_parse data of
        Some msg \<Rightarrow> process_message c e msg client s
      | None \<Rightarrow> Returns (s, [], None))"

text \<open>
  A datagram that \<open>Message::parse\<close> refuses gets a second, more lenient parse: the type field
  is the method itself, and attributes are read up to the end of the datagram.
\<close>

definition lenient_method :: "u16 \<Rightarrow> stun_method option" where
  "lenient_method v =
     (if v = 0x0001 then Some Binding
      else if v = 0x0003 then Some Allocate
      else if v = 0x0004 then Some Refresh
      else if v = 0x0006 then Some Send
      else if v = 0x0007 then Some Data
      else if v = 0x0009 then Some ChannelBind
      else None)"

function lenient_attrs :: "bytes \<Rightarrow> nat \<Rightarrow> nat \<Rightarrow> attribute list" where
  "lenient_attrs data offset end_offset =
     (if offset < end_offset \<and> offset + 4 \<le> length data then
        (let ty = be16 (data ! offset) (data ! (offset + 1));
             attr_len = be16 (data ! (offset + 2)) (data ! (offset + 3))
         in if offset + 4 + unat attr_len \<le> length data then
              (let padding = (4 - (attr_len + 4) mod 4) mod 4
               in \<lparr>attr_type = ty, attr_value = slice_bytes data (offset + 4) (offset + 4 + unat attr_len)\<rparr> #
                  lenient_attrs data (offset + (4 + unat attr_len + unat padding)) end_offset)
            else [])
      else [])"
  by pat_completeness auto
termination by (relation "measure (\<lambda>(data, offset, end_offset). end_offset - offset)") auto

declare lenient_attrs.simps [simp del]

definition lenient_parse :: "bytes \<Rightarrow> message option" where
  "lenient_parse data =
     (if length data \<ge> 20 then
        (let method_bytes = be16 (data ! 0) (data ! 1); len_bytes = be16 (data ! 2) (data ! 3)
         in if len_bytes > 0 \<and> len_bytes < 1500 \<and>
               data ! 4 = 0x21 \<and> data ! 5 = 0x12 \<and> data ! 6 = 0xa4 \<and> data ! 7 = 0x42
            then (case lenient_method method_bytes of
                    None \<Rightarrow> None
                  | Some m \<Rightarrow>
                      Some \<lparr>header = \<lparr>hdr_method = m, hdr_event_type = Request, message_length = len_bytes,
                              magic_cookie = 0x2112A442, transaction_id = slice_bytes data 8 20\<rparr>,
                            attributes = lenient_attrs data 20 (20 + unat len_bytes)\<rparr>)
            else None)
      else None)"

definition handle_udp_message :: "crypto \<Rightarrow> env \<Rightarrow> bytes \<Rightarrow> socket_addr \<Rightarrow> turn_server \<Rightarrow> outcome" where
  "handle_udp_message c e data client s =
     (if length data < 4 then Returns (s, [], None)
      else if is_channel_data_frame data then Returns (s, handle_channel_data e data client s, None)
      else case message_parse data of
        Some msg \<Rightarrow> process_message c e msg client s
      | None \<Rightarrow>
          (case lenient_parse data of
             Some msg \<Rightarrow> process_message c e msg client s
           | None \<Rightarrow> Returns (s, [], None)))"

definition handle_dtls_message :: "crypto \<Rightarrow> env \<Rightarrow> bytes \<Rightarrow> socket_addr \<Rightarrow> turn_server \<Rightarrow> outcome" where
  "handle_dtls_message c e data client s = handle_udp_message c e data client s"

section \<open>Background tasks\<close>

text \<open>One tick of each cleanup task, with what it reports as removed.\<close>

definition allocation_cleanup :: "nat \<Rightarrow> turn_server \<Rightarrow> nat \<times> turn_server" where
  "allocation_cleanup t0 s =
     (case cleanup_expired t0 (alloc s) (Some (chans s)) of
        (n, t, ct) \<Rightarrow> (n, s\<lparr>alloc := t, chans := (case ct of Some ch \<Rightarrow> ch | None \<Rightarrow> chans s)\<rparr>))"

definition nonce_cleanup :: "nat \<Rightarrow> turn_server \<Rightarrow> nat \<times> turn_server" where
  "nonce_cleanup t0 s =
     (let m = hm_retain (\<lambda>_ entry. (t0 - nonce_created_at entry) div 1000000000 < 600) (nonce_map s)
      in (hm_len (nonce_map s) - hm_len m, s\<lparr>nonce_map := m\<rparr>))"

definition channel_cleanup :: "nat \<Rightarrow> turn_server \<Rightarrow> nat \<times> turn_server" where
  "channel_cleanup t0 s =
     (case channels_cleanup_expired t0 (chans s) of (n, ct) \<Rightarrow> (n, s\<lparr>chans := ct\<rparr>))"

text \<open>A tick of the statistics task: the line it logs, before the numbers are formatted, and
  the values it keeps for the next tick (bytes, messages, active, total).\<close>

definition stats_tick :: "bool \<Rightarrow> server_stats \<Rightarrow> u64 \<times> u64 \<times> u64 \<times> u64 \<Rightarrow>
    (u64 \<times> u64 \<times> u64 \<times> u64 \<times> u64 \<times> u64) option \<times> (u64 \<times> u64 \<times> u64 \<times> u64)" where
  "stats_tick skip_if_no_change st prev =
     (case prev of (prev_bytes, prev_messages, prev_active, prev_total) \<Rightarrow>
       let current_bytes = total_bytes_relayed st; current_messages = total_messages st;
           active = active_allocations st; total_allocs = total_allocations st;
           has_change = (if skip_if_no_change
             then current_bytes \<noteq> prev_bytes \<or> current_messages \<noteq> prev_messages \<or>
                  active \<noteq> prev_active \<or> total_allocs \<noteq> prev_total
             else True);
           bytes_delta = (if current_bytes \<ge> prev_bytes then current_bytes - prev_bytes else 0);
           messages_delta = (if current_messages \<ge> prev_messages then current_messages - prev_messages else 0)
       in (if has_change then Some (active, total_allocs, current_bytes, bytes_delta, current_messages, messages_delta)
           else None,
           (current_bytes, current_messages, active, total_allocs)))"
end
