(* ===== verification/Server_Safety.thy ===== *)
theory Server_Safety
  imports Turn_Server
begin

text \<open>
  What the handlers of \<open>src/server.rs\<close> guarantee: the server invariant that every handler and
  every cleanup keeps, what a request must prove before it changes the tables, the contents of
  responses, and where relayed data can go.
\<close>

section \<open>The server invariant\<close>

text \<open>A client owns at most one allocation.\<close>

definition clients_unique :: "alloc_table \<Rightarrow> bool" where
  "clients_unique t \<longleftrightarrow> (\<forall>k k' a a'. hm_get (allocations t) k = Some a \<longrightarrow> hm_get (allocations t) k' = Some a' \<longrightarrow>
     client_addr a = client_addr a' \<longrightarrow> k = k')"

text \<open>A channel binding never outlives its allocation.\<close>

definition channels_live :: "alloc_table \<Rightarrow> channel_table \<Rightarrow> bool" where
  "channels_live t ct \<longleftrightarrow> (\<forall>r ch. get_by_channel ct r ch \<noteq> None \<longrightarrow> hm_get (allocations t) r \<noteq> None)"

definition srv_inv :: "turn_server \<Rightarrow> bool" where
  "srv_inv s \<longleftrightarrow> table_inv 0 (alloc s) \<and> ct_wf (chans s) \<and> hm_wf (nonce_map s) \<and>
     clients_unique (alloc s) \<and> channels_live (alloc s) (chans s)"

lemma srv_invD:
  assumes "srv_inv s"
  shows "table_inv 0 (alloc s)" and "ct_wf (chans s)" and "hm_wf (nonce_map s)"
    and "clients_unique (alloc s)" and "channels_live (alloc s) (chans s)"
  using assms by (simp_all add: srv_inv_def)

lemma clients_unique_same: "clients_unique t \<Longrightarrow> same_relays t t' \<Longrightarrow> clients_unique t'"
  unfolding clients_unique_def by (metis same_relays_get)

lemma channels_live_same: "channels_live t ct \<Longrightarrow> same_relays t t' \<Longrightarrow> channels_live t' ct"
  using same_relays_dom [of t t'] by (auto simp: channels_live_def dom_def set_eq_iff)

lemma srv_inv_same:
  assumes "srv_inv s" and "same_relays (alloc s) t'"
  shows "srv_inv (s\<lparr>alloc := t'\<rparr>)"
  using assms table_inv_same_relays clients_unique_same channels_live_same by (auto simp: srv_inv_def)

section \<open>Looking up a client\<close>

lemma find_client_Some:
  assumes "table_inv d t" and "find_allocation_by_client t client = Some k"
  obtains a where "hm_get (allocations t) k = Some a" and "client_addr a = client"
    and "get_allocation_by_client t client = Some a"
proof -
  obtain a where a: "find (\<lambda>a. client_addr a = client) (hm_values (allocations t)) = Some a" "relayed_addr a = k"
    using assms(2) by (auto simp: find_allocation_by_client_def)
  then obtain k' where "hm_get (allocations t) k' = Some a" and "client_addr a = client"
    using find_SomeD [OF a(1)] by (auto simp: hm_values_iff [OF table_invD(1) [OF assms(1)]])
  then show thesis
    using that [of a] a table_invD(2) [OF assms(1)] by (auto simp: entry_ok_def get_allocation_by_client_def)
qed

lemma find_client_None:
  assumes "table_inv d t" and "find_allocation_by_client t client = None" and "hm_get (allocations t) k = Some a"
  shows "client_addr a \<noteq> client"
proof -
  have "a \<in> set (hm_values (allocations t))"
    using assms(3) by (auto simp: hm_values_iff [OF table_invD(1) [OF assms(1)]])
  then show ?thesis
    using assms(2) by (auto simp: find_allocation_by_client_def find_None_iff)
qed

lemma get_by_client_find:
  "get_allocation_by_client t client = None \<longleftrightarrow> find_allocation_by_client t client = None"
  by (simp add: find_allocation_by_client_def get_allocation_by_client_def)

lemma get_by_client_Some:
  assumes "table_inv d t" and "get_allocation_by_client t client = Some a"
  shows "hm_get (allocations t) (relayed_addr a) = Some a" and "client_addr a = client"
proof -
  have "find_allocation_by_client t client = Some (relayed_addr a)"
    using assms(2) by (simp add: find_allocation_by_client_def get_allocation_by_client_def)
  from find_client_Some [OF assms(1) this] assms(2)
  show "hm_get (allocations t) (relayed_addr a) = Some a" and "client_addr a = client" by auto
qed

section \<open>Removing an allocation\<close>

lemma get_remove_client_allocation:
  "hm_get (allocations (alloc (remove_client_allocation k s))) k' =
     (if k' = k then None else hm_get (allocations (alloc s)) k')"
  by (auto simp: remove_client_allocation_def remove_allocation_def get_drop_entry Let_def split: option.split)

lemma channels_remove_client_allocation:
  assumes "srv_inv s"
  shows "get_by_channel (chans (remove_client_allocation k s)) r ch =
    (if r = k then None else get_by_channel (chans s) r ch)"
proof (cases "hm_get (allocations (alloc s)) k")
  case None
  then have "get_by_channel (chans s) k ch = None"
    using srv_invD(5) [OF assms] unfolding channels_live_def by blast
  then show ?thesis by (auto simp: remove_client_allocation_def remove_allocation_def None)
next
  case (Some a)
  then show ?thesis
    by (simp add: remove_client_allocation_def remove_allocation_def Let_def get_remove_for_relayed [OF srv_invD(2) [OF assms]])
qed

lemma remove_client_allocation_inv:
  assumes "srv_inv s"
  shows "srv_inv (remove_client_allocation k s)"
proof -
  let ?s = "remove_client_allocation k s"
  have t: "alloc ?s = fst (snd (remove_allocation k (alloc s) (Some (chans s))))"
    and n: "nonce_map ?s = nonce_map s"
    by (simp_all add: remove_client_allocation_def split: prod.split)
  have "ct_wf (chans ?s)"
    using srv_invD(2) [OF assms]
    by (auto simp: remove_client_allocation_def remove_allocation_def Let_def ct_wf_remove_for_relayed split: option.split)
  moreover have "clients_unique (alloc ?s)"
    using srv_invD(4) [OF assms] unfolding clients_unique_def get_remove_client_allocation by (auto split: if_splits)
  moreover have "channels_live (alloc ?s) (chans ?s)"
    using srv_invD(5) [OF assms]
    unfolding channels_live_def get_remove_client_allocation channels_remove_client_allocation [OF assms] by auto
  ultimately show ?thesis
    using remove_allocation_inv [OF srv_invD(1) [OF assms]] srv_invD(3) [OF assms] by (simp add: srv_inv_def t n)
qed

lemma remove_client_allocation_fields [simp]:
  "nonce_map (remove_client_allocation k s) = nonce_map s"
  "auth (remove_client_allocation k s) = auth s"
  "auth_disabled (remove_client_allocation k s) = auth_disabled s"
  "srv_password (remove_client_allocation k s) = srv_password s"
  "srv_realm (remove_client_allocation k s) = srv_realm s"
  "server_name (remove_client_allocation k s) = server_name s"
  by (simp_all add: remove_client_allocation_def split: prod.split)

section \<open>Creating an allocation\<close>

lemma create_allocation_entries:
  assumes inv: "table_inv 0 t"
  obtains (failed) err t' where "create_allocation e client req t = Returns (Inl err, t')" "table_inv 0 t'"
      "allocations t' = allocations t"
      "err = Err_AllocationQuotaReached \<or> err = Err_RelayPortExhausted \<or> (\<exists>addr source. err = Err_RelayBindFailed addr source)"
  | (created) a t' where "create_allocation e client req t = Returns (Inr a, t')" "table_inv 0 t'"
      "hm_get (allocations t) (relayed_addr a) = None"
      "hm_get (allocations t') = (hm_get (allocations t))(relayed_addr a \<mapsto> a)"
      "client_addr a = client" "permissions a = {}" "created_at a = now e"
      "lifetime a = from_secs (unat (lifetime_secs req t))"
  using inv
proof (cases rule: create_allocation_cases [where e = e and client = client and req = req])
  case quota
  then show thesis using failed inv by blast
next
  case (fail err pa)
  then show thesis using failed [OF fail(1)] table_inv_port_alloc [OF inv fail(2,3)] by auto
next
  case (ok p pa a t')
  have a: "relayed_addr a = SocketV4 (external_addr t) p" "client_addr a = client" "permissions a = {}"
      "created_at a = now e" "lifetime a = from_secs (unat (lifetime_secs req t))"
      "allocations t' = hm_insert (SocketV4 (external_addr t) p) a (allocations t)"
    using ok(5) by (auto simp: install_allocation_def spawn_allocation_task_def allocation_with_relay_def Let_def)
  have "hm_get (allocations t) (relayed_addr a) = None"
    using ok(2) table_invD(4) [OF inv] a(1) by auto
  then show thesis
    using created [OF ok(1) create_allocation_inv [OF inv ok(1)]] a by (simp add: hm.get_insert)
qed

text \<open>A free port and one attempt in \<open>MAX_ATTEMPTS\<close> at which the socket can be bound are enough.\<close>

lemma bind_relay_succeeds:
  assumes "pa_wf (port_alloc t)" and "used_ports (port_alloc t) \<noteq> port_range (port_alloc t)"
    and "j < n" and "\<forall>addr. bind_error e (i + j) addr = None"
  shows "\<exists>br t'. bind_relay e n i sd lf t = Returns (Inr br, t')"
  using assms
proof (induction n arbitrary: i j sd lf t)
  case (Suc n)
  let ?o = "\<lparr>fresh1 = fst (port_entropy e i), fresh2 = snd (port_entropy e i), seed = sd,
    weak_failures = weak_cas e i\<rparr>"
  obtain r pa x where al: "port_allocate ?o (port_alloc t) = Returns (r, pa, x)"
    using ports.alloc_returns [OF Suc.prems(1)] by blast
  then obtain p where p: "r = Some p"
    using ports.alloc_fails_iff [OF Suc.prems(1) al] Suc.prems(2) by auto
  note got = ports.alloc_Some [OF Suc.prems(1) al [unfolded p]]
  show ?case
  proof (cases "bind_error e i (SocketV4 (bind_addr t) p)")
    case None
    then show ?thesis using al p by simp
  next
    case (Some err)
    then obtain j' where j': "j = Suc j'" using Suc.prems(4) by (cases j) auto
    let ?pa = "snd (release p pa)"
    have rel: "used_ports ?pa = used_ports (port_alloc t)" "pa_wf ?pa" "port_range ?pa = port_range (port_alloc t)"
      using ports.free_facts [of pa p] got by auto
    show ?thesis
      using Suc.IH [of "t\<lparr>port_alloc := ?pa\<rparr>" j' "Suc i" x "Some (SocketV4 (bind_addr t) p, err)"]
        rel Suc.prems j' al p Some by simp
  qed
qed simp

lemma create_allocation_succeeds:
  assumes inv: "table_inv 0 t" and "\<forall>limit. max_concurrent_allocations t = Some limit \<longrightarrow> hm_len (allocations t) < limit"
    and "used_ports (port_alloc t) \<noteq> port_range (port_alloc t)"
    and "j < MAX_ATTEMPTS" and "\<forall>addr. bind_error e j addr = None"
  shows "\<exists>a t'. create_allocation e client req t = Returns (Inr a, t')"
proof -
  obtain br t' where "bind_relay e MAX_ATTEMPTS 0 (port_seed e) None t = Returns (Inr br, t')"
    using bind_relay_succeeds [OF table_invD(3) [OF inv] assms(3,4), of e 0] assms(5) by fastforce
  moreover have "\<not> (case max_concurrent_allocations t of
      Some limit \<Rightarrow> unat (active_allocations (stats t)) \<ge> limit | None \<Rightarrow> False)"
    using assms(2) table_invD(5) [OF inv] by (auto split: option.split)
  ultimately show ?thesis
    by (cases br) (simp add: create_allocation_def case_prod_beta Let_def)
qed

lemma create_allocation_srv_inv:
  assumes inv: "srv_inv s" and free: "find_allocation_by_client (alloc s) client = None"
    and run: "create_allocation e client req (alloc s) = Returns (res, t')"
  shows "srv_inv (s\<lparr>alloc := t'\<rparr>)"
  using srv_invD(1) [OF inv]
proof (cases rule: create_allocation_entries [where e = e and client = client and req = req])
  case (failed err t'')
  then show ?thesis
    using run inv by (simp add: srv_inv_def clients_unique_def channels_live_def)
next
  case (created a t'')
  then have t'': "t'' = t'" using run by simp
  have other: "client_addr b \<noteq> client" if "hm_get (allocations (alloc s)) k = Some b" for k b
    by (rule find_client_None [OF srv_invD(1) [OF inv] free that])
  have "clients_unique t'"
    unfolding clients_unique_def
  proof (intro allI impI)
    fix k k' b b'
    assume k: "hm_get (allocations t') k = Some b" "hm_get (allocations t') k' = Some b'"
      and eq: "client_addr b = client_addr b'"
    then show "k = k'"
      using srv_invD(4) [OF inv] other [of k b] other [of k' b'] created(4,5) t''
      unfolding clients_unique_def by (auto split: if_splits)
  qed
  moreover have "channels_live t' (chans s)"
    using srv_invD(5) [OF inv] created(4) t'' by (auto simp: channels_live_def)
  ultimately show ?thesis
    using inv created(2) t'' by (simp add: srv_inv_def)
qed

section \<open>Authentication\<close>

text \<open>What an authenticated request has shown: the client's address passes the access list, the
  nonce was issued by this server at most 600 whole seconds ago, a password is known for the
  user, and MESSAGE-INTEGRITY is the keyed hash of the message under that user's key.\<close>

definition authorised :: "crypto \<Rightarrow> env \<Rightarrow> message \<Rightarrow> socket_addr \<Rightarrow> turn_server \<Rightarrow> string \<Rightarrow> bool" where
  "authorised c e msg client s name \<longleftrightarrow>
     (\<forall>am. auth s = Some am \<longrightarrow> check_acl (ip_to_string (sock_ip client)) am) \<and>
     (\<exists>na ua entry pw. get_attribute msg NONCE = Some na \<and> get_attribute msg USERNAME = Some ua \<and>
        name = from_utf8_lossy (attr_value ua) \<and>
        hm_get (nonce_map s) (from_utf8_lossy (attr_value na)) = Some entry \<and>
        (now e - nonce_created_at entry) div 1000000000 \<le> 600 \<and>
        get_password_for_user e name s = Some pw \<and>
        verify_message_integrity c msg (compute_message_integrity_key c name (srv_realm s) pw) = Returns True)"

lemma create_401_nonces:
  assumes "create_401_response c e msg reason s = (r, s')"
  shows "s' = s\<lparr>nonce_map := hm_insert (generate_nonce c e)
    \<lparr>entry_nonce = generate_nonce c e, nonce_created_at = now e\<rparr> (nonce_map s)\<rparr>"
  using assms by (auto simp: create_401_response_def Let_def)

text \<open>Every outcome of the authentication: accepted with the server untouched, refused by the
  access list, or challenged with a fresh nonce.\<close>

lemma verify_turn_auth_refused:
  assumes "verify_turn_auth c e msg client s = Returns (Inl r, s')"
  shows "\<not> auth_disabled s" and "s' = s \<or> (\<exists>reason. create_401_response c e msg reason s = (r, s'))"
  using assms
  by (auto simp: verify_turn_auth_def Let_def rust_simps split: if_splits option.splits prod.splits)

lemma verify_turn_auth_accepted:
  "verify_turn_auth c e msg client s = Returns (Inr name, s') \<longleftrightarrow> s' = s \<and>
     (if auth_disabled s
      then name = (case get_attribute msg USERNAME of Some a \<Rightarrow> from_utf8_lossy (attr_value a) | None \<Rightarrow> [])
      else authorised c e msg client s name)"
proof (cases "auth_disabled s")
  case True
  then show ?thesis by (auto simp: verify_turn_auth_def split: option.split)
next
  case False
  let ?acl = "case auth s of Some am \<Rightarrow> \<not> check_acl (ip_to_string (sock_ip client)) am | None \<Rightarrow> False"
  have acl: "?acl \<longleftrightarrow> \<not> (\<forall>am. auth s = Some am \<longrightarrow> check_acl (ip_to_string (sock_ip client)) am)"
    by (simp split: option.split)
  show ?thesis
  proof (cases "get_attribute msg NONCE = None \<or> get_attribute msg USERNAME = None \<or> ?acl")
    case True
    then have "\<not> authorised c e msg client s name" unfolding authorised_def acl by auto
    moreover have "verify_turn_auth c e msg client s \<noteq> Returns (Inr name, s')"
      using True False
      by (cases ?acl; cases "get_attribute msg NONCE"; cases "get_attribute msg USERNAME")
         (simp_all add: verify_turn_auth_def Let_def split: prod.split)
    ultimately show ?thesis using False by simp
  next
    case some: False
    then obtain na ua where at: "get_attribute msg NONCE = Some na" "get_attribute msg USERNAME = Some ua" by auto
    let ?n = "from_utf8_lossy (attr_value ua)" and ?e = "hm_get (nonce_map s) (from_utf8_lossy (attr_value na))"
    show ?thesis
    proof (cases "?e = None \<or> get_password_for_user e ?n s = None")
      case True
      then show ?thesis
        using False some at
        by (cases ?e) (auto simp: verify_turn_auth_def authorised_def Let_def split: prod.split)
    next
      case found: False
      then obtain entry pw where "?e = Some entry" "get_password_for_user e ?n s = Some pw" by auto
      then show ?thesis
        using False some at
        by (cases "verify_message_integrity c msg (compute_message_integrity_key c ?n (srv_realm s) pw)")
           (auto simp: verify_turn_auth_def authorised_def acl Let_def not_less split: prod.split)
    qed
  qed
qed

lemma with_auth_cases [consumes 1, case_names refused granted]:
  assumes "with_auth c e msg client s k = Returns (s', effs, resp)"
  obtains (refused) m where "s' = s\<lparr>nonce_map := m\<rparr>" "effs = []" "hm_wf (nonce_map s) \<Longrightarrow> hm_wf m"
  | (granted) name where "auth_disabled s \<or> authorised c e msg client s name" "k name s = Returns (s', effs, resp)"
proof -
  from assms obtain res s1 where v: "verify_turn_auth c e msg client s = Returns (res, s1)"
    and k: "(case res of Inl r \<Rightarrow> Returns (s1, [], Some r) | Inr name \<Rightarrow> k name s1) = Returns (s', effs, resp)"
    by (auto simp: with_auth_def rust_simps split: prod.splits)
  show thesis
  proof (cases res)
    case (Inl r)
    then have "s1 = s \<or> (\<exists>reason. create_401_response c e msg reason s = (r, s1))"
      using verify_turn_auth_refused(2) v by blast
    then have "\<exists>m. s1 = s\<lparr>nonce_map := m\<rparr> \<and> (hm_wf (nonce_map s) \<longrightarrow> hm_wf m)"
      using create_401_nonces hm.wf_insert by (metis turn_server.surjective turn_server.update_convs(6))
    then show thesis using refused k Inl by auto
  next
    case (Inr name)
    then show thesis
      using granted [of name] v k by (auto simp: verify_turn_auth_accepted split: if_splits)
  qed
qed

section \<open>Every handler keeps the invariant\<close>

lemma srv_inv_nonces: "srv_inv s \<Longrightarrow> hm_wf m \<Longrightarrow> srv_inv (s\<lparr>nonce_map := m\<rparr>)"
  by (simp add: srv_inv_def)

lemma with_auth_inv:
  assumes "with_auth c e msg client s k = Returns (s', effs, resp)" and "srv_inv s"
    and "\<And>name. k name s = Returns (s', effs, resp) \<Longrightarrow> srv_inv s'"
  shows "srv_inv s'"
  using assms(1)
proof (cases rule: with_auth_cases)
  case (refused m)
  then show ?thesis using srv_inv_nonces assms(2) srv_invD(3) by blast
qed (use assms(3) in blast)

lemma no_allocation_left:
  assumes inv: "srv_inv s" and k: "find_allocation_by_client (alloc s) client = Some k"
  shows "find_allocation_by_client (alloc (remove_client_allocation k s)) client = None"
proof (rule ccontr)
  let ?s = "remove_client_allocation k s"
  assume "find_allocation_by_client (alloc ?s) client \<noteq> None"
  then obtain k' where "find_allocation_by_client (alloc ?s) client = Some k'" by auto
  then obtain a' where a': "hm_get (allocations (alloc ?s)) k' = Some a'" "client_addr a' = client"
    by (rule find_client_Some [OF srv_invD(1) [OF remove_client_allocation_inv [OF inv]]])
  obtain a where "hm_get (allocations (alloc s)) k = Some a" "client_addr a = client"
    by (rule find_client_Some [OF srv_invD(1) [OF inv] k])
  then show False
    using a' srv_invD(4) [OF inv] unfolding get_remove_client_allocation clients_unique_def
    by (metis option.distinct(1))
qed

lemma remove_existing_inv:
  assumes "srv_inv s"
  shows "srv_inv (remove_existing client s)" and "find_allocation_by_client (alloc (remove_existing client s)) client = None"
  using assms remove_client_allocation_inv [OF assms] no_allocation_left [OF assms]
  by (auto simp: remove_existing_def split: option.split)

lemma remove_existing_fields [simp]:
  "nonce_map (remove_existing client s) = nonce_map s"
  "auth (remove_existing client s) = auth s"
  "auth_disabled (remove_existing client s) = auth_disabled s"
  "srv_password (remove_existing client s) = srv_password s"
  "srv_realm (remove_existing client s) = srv_realm s"
  "server_name (remove_existing client s) = server_name s"
  by (simp_all add: remove_existing_def split: option.split)

text \<open>The branches of an Allocate request.\<close>

lemma handle_allocate_cases:
  assumes "handle_allocate c e msg client s = Returns (s', effs, resp)"
  obtains (refused) m where "s' = s\<lparr>nonce_map := m\<rparr>" "effs = []" "hm_wf (nonce_map s) \<Longrightarrow> hm_wf m"
  | (failed) life err t where "get_lifetime msg = Returns life"
      "create_allocation e client (Some life) (alloc (remove_existing client s)) = Returns (Inl err, t)"
      "s' = (remove_existing client s)\<lparr>alloc := t\<rparr>" "effs = []"
      "resp = Some (create_error_response_bytes_with_reason msg (fst (allocate_error err)) (snd (allocate_error err)) s')"
  | (created) name life a t response where "auth_disabled s \<or> authorised c e msg client s name"
      "get_lifetime msg = Returns life"
      "create_allocation e client (Some life) (alloc (remove_existing client s)) = Returns (Inr a, t)"
      "s' = (remove_existing client s)\<lparr>alloc := t\<rparr>" "effs = []"
      "sign_response c e name s' (allocate_response msg client (relayed_addr a) life s') = Returns response"
      "resp = Some (message_encode response)"
  using assms unfolding handle_allocate_def
proof (cases rule: with_auth_cases)
  case (granted name)
  let ?s2 = "remove_existing client s"
  from granted(2) obtain life res t where life: "get_lifetime msg = Returns life"
    and c: "create_allocation e client (Some life) (alloc ?s2) = Returns (res, t)"
    and r: "(case res of
                Inl err \<Rightarrow>
                  (case allocate_error err of (err_code, reason) \<Rightarrow>
                     Returns (?s2\<lparr>alloc := t\<rparr>, [], Some (create_error_response_bytes_with_reason msg err_code reason (?s2\<lparr>alloc := t\<rparr>))))
              | Inr a \<Rightarrow>
                  rbind (sign_response c e name (?s2\<lparr>alloc := t\<rparr>) (allocate_response msg client (relayed_addr a) life (?s2\<lparr>alloc := t\<rparr>)))
                    (\<lambda>response. Returns (?s2\<lparr>alloc := t\<rparr>, [], Some (message_encode response)))) = Returns (s', effs, resp)"
    by (auto simp: rust_simps Let_def)
  show thesis
  proof (cases res)
    case (Inl err)
    then show thesis using failed [of life err t] life c r by (auto simp: case_prod_beta)
  next
    case (Inr a)
    then show thesis using created [OF granted(1) life, of a t] c r by (auto simp: rust_simps)
  qed
qed (rule refused)

lemma handle_allocate_inv:
  assumes "handle_allocate c e msg client s = Returns (s', effs, resp)" and inv: "srv_inv s"
  shows "srv_inv s'"
  using assms(1)
proof (cases rule: handle_allocate_cases)
  case (refused m)
  then show ?thesis using srv_inv_nonces inv srv_invD(3) by blast
next
  case (failed life err t)
  then show ?thesis using create_allocation_srv_inv [OF remove_existing_inv [OF inv] failed(2)] by simp
next
  case (created name life a t response)
  then show ?thesis using create_allocation_srv_inv [OF remove_existing_inv [OF inv] created(3)] by simp
qed

lemma handle_refresh_inv:
  assumes "handle_refresh c e msg client s = Returns (s', effs, resp)" and inv: "srv_inv s"
  shows "srv_inv s'"
  using assms(1) unfolding handle_refresh_def
proof (rule with_auth_inv [OF _ inv], goal_cases)
  case (1 name)
  show ?case
  proof (cases "find_allocation_by_client (alloc s) client")
    case None
    then show ?thesis using 1 inv by (auto simp: rust_simps)
  next
    case (Some k)
    obtain life where l: "get_lifetime msg = Returns life" using 1 by (auto simp: rust_simps)
    obtain res t where t: "refresh_allocation k life (alloc s) = (res, t)" by fastforce
    then have "srv_inv (s\<lparr>alloc := t\<rparr>)"
      using srv_inv_same [OF inv refresh_allocation_same [OF table_invD(1) [OF srv_invD(1) [OF inv]], of k life]] by simp
    then show ?thesis
      using 1 Some l t remove_client_allocation_inv [OF inv, of k]
      by (cases "life = 0"; cases res) (auto simp: rust_simps)
  qed
qed

lemma handle_create_permission_inv:
  assumes "handle_create_permission c e msg client s = Returns (s', effs, resp)" and inv: "srv_inv s"
  shows "srv_inv s'"
  using assms(1) unfolding handle_create_permission_def
proof (rule with_auth_inv [OF _ inv], goal_cases)
  case (1 name)
  obtain added t where t: "add_permissions client (peers_of msg) (alloc s) = (added, t)" by fastforce
  then have "srv_inv (s\<lparr>alloc := t\<rparr>)"
    using srv_inv_same [OF inv add_permissions_same [OF table_invD(1) [OF srv_invD(1) [OF inv]], of client "peers_of msg"]] by simp
  then show ?case
    using 1 t inv by (cases "find_allocation_by_client (alloc s) client") (auto simp: rust_simps Let_def split: if_splits)
qed

lemma get_by_channel_bind:
  "get_by_channel (snd (ch_bind t0 ch peer relayed ct)) r ch' \<noteq> None \<Longrightarrow>
     r = relayed \<or> get_by_channel ct r ch' \<noteq> None"
  by (auto simp: ch_bind_def get_by_channel_def Let_def hm.get_insert split: option.splits if_splits)

lemma ch_bind_inv:
  assumes inv: "srv_inv s" and k: "find_allocation_by_client (alloc s) client = Some k"
  shows "srv_inv (s\<lparr>chans := snd (ch_bind t0 ch peer k (chans s))\<rparr>)"
proof -
  obtain a where "hm_get (allocations (alloc s)) k = Some a"
    by (rule find_client_Some [OF srv_invD(1) [OF inv] k])
  then have "channels_live (alloc s) (snd (ch_bind t0 ch peer k (chans s)))"
    using srv_invD(5) [OF inv] get_by_channel_bind unfolding channels_live_def by fastforce
  then show ?thesis
    using inv by (simp add: srv_inv_def ct_wf_bind)
qed

lemma handle_channel_bind_cases:
  assumes "handle_channel_bind c e msg client s = Returns (s', effs, resp)"
  obtains (refused) m where "s' = s\<lparr>nonce_map := m\<rparr>" "effs = []" "hm_wf (nonce_map s) \<Longrightarrow> hm_wf m"
  | (ignored) "s' = s" "effs = []"
  | (bound) k n peer res ct where "find_allocation_by_client (alloc s) client = Some k"
      "ch_bind (now e) n peer k (chans s) = (res, ct)" "s' = s\<lparr>chans := ct\<rparr>" "effs = []"
  using assms unfolding handle_channel_bind_def
proof (cases rule: with_auth_cases)
  case (granted name)
  show thesis
  proof (cases "s' = s \<and> effs = []")
    case False
    then obtain k pa ca where at: "find_allocation_by_client (alloc s) client = Some k"
        "get_attribute msg PEER_ADDRESS = Some pa" "get_attribute msg CHANNEL_NUMBER = Some ca"
      using granted(2) by (auto split: option.splits)
    obtain n where n: "channel_number_of ca = Returns n" using granted(2) at by (auto simp: rust_simps Let_def)
    let ?p = "case decode_xor_address (attr_value pa) 0x2112A442 of Some p \<Rightarrow> p | None \<Rightarrow> SocketV4 (Ipv4 0 0 0 0) 0"
    obtain res ct where b: "ch_bind (now e) n ?p k (chans s) = (res, ct)" by fastforce
    have "s' = s\<lparr>chans := ct\<rparr> \<and> effs = []"
      using granted(2) at n b by (cases res) (auto simp: rust_simps Let_def)
    then show thesis using bound [OF at(1) b] by simp
  qed (use ignored in simp)
qed (rule refused)

lemma handle_channel_bind_inv:
  assumes "handle_channel_bind c e msg client s = Returns (s', effs, resp)" and inv: "srv_inv s"
  shows "srv_inv s'"
  using assms(1)
proof (cases rule: handle_channel_bind_cases)
  case (refused m)
  then show ?thesis using srv_inv_nonces inv srv_invD(3) by blast
next
  case (bound k n peer res ct)
  then show ?thesis using ch_bind_inv [OF inv bound(1), of "now e" n peer] by simp
qed (use inv in simp)

text \<open>A Send indication either does nothing or is one call of \<open>send_to_peer\<close>.\<close>

lemma handle_send_cases:
  assumes "handle_send e msg client s = Returns (s', effs, resp)"
  obtains (dropped) "s' = s" "effs = []"
  | (sent) peer data where "s' = s\<lparr>alloc := fst (snd (send_to_peer e client peer data (alloc s)))\<rparr>"
      "effs = snd (snd (send_to_peer e client peer data (alloc s)))"
proof (cases "s' = s \<and> effs = []")
  case False
  then obtain pa p da where at: "get_attribute msg PEER_ADDRESS = Some pa"
      "decode_xor_address (attr_value pa) 0x2112A442 = Some p" "get_attribute msg DATA = Some da"
    using assms by (auto simp: handle_send_def split: if_splits option.splits)
  show thesis
    using sent [of p "attr_value da"] assms at False
    by (auto simp: handle_send_def case_prod_beta split: if_splits)
qed (use dropped in blast)

lemma handle_send_inv:
  assumes "handle_send e msg client s = Returns (s', effs, resp)" and inv: "srv_inv s"
  shows "srv_inv s'"
  using assms(1)
proof (cases rule: handle_send_cases)
  case (sent peer data)
  then show ?thesis
    using srv_inv_same [OF inv send_to_peer_same [OF table_invD(1) [OF srv_invD(1) [OF inv]]]] by simp
qed (use inv in simp)

lemma process_message_inv:
  assumes "process_message c e msg client s = Returns (s', effs, resp)" and "srv_inv s"
  shows "srv_inv s'"
  using assms handle_allocate_inv handle_refresh_inv handle_create_permission_inv handle_channel_bind_inv
    handle_send_inv
  by (auto simp: process_message_def handle_binding_def split: if_splits stun_method.splits)

lemma handle_tcp_message_inv:
  "handle_tcp_message c e data client s = Returns (s', effs, resp) \<Longrightarrow> srv_inv s \<Longrightarrow> srv_inv s'"
  by (auto simp: handle_tcp_message_def dest: process_message_inv split: if_splits option.splits)

lemma handle_udp_message_inv:
  "handle_udp_message c e data client s = Returns (s', effs, resp) \<Longrightarrow> srv_inv s \<Longrightarrow> srv_inv s'"
  by (auto simp: handle_udp_message_def dest: process_message_inv split: if_splits option.splits)

section \<open>The background tasks keep the invariant\<close>

lemma cleanup_expired_entries:
  assumes "ct_wf c" and "cleanup_expired t0 t (Some c) = (n, t', ct')"
  shows "\<exists>ks c'. ct' = Some c' \<and> ct_wf c' \<and>
    (\<forall>k. hm_get (allocations t') k = (if k \<in> ks then None else hm_get (allocations t) k)) \<and>
    (\<forall>r ch. get_by_channel c' r ch =
       (if r \<in> ks \<and> hm_get (allocations t) r \<noteq> None then None else get_by_channel c r ch))"
proof -
  let ?ks = "map fst (filter (\<lambda>(k, a). is_expired t0 a) (allocations t))"
  obtain m u cu where run: "drop_expired ?ks 0 t (Some c) = (m, u, cu)" by (cases "drop_expired ?ks 0 t (Some c)")
  have t': "allocations t' = allocations u" and "ct' = cu"
    using assms(2) run by (auto simp: cleanup_expired_def Let_def split: if_splits)
  then show ?thesis
    using channels_drop_expired [OF run assms(1)] get_drop_expired [OF run]
    by (intro exI [of _ "set ?ks"]) auto
qed

lemma allocation_cleanup_inv:
  assumes inv: "srv_inv s"
  shows "srv_inv (snd (allocation_cleanup t0 s))"
proof -
  obtain n t ct where run: "cleanup_expired t0 (alloc s) (Some (chans s)) = (n, t, ct)"
    by (cases "cleanup_expired t0 (alloc s) (Some (chans s))")
  from cleanup_expired_entries [OF srv_invD(2) [OF inv] run]
  obtain ks c' where c': "ct = Some c'" "ct_wf c'"
    and k: "\<And>k. hm_get (allocations t) k = (if k \<in> ks then None else hm_get (allocations (alloc s)) k)"
    and ch: "\<And>r ch. get_by_channel c' r ch =
      (if r \<in> ks \<and> hm_get (allocations (alloc s)) r \<noteq> None then None else get_by_channel (chans s) r ch)"
    by blast
  have "clients_unique t"
    using srv_invD(4) [OF inv] unfolding clients_unique_def k by (auto split: if_splits)
  moreover have "channels_live t c'"
    using srv_invD(5) [OF inv] unfolding channels_live_def k ch
    by (auto split: if_splits) (metis not_None_eq)
  moreover have "table_inv 0 t"
    using cleanup_expired_inv [OF srv_invD(1) [OF inv], of t0 "Some (chans s)"] run by simp
  ultimately show ?thesis
    using inv c' run by (simp add: allocation_cleanup_def srv_inv_def)
qed

lemma nonce_cleanup_inv: "srv_inv s \<Longrightarrow> srv_inv (snd (nonce_cleanup t0 s))"
  by (simp add: nonce_cleanup_def Let_def srv_inv_def hm.wf_retain)

lemma channel_cleanup_inv:
  assumes inv: "srv_inv s"
  shows "srv_inv (snd (channel_cleanup t0 s))"
proof -
  let ?ct = "snd (channels_cleanup_expired t0 (chans s))"
  have "get_by_channel ?ct r ch \<noteq> None \<Longrightarrow> get_by_channel (chans s) r ch \<noteq> None" for r ch
    by (auto simp: channels_cleanup_expired_def Let_def get_by_channel_def
        hm.get_retain_Some [OF ct_wfD(1) [OF srv_invD(2) [OF inv]]])
  then have "channels_live (alloc s) ?ct"
    using srv_invD(5) [OF inv] unfolding channels_live_def by blast
  then show ?thesis
    using inv by (simp add: channel_cleanup_def srv_inv_def ct_wf_cleanup case_prod_beta)
qed

lemma srv_inv_new:
  assumes "lo \<le> hi" and "unat hi - unat lo < 65535"
  shows "srv_inv (with_port_range_limits_bind_address_and_password t0 name relay_ip bind_ip rlm lo hi max_conc max_dur pw disabled)"
  using table_inv_new [OF assms, of t0 relay_ip bind_ip rlm max_conc max_dur]
  by (simp add: with_port_range_limits_bind_address_and_password_def turn_server_with_def srv_inv_def
      clients_unique_def channels_live_def channel_table_new_def get_by_channel_def with_port_range_and_bind_addr_def)
     (simp add: channel_table_new_def [symmetric])

section \<open>Sample states\<close>

text \<open>A toy cipher suite, a server with authentication, an open one, and the open one after a
  client's Allocate request: the concrete inputs on which properties are instantiated.\<close>

definition sample_crypto :: crypto where
  "sample_crypto = \<lparr>hmac_sha1 = (\<lambda>k m. take 20 (k @ m @ replicate 20 0)), md5 = (\<lambda>m. take 16 (m @ replicate 16 0)),
     hex_encode = (\<lambda>bs. concat (map (\<lambda>b. [hex_char (unat b div 16), hex_char (unat b mod 16)]) bs))\<rparr>"

definition sample_client :: socket_addr where
  "sample_client = SocketV4 (Ipv4 10 0 0 1) 1000"

definition sample_server :: turn_server where
  "sample_server = with_port_range_limits_bind_address_and_password 0 ''miuturn'' (Ipv4 203 0 113 1) (Ipv4 0 0 0 0)
     ''realm'' 50000 50003 (Some 2) (Some 300) ''secret'' False"

definition sample_request :: "stun_method \<Rightarrow> attribute list \<Rightarrow> message" where
  "sample_request m attrs =
     \<lparr>header = \<lparr>hdr_method = m, hdr_event_type = Request, message_length = 0, magic_cookie = 0x2112A442,
        transaction_id = replicate 12 7\<rparr>, attributes = attrs\<rparr>"

definition open_server :: turn_server where
  "open_server = sample_server\<lparr>auth_disabled := True\<rparr>"

definition busy_server :: turn_server where
  "busy_server = (case create_allocation sample_env sample_client (Some 600) (alloc open_server) of
     Returns (_, t) \<Rightarrow> open_server\<lparr>alloc := t\<rparr> | Panics \<Rightarrow> open_server)"

lemma sample_server_inv: "srv_inv sample_server" "srv_inv open_server"
proof -
  show s: "srv_inv sample_server"
    unfolding sample_server_def by (rule srv_inv_new) (simp_all add: word_le_nat_alt)
  then show "srv_inv open_server" by (simp add: open_server_def srv_inv_def)
qed

lemma sample_server_fields [simp]:
  "auth_disabled sample_server = False" "auth sample_server = None" "nonce_map sample_server = []"
  "srv_password sample_server = ''secret''" "srv_realm sample_server = ''realm''" "turn_enabled sample_server = True"
  "stun_enabled sample_server = True" "server_name sample_server = ''miuturn''"
  "alloc sample_server = with_port_range_and_bind_addr 0 (Ipv4 203 0 113 1) (Ipv4 0 0 0 0) ''realm'' 50000 50003 (Some 2) (Some 300)"
  "chans sample_server = channel_table_new"
  by (simp_all add: sample_server_def with_port_range_limits_bind_address_and_password_def turn_server_with_def)

lemma open_server_fields [simp]:
  "auth_disabled open_server = True" "alloc open_server = alloc sample_server" "turn_enabled open_server = True"
  "chans open_server = channel_table_new" "srv_realm open_server = ''realm''" "server_name open_server = ''miuturn''"
  by (simp_all add: open_server_def)

lemma open_server_free:
  "find_allocation_by_client (alloc sample_server) client = None"
  "used_ports (port_alloc (alloc sample_server)) \<noteq> port_range (port_alloc (alloc sample_server))"
proof -
  have "used_ports (port_allocator_new 50000 50003) = {}"
    by (rule pa_wf_new) (simp_all add: word_le_nat_alt)
  moreover have "50000 \<in> port_range (port_allocator_new 50000 50003)"
    by (simp add: port_range_def port_allocator_new_def word_le_nat_alt)
  ultimately show "used_ports (port_alloc (alloc sample_server)) \<noteq> port_range (port_alloc (alloc sample_server))"
    by (auto simp: with_port_range_and_bind_addr_def)
qed (simp add: find_allocation_by_client_def with_port_range_and_bind_addr_def hm_values_def)

lemma busy_server_facts:
  shows "srv_inv busy_server" and "auth_disabled busy_server"
    and "\<exists>k. find_allocation_by_client (alloc busy_server) sample_client = Some k"
proof -
  have "\<exists>a t. create_allocation sample_env sample_client (Some 600) (alloc sample_server) = Returns (Inr a, t)"
    by (rule create_allocation_succeeds [OF srv_invD(1) [OF sample_server_inv(1)] _ open_server_free(2), of 0])
       (simp_all add: with_port_range_and_bind_addr_def MAX_ATTEMPTS_def sample_env_def)
  then obtain a t where run: "create_allocation sample_env sample_client (Some 600) (alloc sample_server) = Returns (Inr a, t)"
    by blast
  then have b: "busy_server = open_server\<lparr>alloc := t\<rparr>" by (simp add: busy_server_def del: sample_server_fields)
  show "srv_inv busy_server"
    unfolding b by (rule create_allocation_srv_inv [OF sample_server_inv(2)]) (use run open_server_free in \<open>simp_all del: sample_server_fields\<close>)
  show "auth_disabled busy_server" by (simp add: b)
  have "hm_get (allocations t) (relayed_addr a) = Some a \<and> client_addr a = sample_client"
    by (rule create_allocation_entries [OF srv_invD(1) [OF sample_server_inv(1)], of sample_env sample_client "Some 600"])
       (use run in auto)
  then show "\<exists>k. find_allocation_by_client (alloc busy_server) sample_client = Some k"
    using find_client_None [OF srv_invD(1) [OF \<open>srv_inv busy_server\<close>]] b by (metis not_None_eq turn_server.select_convs(1) turn_server.surjective turn_server.update_convs(1))
qed

section \<open>What authentication protects\<close>

lemma with_auth_unauthorised:
  assumes "with_auth c e msg client s k = Returns (s', effs, resp)" and "\<not> auth_disabled s"
    and "\<not> (\<exists>name. authorised c e msg client s name)"
  shows "alloc s' = alloc s \<and> chans s' = chans s \<and> effs = []"
  using assms(1) by (cases rule: with_auth_cases) (use assms(2,3) in auto)

lemma send_to_peer_permissions:
  assumes "hm_wf (allocations t)"
  shows "map_option permissions (hm_get (allocations (fst (snd (send_to_peer e client peer data t)))) k) =
    map_option permissions (hm_get (allocations t) k)"
  using find_entry(1) [OF assms] by (auto simp: send_to_peer_def hm.get_insert split: option.split)

text \<open>C1. No request changes the allocations or the channel bindings without credentials. When
  authentication is on and the message is not authorised (address admitted by the access list,
  known nonce at most 600 s old, known user, valid MESSAGE-INTEGRITY under that user's key), then
  whatever its method, the channel table is unchanged, nothing is sent to a peer and, for every
  method but Send, the allocation table is unchanged. A Send indication, which carries no
  credentials, leaves relays, owners and permissions of all allocations as they are.\<close>

theorem unauthorised_changes_nothing:
  assumes "hm_wf (allocations (alloc s))"
    and "process_message c e msg client s = Returns (s', effs, resp)" and "\<not> auth_disabled s"
    and "\<not> (\<exists>name. authorised c e msg client s name)"
  shows "chans s' = chans s \<and>
    (if hdr_method (header msg) = Send
     then same_relays (alloc s) (alloc s') \<and>
       (\<forall>k. map_option permissions (hm_get (allocations (alloc s')) k) =
            map_option permissions (hm_get (allocations (alloc s)) k))
     else alloc s' = alloc s \<and> effs = [])"
proof (cases "hdr_method (header msg) = Send")
  case True
  show ?thesis
  proof (cases "turn_enabled s")
    case on: True
    then have "handle_send e msg client s = Returns (s', effs, resp)"
      using assms(2) True by (simp add: process_message_def)
    then show ?thesis
      by (cases rule: handle_send_cases)
         (simp_all add: True same_relays_refl send_to_peer_same send_to_peer_permissions assms(1))
  qed (use assms(1,2) True in \<open>simp add: process_message_def same_relays_refl\<close>)
next
  case False
  then show ?thesis
    using assms(2) with_auth_unauthorised [OF _ assms(3,4)]
    by (auto simp: process_message_def handle_binding_def handle_allocate_def handle_refresh_def
        handle_create_permission_def handle_channel_bind_def split: if_splits stun_method.splits)
qed

lemma sample_unauthorised: "\<not> authorised sample_crypto sample_env (sample_request m []) client s name"
  by (simp add: authorised_def sample_request_def get_attribute_def)

theorem unauthorised_changes_nothing_witness:
  "\<exists>s' resp. process_message sample_crypto sample_env (sample_request Allocate []) sample_client sample_server =
     Returns (s', [], Some resp) \<and> alloc s' = alloc sample_server \<and> chans s' = chans sample_server"
proof -
  obtain r s' where r: "create_401_response sample_crypto sample_env (sample_request Allocate []) None sample_server = (r, s')"
    by fastforce
  have run: "process_message sample_crypto sample_env (sample_request Allocate []) sample_client sample_server =
      Returns (s', [], Some r)"
    by (simp add: process_message_def handle_allocate_def with_auth_def verify_turn_auth_def sample_request_def
        get_attribute_def r [unfolded sample_request_def])
  show ?thesis
    using unauthorised_changes_nothing [OF table_invD(1) [OF srv_invD(1) [OF sample_server_inv(1)]] run] run
      sample_unauthorised [of Allocate sample_client sample_server]
    by (simp add: sample_request_def)
qed

section \<open>Where relayed data goes\<close>

lemma find_values:
  "find (\<lambda>(k, a). P a) m = Some (k, a) \<Longrightarrow> find P (map snd m) = Some a"
  by (induction m) (auto split: if_splits)

lemma send_to_peer_effect:
  assumes "eff \<in> set (snd (snd (send_to_peer e client peer data t)))"
  obtains a r where "get_allocation_by_client t client = Some a" and "relay a = Some r"
    and "sock_ip peer \<in> permissions a" and "eff = ToPeer (relay_socket r) peer data"
  using assms find_values [of "\<lambda>a. client_addr a = client" "allocations t"]
  by (auto simp: send_to_peer_def get_allocation_by_client_def hm_values_def split: option.splits if_splits)

lemma handle_channel_data_effect:
  assumes "eff \<in> set (handle_channel_data e data client s)"
  obtains a r ch b payload where "get_allocation_by_client (alloc s) client = Some a" and "relay a = Some r"
    and "get_by_channel (chans s) (relayed_addr a) ch = Some b"
    and "eff = ToPeer (relay_socket r) (peer_addr b) payload"
proof -
  let ?a = "get_allocation_by_client (alloc s) client" and ?ch = "be16 (data ! 0) (data ! 1)"
  obtain a where a: "?a = Some a"
    using assms by (cases ?a) (auto simp: handle_channel_data_def split: if_splits)
  obtain b where b: "get_by_channel (chans s) (relayed_addr a) ?ch = Some b"
    using assms a by (cases "get_by_channel (chans s) (relayed_addr a) ?ch")
      (auto simp: handle_channel_data_def Let_def split: if_splits)
  obtain r where r: "relay a = Some r"
    using assms a b by (cases "relay a") (auto simp: handle_channel_data_def Let_def split: if_splits)
  show thesis
    by (rule that [OF a r b]) (use assms a b r in \<open>auto simp: handle_channel_data_def Let_def split: if_splits\<close>)
qed

lemma with_auth_effects:
  assumes "with_auth c e msg client s k = Returns (s', effs, resp)"
    and "\<And>name. k name s = Returns (s', effs, resp) \<Longrightarrow> effs = []"
  shows "effs = []"
  using assms(1) by (cases rule: with_auth_cases) (use assms(2) in blast)+

lemma handle_allocate_effects: "handle_allocate c e msg client s = Returns (s', effs, resp) \<Longrightarrow> effs = []"
  by (erule handle_allocate_cases)

lemma handle_refresh_effects: "handle_refresh c e msg client s = Returns (s', effs, resp) \<Longrightarrow> effs = []"
  unfolding handle_refresh_def
  by (erule with_auth_effects)
     (cases "find_allocation_by_client (alloc s) client"; auto simp: rust_simps case_prod_beta Let_def split: if_splits)

lemma handle_create_permission_effects:
  "handle_create_permission c e msg client s = Returns (s', effs, resp) \<Longrightarrow> effs = []"
  unfolding handle_create_permission_def
  by (erule with_auth_effects)
     (cases "find_allocation_by_client (alloc s) client"; auto simp: rust_simps case_prod_beta Let_def split: if_splits)

lemma handle_channel_bind_effects:
  "handle_channel_bind c e msg client s = Returns (s', effs, resp) \<Longrightarrow> effs = []"
  by (erule handle_channel_bind_cases)

lemma process_message_effect:
  assumes "process_message c e msg client s = Returns (s', effs, resp)" and "eff \<in> set effs"
  obtains a r peer payload where "get_allocation_by_client (alloc s) client = Some a" and "relay a = Some r"
    and "sock_ip peer \<in> permissions a" and "eff = ToPeer (relay_socket r) peer payload"
proof -
  have "handle_send e msg client s = Returns (s', effs, resp)"
    using assms handle_allocate_effects handle_refresh_effects handle_create_permission_effects
      handle_channel_bind_effects
    by (fastforce simp: process_message_def handle_binding_def split: if_splits stun_method.splits)
  then show thesis
  proof (cases rule: handle_send_cases)
    case (sent peer data)
    then show thesis using assms(2) send_to_peer_effect that by metis
  qed (use assms(2) in simp)
qed

text \<open>C3. Nothing leaves through somebody else's relay, and nothing reaches a peer the owner has
  not asked for: every packet that a datagram from a client makes the server send goes out of
  the relay socket of that client's own allocation, to a peer whose IP address the allocation
  permits or to the peer that one of the allocation's own channels is bound to.\<close>

theorem relayed_only_to_allowed_peers:
  assumes "handle_udp_message c e data client s = Returns (s', effs, resp)" and "eff \<in> set effs"
  shows "\<exists>a r peer payload. get_allocation_by_client (alloc s) client = Some a \<and> relay a = Some r \<and>
    eff = ToPeer (relay_socket r) peer payload \<and>
    (sock_ip peer \<in> permissions a \<or>
     (\<exists>ch b. get_by_channel (chans s) (relayed_addr a) ch = Some b \<and> peer_addr b = peer))"
proof (cases "is_channel_data_frame data")
  case True
  then have "eff \<in> set (handle_channel_data e data client s)"
    using assms by (auto simp: handle_udp_message_def split: if_splits)
  then show ?thesis by (rule handle_channel_data_effect) blast
next
  case False
  then obtain msg where "process_message c e msg client s = Returns (s', effs, resp)"
    using assms by (auto simp: handle_udp_message_def split: if_splits option.splits)
  then show ?thesis by (rule process_message_effect [OF _ assms(2)]) blast
qed

theorem relayed_only_to_allowed_peers_witness:
  "\<exists>a r peer payload. get_allocation_by_client (sample_table\<lparr>allocations :=
       [(SocketV4 (Ipv4 203 0 113 1) 50000, relayed_allocation)]\<rparr>) sample_client = Some a \<and> relay a = Some r \<and>
     ToPeer (SocketV4 (Ipv4 0 0 0 0) 50000) (SocketV4 (Ipv4 9 9 9 9) 53) [1, 2] = ToPeer (relay_socket r) peer payload \<and>
     (sock_ip peer \<in> permissions a \<or>
      (\<exists>ch b. get_by_channel (snd (ch_bind 0 0x4001 (SocketV4 (Ipv4 9 9 9 9) 53)
          (SocketV4 (Ipv4 203 0 113 1) 50000) channel_table_new)) (relayed_addr a) ch = Some b \<and> peer_addr b = peer))"
proof -
  let ?s = "sample_server\<lparr>alloc := sample_table\<lparr>allocations := [(SocketV4 (Ipv4 203 0 113 1) 50000, relayed_allocation)]\<rparr>,
    chans := snd (ch_bind 0 0x4001 (SocketV4 (Ipv4 9 9 9 9) 53) (SocketV4 (Ipv4 203 0 113 1) 50000) channel_table_new)\<rparr>"
  have "handle_udp_message sample_crypto sample_env [0x40, 0x01, 0, 2, 1, 2, 0, 0] sample_client ?s =
      Returns (?s, [ToPeer (SocketV4 (Ipv4 0 0 0 0) 50000) (SocketV4 (Ipv4 9 9 9 9) 53) [1, 2]], None)"
    by (simp add: handle_udp_message_def is_channel_data_frame_def is_channel_number_nat handle_channel_data_def be16_def
        get_allocation_by_client_def hm_values_def relayed_allocation_def sample_allocation_def allocation_new_def
        sample_client_def ch_bind_def channel_table_new_def get_by_channel_def hm_get_def hm_insert_def
        sample_env_def slice_bytes_def)
  from relayed_only_to_allowed_peers [OF this] show ?thesis by simp
qed

section \<open>Refresh and CreatePermission\<close>

lemma with_auth_granted:
  assumes "auth_disabled s \<or> (\<exists>name. authorised c e msg client s name)"
  obtains name where "\<And>k. with_auth c e msg client s k = k name s" and "auth_disabled s \<or> authorised c e msg client s name"
proof -
  obtain name where "verify_turn_auth c e msg client s = Returns (Inr name, s)"
      and "auth_disabled s \<or> authorised c e msg client s name"
    using assms by (cases "auth_disabled s") (auto simp: verify_turn_auth_accepted)
  then show thesis using that [of name] by (simp add: with_auth_def)
qed

text \<open>C14. An authenticated Refresh with lifetime zero deletes the client's allocation at once: the
  client has none left, its relay port is free again, every channel bound on it is gone, and the
  allocations and channels of the others are untouched.\<close>

theorem refresh_zero_deletes:
  assumes "srv_inv s" and "find_allocation_by_client (alloc s) client = Some k"
    and "auth_disabled s \<or> (\<exists>name. authorised c e msg client s name)" and "get_lifetime msg = Returns 0"
    and "handle_refresh c e msg client s = Returns (s', effs, resp)"
  shows "srv_inv s' \<and> find_allocation_by_client (alloc s') client = None \<and>
    sock_port k \<in> used_ports (port_alloc (alloc s)) - used_ports (port_alloc (alloc s')) \<and>
    (\<forall>k'. hm_get (allocations (alloc s')) k' = (if k' = k then None else hm_get (allocations (alloc s)) k')) \<and>
    (\<forall>r ch. get_by_channel (chans s') r ch = (if r = k then None else get_by_channel (chans s) r ch))"
proof -
  obtain name where w: "\<And>k. with_auth c e msg client s k = k name s"
    by (rule with_auth_granted [OF assms(3)]) blast
  have s': "s' = remove_client_allocation k s"
    using assms(5) by (auto simp: handle_refresh_def w assms(2,4) rust_simps)
  have ext: "external_addr (alloc s') = external_addr (alloc s)"
    by (simp add: s' remove_client_allocation_def remove_allocation_def drop_entry_def Let_def split: option.split)
  obtain a where a: "hm_get (allocations (alloc s)) k = Some a"
    by (rule find_client_Some [OF srv_invD(1) [OF assms(1)] assms(2)])
  obtain p where p: "k = SocketV4 (external_addr (alloc s)) p" "p \<in> used_ports (port_alloc (alloc s))"
    by (rule entry_key [OF srv_invD(1) [OF assms(1)] a])
  have "p \<notin> used_ports (port_alloc (alloc s'))"
    using table_invD(4) [OF srv_invD(1) [OF remove_client_allocation_inv [OF assms(1), of k]]] ext p(1)
    by (simp add: s' get_remove_client_allocation)
  then show ?thesis
    using p remove_client_allocation_inv [OF assms(1)] no_allocation_left [OF assms(1,2)]
      get_remove_client_allocation channels_remove_client_allocation [OF assms(1)]
    by (simp add: s')
qed

theorem refresh_zero_deletes_witness:
  "\<exists>s' effs resp. handle_refresh sample_crypto sample_env
       (sample_request Refresh [\<lparr>attr_type = LIFETIME, attr_value = [0, 0, 0, 0]\<rparr>]) sample_client busy_server =
     Returns (s', effs, resp) \<and> find_allocation_by_client (alloc s') sample_client = None"
proof -
  let ?m = "sample_request Refresh [\<lparr>attr_type = LIFETIME, attr_value = [0, 0, 0, 0]\<rparr>]"
  obtain k where k: "find_allocation_by_client (alloc busy_server) sample_client = Some k"
    using busy_server_facts(3) by blast
  have life: "get_lifetime ?m = Returns 0"
    by (simp add: get_lifetime_def sample_request_def get_attribute_def be32_def)
  obtain s' effs resp where run: "handle_refresh sample_crypto sample_env ?m sample_client busy_server = Returns (s', effs, resp)"
    using busy_server_facts(2) k life
    by (auto simp: handle_refresh_def with_auth_def verify_turn_auth_def sign_response_def get_attribute_def sample_request_def
        attribute_types)
  show ?thesis
    using refresh_zero_deletes [OF busy_server_facts(1) k _ life run] busy_server_facts(2) run by blast
qed

lemma add_permissions_found:
  assumes "srv_inv s" and "find_allocation_by_client (alloc s) client = Some k"
  obtains a where "hm_get (allocations (alloc s)) k = Some a"
    and "add_permissions client peers (alloc s) = (True, (alloc s)\<lparr>allocations :=
      hm_insert k (a\<lparr>permissions := permissions a \<union> sock_ip ` set peers\<rparr>) (allocations (alloc s))\<rparr>)"
proof -
  let ?t = "alloc s"
  obtain a where a: "hm_get (allocations ?t) k = Some a" "client_addr a = client"
    by (rule find_client_Some [OF srv_invD(1) [OF assms(1)] assms(2)])
  note wf = table_invD(1) [OF srv_invD(1) [OF assms(1)]]
  have "(k, a) \<in> set (allocations ?t)" using a(1) hm_get_Some_iff [OF wf] by blast
  then obtain k' a' where f: "find (\<lambda>(k, a). client_addr a = client) (allocations ?t) = Some (k', a')"
    using a(2) by (cases "find (\<lambda>(k, a). client_addr a = client) (allocations ?t)") (auto simp: find_None_iff)
  then have "k' = k"
    using find_entry [OF wf f] a srv_invD(4) [OF assms(1)] unfolding clients_unique_def by metis
  then have "a' = a" using find_entry(1) [OF wf f] a(1) by simp
  then show thesis using that [OF a(1)] f \<open>k' = k\<close> by (simp add: add_permissions_def)
qed

text \<open>C15. An authenticated CreatePermission that names at least one decodable peer adds exactly the
  IP addresses of its peers to the permissions of the client's own allocation; every other
  allocation, and all else about this one, stays as it was, and no channel changes.\<close>

theorem create_permission_installs:
  assumes "srv_inv s" and "find_allocation_by_client (alloc s) client = Some k"
    and "auth_disabled s \<or> (\<exists>name. authorised c e msg client s name)" and "peers_of msg \<noteq> []"
    and "handle_create_permission c e msg client s = Returns (s', effs, resp)"
  shows "\<exists>a. hm_get (allocations (alloc s)) k = Some a \<and>
    hm_get (allocations (alloc s')) = (hm_get (allocations (alloc s)))
      (k \<mapsto> a\<lparr>permissions := permissions a \<union> sock_ip ` set (peers_of msg)\<rparr>) \<and>
    chans s' = chans s"
proof -
  obtain a where a: "hm_get (allocations (alloc s)) k = Some a"
    and add: "add_permissions client (peers_of msg) (alloc s) = (True, (alloc s)\<lparr>allocations :=
      hm_insert k (a\<lparr>permissions := permissions a \<union> sock_ip ` set (peers_of msg)\<rparr>) (allocations (alloc s))\<rparr>)"
    by (rule add_permissions_found [OF assms(1,2)])
  obtain name where w: "\<And>k. with_auth c e msg client s k = k name s"
    by (rule with_auth_granted [OF assms(3)]) blast
  have "s' = s\<lparr>alloc := (alloc s)\<lparr>allocations :=
      hm_insert k (a\<lparr>permissions := permissions a \<union> sock_ip ` set (peers_of msg)\<rparr>) (allocations (alloc s))\<rparr>\<rparr>"
    using assms(5) by (auto simp: handle_create_permission_def w assms(2,4) add rust_simps Let_def)
  then show ?thesis using a by (simp add: hm.get_insert)
qed

theorem create_permission_installs_witness:
  "\<exists>s' effs resp a k. handle_create_permission sample_crypto sample_env
       (sample_request CreatePermission [\<lparr>attr_type = PEER_ADDRESS,
          attr_value = encode_xor_address (SocketV4 (Ipv4 8 8 8 8) 53) 0x2112A442\<rparr>]) sample_client busy_server =
     Returns (s', effs, resp) \<and> hm_get (allocations (alloc s')) k = Some a \<and> IpV4 (Ipv4 8 8 8 8) \<in> permissions a"
proof -
  define m where "m = sample_request CreatePermission [\<lparr>attr_type = PEER_ADDRESS,
    attr_value = encode_xor_address (SocketV4 (Ipv4 8 8 8 8) 53) 0x2112A442\<rparr>]"
  obtain k where k: "find_allocation_by_client (alloc busy_server) sample_client = Some k"
    using busy_server_facts(3) by blast
  have peers: "peers_of m = [SocketV4 (Ipv4 8 8 8 8) 53]"
    by (simp add: m_def peers_of_def sample_request_def List.map_filter_def del: encode_xor_address.simps)
  obtain a where add: "add_permissions sample_client (peers_of m) (alloc busy_server) = (True, (alloc busy_server)\<lparr>allocations :=
      hm_insert k (a\<lparr>permissions := permissions a \<union> sock_ip ` set (peers_of m)\<rparr>) (allocations (alloc busy_server))\<rparr>)"
    by (rule add_permissions_found [OF busy_server_facts(1) k])
  obtain name where w: "\<And>k. with_auth sample_crypto sample_env m sample_client busy_server k = k name busy_server"
    using with_auth_granted busy_server_facts(2) by metis
  obtain s' effs resp where run:
      "handle_create_permission sample_crypto sample_env m sample_client busy_server = Returns (s', effs, resp)"
    using busy_server_facts(2) k peers add by (simp add: handle_create_permission_def w sign_response_def Let_def)
  from create_permission_installs [OF busy_server_facts(1) k _ _ run] busy_server_facts(2) peers
  obtain b where "hm_get (allocations (alloc s')) k = Some (b\<lparr>permissions := permissions b \<union> {IpV4 (Ipv4 8 8 8 8)}\<rparr>)"
    by auto
  then show ?thesis using run unfolding m_def by fastforce
qed

end
