(* ===== verification/Server_Protocol.thy ===== *)
theory Server_Protocol
  imports Server_Safety
begin

text \<open>
  The protocol that a client sees, over the handlers of \<open>src/server.rs\<close>: signing and
  verifying messages, the challenge and the authenticated request that answers it, the reply
  to Allocate, and which messages make a handler panic. What is used of HMAC-SHA1 is that its
  output has 20 bytes, and of the hexadecimal printer that it prints ASCII.
\<close>

section \<open>MESSAGE-INTEGRITY\<close>

lemma integrity_input_canon [simp]: "integrity_input (header (canon m)) attrs = integrity_input (header m) attrs"
  by (simp add: integrity_input_def canon_def)

lemma verify_canon [simp]: "verify_message_integrity c (canon m) key = verify_message_integrity c m key"
  by (simp add: verify_message_integrity_def split: option.split)

lemma add_integrity_eq:
  assumes "length (hmac_sha1 c key (integrity_input (header m) (attributes m))) = 20"
  shows "add_response_message_integrity c m key = Returns (add_attribute
    \<lparr>attr_type = MESSAGE_INTEGRITY, attr_value = hmac_sha1 c key (integrity_input (header m) (attributes m))\<rparr> m)"
  using assms by (simp add: add_response_message_integrity_def prefix_slice_def Let_def)

lemma find_append: "find P (xs @ ys) = (case find P xs of Some x \<Rightarrow> Some x | None \<Rightarrow> find P ys)"
  by (induction xs) auto

lemma takeWhile_unsigned:
  assumes "get_attribute m MESSAGE_INTEGRITY = None"
  shows "takeWhile (\<lambda>a. attr_type a \<noteq> MESSAGE_INTEGRITY) (attributes m @ [\<lparr>attr_type = MESSAGE_INTEGRITY, attr_value = v\<rparr>]) =
    attributes m"
  using assms by (subst takeWhile_append2) (auto simp: get_attribute_def find_None_iff)

lemma get_attribute_add:
  "get_attribute (add_attribute a m) ty =
     (case get_attribute m ty of Some b \<Rightarrow> Some b | None \<Rightarrow> if attr_type a = ty then Some a else None)"
  by (simp add: get_attribute_def add_attribute_def find_append split: option.split)

lemma header_add_attribute [simp]: "header (add_attribute a m) = header m"
  "attributes (add_attribute a m) = attributes m @ [a]"
  by (simp_all add: add_attribute_def)

lemma verify_signed:
  assumes "length (hmac_sha1 c key (integrity_input (header m) (attributes m))) = 20"
    and "get_attribute m MESSAGE_INTEGRITY = None" and "add_response_message_integrity c m key = Returns m'"
  shows "verify_message_integrity c m' key = Returns True"
  using assms
  by (simp add: add_integrity_eq verify_message_integrity_def get_attribute_add takeWhile_unsigned Let_def prefix_slice_def)
     (auto simp: get_attribute_add takeWhile_unsigned prefix_slice_def)

text \<open>What the server signs, a receiver with the same key verifies: a message without
  MESSAGE-INTEGRITY that is signed, encoded, sent over the wire with anything after it, and
  parsed again passes the verification under the key it was signed with.\<close>

theorem sign_verify_roundtrip:
  assumes "\<And>k x. length (hmac_sha1 c k x) = 20"
    and "get_attribute m MESSAGE_INTEGRITY = None" and "msg_ok m" and "length (attrs_encode (attributes m)) < 65512"
  shows "\<exists>m' m''. add_response_message_integrity c m key = Returns m' \<and>
    message_parse (message_encode m' @ rest) = Some m'' \<and>
    attributes m'' = attributes m @ [last (attributes m'')] \<and>
    verify_message_integrity c m'' key = Returns True"
proof -
  let ?mi = "\<lparr>attr_type = MESSAGE_INTEGRITY, attr_value = hmac_sha1 c key (integrity_input (header m) (attributes m))\<rparr>"
  have sig: "add_response_message_integrity c m key = Returns (add_attribute ?mi m)"
    by (rule add_integrity_eq) (rule assms(1))
  have "msg_ok (add_attribute ?mi m)"
    using assms(1,3,4) by (auto simp: msg_ok_def length_attr_encode pad4_def)
  then have "message_parse (message_encode (add_attribute ?mi m) @ rest) = Some (canon (add_attribute ?mi m))"
    by (rule message_parse_encode_append)
  then show ?thesis
    using sig verify_signed [OF assms(1,2) sig] by simp
qed

lemma hmac_sample: "length (hmac_sha1 sample_crypto k x) = 20"
  by (simp add: sample_crypto_def)

theorem sign_verify_roundtrip_witness:
  "\<exists>m' m''. add_response_message_integrity sample_crypto sample_message [1, 2] = Returns m' \<and>
     message_parse (message_encode m' @ [9]) = Some m'' \<and>
     verify_message_integrity sample_crypto m'' [1, 2] = Returns True"
proof -
  have "get_attribute sample_message MESSAGE_INTEGRITY = None"
    by (simp add: sample_message_def get_attribute_def attribute_types)
  moreover have "length (attrs_encode (attributes sample_message)) < 65512"
    by (simp add: sample_message_def length_attr_encode pad4_def)
  ultimately show ?thesis
    using sign_verify_roundtrip [OF hmac_sample _ sample_message_ok, of "[1, 2]" "[9]"] by blast
qed

section \<open>The challenge and its answer\<close>

lemma msg_ok_bound:
  assumes "length (transaction_id (header m)) = 12"
    and "(\<Sum>a\<leftarrow>attributes m. length (attr_value a) + 7) < 65536"
  shows "msg_ok m"
proof -
  have small: "length (attr_value a) < 65536" if "a \<in> set (attributes m)" for a
    using member_le_sum_list [of "length (attr_value a) + 7" "map (\<lambda>a. length (attr_value a) + 7) (attributes m)"] that assms(2)
    by fastforce
  have "\<forall>a\<in>set as. length (attr_value a) < 65536 \<Longrightarrow>
      length (attrs_encode as) \<le> (\<Sum>a\<leftarrow>as. length (attr_value a) + 7)" for as
    by (induction as) (auto simp: length_attr_encode pad4_def intro: add_mono)
  from this [of "attributes m"] show ?thesis
    using assms small by (simp add: msg_ok_def)
qed

lemma get_password_updates [simp]:
  "get_password_for_user e name (s\<lparr>nonce_map := m\<rparr>) = get_password_for_user e name s"
  "get_password_for_user e name (s\<lparr>alloc := t\<rparr>) = get_password_for_user e name s"
  "get_password_for_user e name (s\<lparr>chans := ct\<rparr>) = get_password_for_user e name s"
  by (simp_all add: get_password_for_user_def split: option.split)

text \<open>The 401 response a request without credentials gets.\<close>

lemma challenge_parses:
  assumes "create_401_response c e msg None s = (r, s1)" and "length (transaction_id (header msg)) = 12"
    and "length (srv_realm s) + length (server_name s) + length (generate_nonce c e) < 65000"
  obtains ch where "message_parse r = Some ch" and "hdr_event_type (header ch) = Error"
    and "transaction_id (header ch) = transaction_id (header msg)"
    and "get_attribute ch REALM = Some \<lparr>attr_type = REALM, attr_value = as_bytes (srv_realm s)\<rparr>"
    and "get_attribute ch NONCE = Some \<lparr>attr_type = NONCE, attr_value = as_bytes (generate_nonce c e)\<rparr>"
proof -
  let ?r0 = "create_error_response_with_reason (header msg) Unauthorized None"
  let ?m = "add_attribute (software_attr s) (add_attribute \<lparr>attr_type = NONCE, attr_value = as_bytes (generate_nonce c e)\<rparr>
    (add_attribute \<lparr>attr_type = REALM, attr_value = as_bytes (srv_realm s)\<rparr> ?r0))"
  have r: "r = message_encode ?m" using assms(1) by (simp add: create_401_response_def Let_def)
  have ok: "msg_ok ?m"
    using assms(2,3)
    by (intro msg_ok_bound) (simp_all add: create_error_response_with_reason_def Let_def software_attr_def put_u32_def)
  have "message_parse r = Some (canon ?m)"
    using message_parse_encode_append [OF ok, of "[]"] by (simp add: r)
  then show thesis
    by (rule that) (simp_all add: get_attribute_add create_error_response_with_reason_def Let_def software_attr_def,
        simp_all add: get_attribute_def attribute_types)
qed

text \<open>C8. The challenge-response exchange works. A request without credentials is refused with a
  401 error that carries the server's realm and a fresh nonce; a second request, at most 600 s
  later, from an admitted address, that names a user with a known password, repeats that nonce
  and is signed with the key of user, realm and password, is accepted under that user's name.\<close>

theorem challenge_answered_is_accepted:
  assumes "\<And>k x. length (hmac_sha1 c k x) = 20" and "\<And>bs. is_ascii (hex_encode c bs)"
    and "\<not> auth_disabled s" and "\<forall>am. auth s = Some am \<longrightarrow> check_acl (ip_to_string (sock_ip client)) am"
    and "get_attribute probe NONCE = None \<or> get_attribute probe USERNAME = None"
    and "length (transaction_id (header probe)) = 12"
    and "length (srv_realm s) + length (server_name s) + length (generate_nonce c e) < 65000"
    and "(now e' - now e) div 1000000000 \<le> 600"
    and "is_ascii name" and "get_password_for_user e' name s = Some pw"
    and "get_attribute req USERNAME = Some ua" and "attr_value ua = as_bytes name"
    and "get_attribute req NONCE = Some na" and "get_attribute req MESSAGE_INTEGRITY = None"
  shows "\<exists>r s1 ch nc. verify_turn_auth c e probe client s = Returns (Inl r, s1) \<and>
    message_parse r = Some ch \<and> hdr_event_type (header ch) = Error \<and>
    get_attribute ch REALM = Some \<lparr>attr_type = REALM, attr_value = as_bytes (srv_realm s)\<rparr> \<and>
    get_attribute ch NONCE = Some nc \<and>
    (attr_value na = attr_value nc \<longrightarrow>
      (\<exists>signed. add_response_message_integrity c req (compute_message_integrity_key c name (srv_realm s) pw) = Returns signed \<and>
         verify_turn_auth c e' signed client s1 = Returns (Inr name, s1)))"
proof -
  obtain r s1 where ch: "create_401_response c e probe None s = (r, s1)" by fastforce
  have acl: "\<not> (case auth s of Some am \<Rightarrow> \<not> check_acl (ip_to_string (sock_ip client)) am | None \<Rightarrow> False)"
    using assms(4) by (auto split: option.split)
  have v: "verify_turn_auth c e probe client s = Returns (Inl r, s1)"
    using assms(3,5) acl ch by (auto simp: verify_turn_auth_def Let_def split: option.split)
  obtain m where m: "message_parse r = Some m" "hdr_event_type (header m) = Error"
      "get_attribute m REALM = Some \<lparr>attr_type = REALM, attr_value = as_bytes (srv_realm s)\<rparr>"
      "get_attribute m NONCE = Some \<lparr>attr_type = NONCE, attr_value = as_bytes (generate_nonce c e)\<rparr>"
    by (rule challenge_parses [OF ch assms(6,7)])
  have s1: "s1 = s\<lparr>nonce_map := hm_insert (generate_nonce c e)
      \<lparr>entry_nonce = generate_nonce c e, nonce_created_at = now e\<rparr> (nonce_map s)\<rparr>"
    by (rule create_401_nonces [OF ch])
  let ?key = "compute_message_integrity_key c name (srv_realm s) pw"
  obtain signed where sig: "add_response_message_integrity c req ?key = Returns signed"
    using add_integrity_eq [OF assms(1)] by blast
  have ver: "verify_message_integrity c signed ?key = Returns True"
    by (rule verify_signed [OF assms(1,14) sig])
  have at: "get_attribute signed USERNAME = Some ua" "get_attribute signed NONCE = Some na"
    using sig assms(11,13) by (auto simp: add_integrity_eq [OF assms(1)] get_attribute_add)
  have pw: "get_password_for_user e' name s1 = Some pw"
    using assms(10) by (simp add: s1)
  have "verify_turn_auth c e' signed client s1 = Returns (Inr name, s1)"
    if "attr_value na = as_bytes (generate_nonce c e)"
  proof -
    have "from_utf8_lossy (attr_value na) = generate_nonce c e" "from_utf8_lossy (attr_value ua) = name"
      using that assms(2,9,12) by (simp_all add: from_utf8_lossy_ascii generate_nonce_def)
    then have "authorised c e' signed client s1 name"
      unfolding authorised_def
      using at ver pw assms(4,8) by (simp add: s1 hm.get_insert)
    then show ?thesis using assms(3) by (simp add: verify_turn_auth_accepted s1)
  qed
  then show ?thesis using v m sig by fastforce
qed

lemma ascii_hex_char: "n < 16 \<Longrightarrow> of_char (hex_char n) < (128 :: nat)"
  by (simp add: hex_char_def)

lemma unat_u8_digits: "unat (b :: u8) div 16 < 16"
proof -
  have "unat b < 2 ^ LENGTH(8)" by (rule unsigned_less)
  then show ?thesis by (simp add: div_less_iff_less_mult)
qed

lemma ascii_sample: "is_ascii (hex_encode sample_crypto bs)"
proof (induction bs)
  case (Cons b bs)
  then show ?case
    using ascii_hex_char [OF unat_u8_digits, of b] ascii_hex_char [of "unat b mod 16"]
    by (simp add: sample_crypto_def is_ascii_def)
qed (simp add: sample_crypto_def is_ascii_def)

lemma length_hex_sample: "length (hex_encode sample_crypto bs) = 2 * length bs"
  by (induction bs) (simp_all add: sample_crypto_def)

theorem challenge_answered_is_accepted_witness:
  "\<exists>s1 signed. verify_turn_auth sample_crypto sample_env signed sample_client s1 = Returns (Inr ''bob'', s1) \<and>
     \<not> auth_disabled s1"
proof -
  define nonce where "nonce = generate_nonce sample_crypto sample_env"
  define ua where "ua = \<lparr>attr_type = USERNAME, attr_value = as_bytes ''bob''\<rparr>"
  define na where "na = \<lparr>attr_type = NONCE, attr_value = as_bytes nonce\<rparr>"
  define req where "req = sample_request Allocate [ua, na]"
  define probe where "probe = sample_request Allocate []"
  have "length nonce = 32"
    by (simp add: nonce_def generate_nonce_def length_hex_sample sample_env_def)
  then have small: "length (srv_realm sample_server) + length (server_name sample_server) + length nonce < 65000" by simp
  have at: "get_attribute req USERNAME = Some ua" "get_attribute req NONCE = Some na"
      "get_attribute req MESSAGE_INTEGRITY = None" "get_attribute probe NONCE = None"
      "length (transaction_id (header probe)) = 12"
    by (simp_all add: req_def probe_def sample_request_def get_attribute_def ua_def na_def attribute_types)
  have pw: "get_password_for_user sample_env ''bob'' sample_server = Some ''secret''"
    by (simp add: get_password_for_user_def)
  have pre: "\<not> auth_disabled sample_server"
      "\<forall>am. auth sample_server = Some am \<longrightarrow> check_acl (ip_to_string (sock_ip sample_client)) am"
      "get_attribute probe NONCE = None \<or> get_attribute probe USERNAME = None"
      "(now sample_env - now sample_env) div 1000000000 \<le> 600" "attr_value ua = as_bytes ''bob''"
    using at(4) by (simp_all add: ua_def)
  have bob: "is_ascii ''bob''" by (simp add: is_ascii_def)
  obtain r s1 ch nc where ver: "verify_turn_auth sample_crypto sample_env probe sample_client sample_server = Returns (Inl r, s1)"
    and ch: "message_parse r = Some ch" and nc: "get_attribute ch NONCE = Some nc"
    and acc: "attr_value na = attr_value nc \<longrightarrow>
      (\<exists>signed. add_response_message_integrity sample_crypto req
         (compute_message_integrity_key sample_crypto ''bob'' (srv_realm sample_server) ''secret'') = Returns signed \<and>
         verify_turn_auth sample_crypto sample_env signed sample_client s1 = Returns (Inr ''bob'', s1))"
    using challenge_answered_is_accepted [OF hmac_sample ascii_sample pre(1-3) at(5) small [unfolded nonce_def]
        pre(4) bob pw at(1) pre(5) at(2,3)] by blast
  have c: "create_401_response sample_crypto sample_env probe None sample_server = (r, s1)"
    using ver at(4) by (auto simp: verify_turn_auth_def split: prod.splits)
  obtain ch' where "message_parse r = Some ch'" "get_attribute ch' NONCE = Some \<lparr>attr_type = NONCE, attr_value = as_bytes nonce\<rparr>"
    using challenge_parses [OF c at(5) small [unfolded nonce_def]] unfolding nonce_def by metis
  then have "attr_value na = attr_value nc" using ch nc by (simp add: na_def)
  then show ?thesis
    using acc create_401_nonces [OF c] by auto
qed

section \<open>The reply to Allocate\<close>

lemma sign_response_cases:
  assumes "\<And>k x. length (hmac_sha1 c k x) = 20" and "get_attribute m MESSAGE_INTEGRITY = None"
  obtains (unsigned) "sign_response c e name s m = Returns m" "auth_disabled s \<or> get_password_for_user e name s = None"
  | (signed) pw v where "get_password_for_user e name s = Some pw" "length v = 20"
      "sign_response c e name s m = Returns (add_attribute \<lparr>attr_type = MESSAGE_INTEGRITY, attr_value = v\<rparr> m)"
      "verify_message_integrity c (add_attribute \<lparr>attr_type = MESSAGE_INTEGRITY, attr_value = v\<rparr> m)
         (compute_message_integrity_key c name (srv_realm s) pw) = Returns True"
proof (cases "auth_disabled s \<or> get_password_for_user e name s = None")
  case True
  then show thesis by (intro unsigned) (auto simp: sign_response_def)
next
  case False
  then obtain pw where pw: "get_password_for_user e name s = Some pw" by auto
  let ?k = "compute_message_integrity_key c name (srv_realm s) pw"
  note sig = add_integrity_eq [OF assms(1), where key = ?k and m = m]
  show thesis
    using signed [OF pw assms(1) _ verify_signed [OF assms(1,2) sig]] False pw sig by (simp add: sign_response_def)
qed

lemma sign_response_returns: "(\<And>k x. length (hmac_sha1 c k x) = 20) \<Longrightarrow> \<exists>m'. sign_response c e name s m = Returns m'"
  by (auto simp: sign_response_def add_integrity_eq split: option.split)

lemma allocate_response_attributes:
  "get_attribute (allocate_response msg client relayed life s) XOR_RELAYED_ADDRESS =
     Some \<lparr>attr_type = XOR_RELAYED_ADDRESS, attr_value = encode_xor_address relayed 0x2112A442\<rparr>"
  "get_attribute (allocate_response msg client relayed life s) XOR_MAPPED_ADDRESS =
     Some \<lparr>attr_type = XOR_MAPPED_ADDRESS, attr_value = encode_xor_address client 0x2112A442\<rparr>"
  "get_attribute (allocate_response msg client relayed life s) LIFETIME =
     Some \<lparr>attr_type = LIFETIME, attr_value = put_u32 life\<rparr>"
  "get_attribute (allocate_response msg client relayed life s) MESSAGE_INTEGRITY = None"
  by (simp_all add: allocate_response_def get_attribute_def software_attr_def attribute_types)

lemma allocate_response_ok:
  assumes "length (transaction_id (header msg)) = 12" and "length (srv_realm s) + length (server_name s) < 65000"
    and "length v = 20"
  shows "msg_ok (allocate_response msg client relayed life s)"
    and "msg_ok (add_attribute \<lparr>attr_type = MESSAGE_INTEGRITY, attr_value = v\<rparr> (allocate_response msg client relayed life s))"
  using assms by (auto intro!: msg_ok_bound simp: allocate_response_def software_attr_def put_u32_def)

text \<open>What a client reads in the reply.\<close>

definition reply_ok :: "crypto \<Rightarrow> env \<Rightarrow> message \<Rightarrow> socket_addr \<Rightarrow> socket_addr \<Rightarrow> u32 \<Rightarrow> turn_server \<Rightarrow> string \<Rightarrow> message \<Rightarrow> bool" where
  "reply_ok c e msg client relayed life s name m \<longleftrightarrow>
     hdr_event_type (header m) = Success \<and> hdr_method (header m) = hdr_method (header msg) \<and>
     transaction_id (header m) = transaction_id (header msg) \<and>
     map_option (\<lambda>x. decode_xor_address (attr_value x) 0x2112A442) (get_attribute m XOR_RELAYED_ADDRESS) = Some (Some relayed) \<and>
     map_option attr_value (get_attribute m XOR_MAPPED_ADDRESS) = Some (encode_xor_address client 0x2112A442) \<and>
     get_lifetime m = Returns life \<and>
     (\<not> auth_disabled s \<longrightarrow> (\<forall>pw. get_password_for_user e name s = Some pw \<longrightarrow>
        verify_message_integrity c m (compute_message_integrity_key c name (srv_realm s) pw) = Returns True))"

lemma allocate_reply:
  assumes "\<And>k x. length (hmac_sha1 c k x) = 20" and "length (transaction_id (header msg)) = 12"
    and "length (srv_realm s) + length (server_name s) < 65000"
  shows "\<exists>r m. sign_response c e name s (allocate_response msg client (SocketV4 ip port) life s) = Returns r \<and>
    message_parse (message_encode r) = Some m \<and> reply_ok c e msg client (SocketV4 ip port) life s name m"
proof -
  let ?m = "allocate_response msg client (SocketV4 ip port) life s"
  have life: "get_lifetime (canon m') = Returns life"
    if "get_attribute m' LIFETIME = Some \<lparr>attr_type = LIFETIME, attr_value = put_u32 life\<rparr>" for m'
    using that put_u32_inverse [of life] by (simp add: get_lifetime_def put_u32_def)
  show ?thesis
  proof (rule sign_response_cases [OF assms(1), where m = ?m and e = e and name = name and s = s])
    show "get_attribute ?m MESSAGE_INTEGRITY = None" by (rule allocate_response_attributes)
  next
    assume r: "sign_response c e name s ?m = Returns ?m" and n: "auth_disabled s \<or> get_password_for_user e name s = None"
    have "msg_ok ?m" using assms(2,3) by (intro allocate_response_ok(1) [where v = "replicate 20 0"]) simp_all
    then have "message_parse (message_encode ?m) = Some (canon ?m)"
      using message_parse_encode_append [of ?m "[]"] by simp
    moreover have "reply_ok c e msg client (SocketV4 ip port) life s name (canon ?m)"
      using n life [of ?m] by (auto simp: reply_ok_def allocate_response_attributes, simp_all add: allocate_response_def)
    ultimately show ?thesis using r by blast
  next
    fix pw v
    let ?r = "add_attribute \<lparr>attr_type = MESSAGE_INTEGRITY, attr_value = v\<rparr> ?m"
    assume pw: "get_password_for_user e name s = Some pw" and v: "length v = 20"
      and r: "sign_response c e name s ?m = Returns ?r"
      and ver: "verify_message_integrity c ?r (compute_message_integrity_key c name (srv_realm s) pw) = Returns True"
    have "msg_ok ?r" using assms(2,3) v by (intro allocate_response_ok(2))
    then have "message_parse (message_encode ?r) = Some (canon ?r)"
      using message_parse_encode_append [of ?r "[]"] by simp
    moreover have "reply_ok c e msg client (SocketV4 ip port) life s name (canon ?r)"
      using pw ver life [of ?r]
      by (simp add: reply_ok_def get_attribute_add allocate_response_attributes) (simp add: allocate_response_def)
    ultimately show ?thesis using r by blast
  qed
qed

lemma clients_uniqueD:
  "clients_unique t \<Longrightarrow> hm_get (allocations t) k = Some a \<Longrightarrow> hm_get (allocations t) k' = Some a' \<Longrightarrow>
     client_addr a = client_addr a' \<Longrightarrow> k = k'"
  unfolding clients_unique_def by blast

text \<open>C5. An authenticated Allocate request of a client without an allocation succeeds when the
  quota is not reached, some relay port is free, and at one of the 100 attempts the socket can
  be bound, whatever the random numbers. The client then owns exactly one new allocation, with no
  permissions and no channels, on a relayed address that nobody had, and all other allocations
  are as before. The reply parses as a success response to this transaction that carries the
  relayed address and the client's own, and is signed with the user's key. The lifetime it
  announces is the one requested, while the allocation lives for the capped one.\<close>

theorem allocate_succeeds:
  assumes "\<And>k x. length (hmac_sha1 c k x) = 20" and "srv_inv s" and "turn_enabled s"
    and "auth_disabled s \<or> (\<exists>name. authorised c e msg client s name)"
    and "hdr_method (header msg) = Allocate" and "length (transaction_id (header msg)) = 12"
    and "length (srv_realm s) + length (server_name s) < 65000"
    and "get_lifetime msg = Returns life" and "find_allocation_by_client (alloc s) client = None"
    and "\<forall>limit. max_concurrent_allocations (alloc s) = Some limit \<longrightarrow> hm_len (allocations (alloc s)) < limit"
    and "used_ports (port_alloc (alloc s)) \<noteq> port_range (port_alloc (alloc s))"
    and "j < MAX_ATTEMPTS" and "\<forall>addr. bind_error e j addr = None"
  shows "\<exists>s' resp m a name. process_message c e msg client s = Returns (s', [], Some resp) \<and> srv_inv s' \<and>
    get_allocation_by_client (alloc s') client = Some a \<and> hm_get (allocations (alloc s)) (relayed_addr a) = None \<and>
    hm_get (allocations (alloc s')) = (hm_get (allocations (alloc s)))(relayed_addr a \<mapsto> a) \<and>
    permissions a = {} \<and> (\<forall>ch. get_by_channel (chans s') (relayed_addr a) ch = None) \<and>
    created_at a = now e \<and> lifetime a = from_secs (unat (lifetime_secs (Some life) (alloc s))) \<and>
    message_parse resp = Some m \<and> (auth_disabled s \<or> authorised c e msg client s name) \<and>
    reply_ok c e msg client (relayed_addr a) life s' name m"
proof -
  obtain name where w: "\<And>k. with_auth c e msg client s k = k name s"
    and auth: "auth_disabled s \<or> authorised c e msg client s name"
    by (rule with_auth_granted [OF assms(4)]) blast
  have rem: "remove_existing client s = s" by (simp add: remove_existing_def assms(9))
  obtain a t where run: "create_allocation e client (Some life) (alloc s) = Returns (Inr a, t)"
    using create_allocation_succeeds [OF srv_invD(1) [OF assms(2)] assms(10-13)] by blast
  let ?s = "s\<lparr>alloc := t\<rparr>"
  have a: "hm_get (allocations (alloc s)) (relayed_addr a) = None"
      "hm_get (allocations t) = (hm_get (allocations (alloc s)))(relayed_addr a \<mapsto> a)" "client_addr a = client"
      "permissions a = {}" "created_at a = now e" "lifetime a = from_secs (unat (lifetime_secs (Some life) (alloc s)))"
    by (rule create_allocation_entries [OF srv_invD(1) [OF assms(2)], of e client "Some life"]; use run in simp)+
  have inv: "srv_inv ?s" by (rule create_allocation_srv_inv [OF assms(2,9) run])
  have at: "hm_get (allocations t) (relayed_addr a) = Some a" by (simp add: a)
  obtain p where p: "relayed_addr a = SocketV4 (external_addr t) p"
    using entry_key [OF srv_invD(1) [OF inv], of "relayed_addr a" a] at by auto
  obtain b where b: "get_allocation_by_client t client = Some b"
    using find_client_None [OF srv_invD(1) [OF inv], of client "relayed_addr a" a] at a(3)
    by (cases "get_allocation_by_client t client") (auto simp: get_by_client_find)
  have got: "hm_get (allocations t) (relayed_addr b) = Some b" "client_addr b = client"
    using get_by_client_Some [OF srv_invD(1) [OF inv], of client b] b by simp_all
  have u: "clients_unique t" using srv_invD(4) [OF inv] by simp
  have same: "relayed_addr b = relayed_addr a"
    by (rule clients_uniqueD [OF u got(1) at]) (simp only: got(2) a(3))
  have "b = a" using got(1) at unfolding same by simp
  moreover have "get_by_channel (chans s) (relayed_addr a) ch = None" for ch
    using srv_invD(5) [OF assms(2)] a(1) unfolding channels_live_def by blast
  moreover obtain r m where "sign_response c e name ?s (allocate_response msg client (relayed_addr a) life ?s) = Returns r"
      "message_parse (message_encode r) = Some m" "reply_ok c e msg client (relayed_addr a) life ?s name m"
    using allocate_reply [OF assms(1,6), of ?s e name client "external_addr t" p life] assms(7) p by auto
  ultimately show ?thesis
    using inv auth a b assms(3,5,8) run
    by (intro exI [of _ ?s] exI [of _ "message_encode r"] exI [of _ m] exI [of _ a] exI [of _ name])
       (simp add: process_message_def handle_allocate_def w rem)
qed

theorem allocate_succeeds_witness:
  "\<exists>s' resp m a. process_message sample_crypto sample_env (sample_request Allocate []) sample_client open_server =
     Returns (s', [], Some resp) \<and> message_parse resp = Some m \<and>
     get_allocation_by_client (alloc s') sample_client = Some a \<and>
     lifetime a = from_secs 300 \<and> get_lifetime m = Returns 600"
proof -
  have "\<exists>s' resp m a name. process_message sample_crypto sample_env (sample_request Allocate []) sample_client open_server =
      Returns (s', [], Some resp) \<and> srv_inv s' \<and>
      get_allocation_by_client (alloc s') sample_client = Some a \<and> hm_get (allocations (alloc open_server)) (relayed_addr a) = None \<and>
      hm_get (allocations (alloc s')) = (hm_get (allocations (alloc open_server)))(relayed_addr a \<mapsto> a) \<and>
      permissions a = {} \<and> (\<forall>ch. get_by_channel (chans s') (relayed_addr a) ch = None) \<and>
      created_at a = now sample_env \<and> lifetime a = from_secs (unat (lifetime_secs (Some 600) (alloc open_server))) \<and>
      message_parse resp = Some m \<and> (auth_disabled open_server \<or> authorised sample_crypto sample_env (sample_request Allocate []) sample_client open_server name) \<and>
      reply_ok sample_crypto sample_env (sample_request Allocate []) sample_client (relayed_addr a) 600 s' name m"
    by (rule allocate_succeeds [OF hmac_sample sample_server_inv(2), where j = 0])
       (use open_server_free in \<open>simp_all del: sample_server_fields(9) add: sample_request_def get_lifetime_def get_attribute_def
          MAX_ATTEMPTS_def sample_env_def\<close>, simp add: with_port_range_and_bind_addr_def)
  moreover have "lifetime_secs (Some 600) (alloc open_server) = 300"
    by (simp add: lifetime_secs_def with_port_range_and_bind_addr_def)
  ultimately show ?thesis by (auto simp: reply_ok_def)
qed

section \<open>Well-formed messages\<close>

lemma attrs_encode_weight:
  "sum_list (map (\<lambda>a. 4 + length (attr_value a)) as) \<le> length (attrs_encode as)"
  if "\<forall>a\<in>set as. length (attr_value a) < 65536"
  using that by (induction as) (auto simp: length_attr_encode)

lemma lenient_attrs_fit:
  assumes "offset \<le> length data"
  shows "(\<forall>a\<in>set (lenient_attrs data offset n). length (attr_value a) < 65536) \<and>
    sum_list (map (\<lambda>a. 4 + length (attr_value a)) (lenient_attrs data offset n)) \<le> length data - offset"
  using assms
proof (induction data offset n rule: lenient_attrs.induct)
  case (1 data offset n)
  define k where "k = be16 (data ! (offset + 2)) (data ! (offset + 3))"
  define j where "j = offset + (4 + unat k + unat ((4 - (k + 4) mod 4) mod 4))"
  show ?case
  proof (cases "offset < n \<and> offset + 4 \<le> length data \<and> offset + 4 + unat k \<le> length data")
    case True
    let ?a = "\<lparr>attr_type = be16 (data ! offset) (data ! (offset + 1)),
      attr_value = slice_bytes data (offset + 4) (offset + 4 + unat k)\<rparr>"
    have eq: "lenient_attrs data offset n = ?a # lenient_attrs data j n"
      by (subst lenient_attrs.simps) (use True in \<open>simp add: k_def j_def Let_def\<close>)
    have len: "length (attr_value ?a) = unat k" "unat k < 65536"
      using True unat_u16_less [of k] by simp_all
    show ?thesis
    proof (cases "j \<le> length data")
      case le: True
      have "offset + 4 + unat k \<le> j" by (simp add: j_def)
      then show ?thesis
        using "1.IH" [OF _ refl refl _ refl] True le len unfolding eq
        by (fastforce simp: k_def j_def)
    next
      case False
      then have "lenient_attrs data j n = []" by (subst lenient_attrs.simps) simp
      moreover have "4 + unat k \<le> length data - offset" using True by arith
      ultimately show ?thesis using len unfolding eq by simp
    qed
  next
    case False
    then have "lenient_attrs data offset n = []"
      by (subst lenient_attrs.simps) (auto simp: k_def Let_def)
    then show ?thesis by simp
  qed
qed

text \<open>C19. Every message a datagram can put before a handler, by the strict or by the lenient
  parse, is well formed: the transaction identifier has 12 bytes, each attribute value fits its
  16-bit length, and header, attribute headers and values together are no longer than the
  datagram, so that nothing is read beyond it. The lenient parse only makes requests.\<close>

theorem parsed_messages_well_formed:
  assumes "message_parse data = Some m \<or> lenient_parse data = Some m"
  shows "length (transaction_id (header m)) = 12 \<and>
    (\<forall>a\<in>set (attributes m). length (attr_value a) < 65536) \<and>
    20 + sum_list (map (\<lambda>a. 4 + length (attr_value a)) (attributes m)) \<le> length data \<and>
    (message_parse data = None \<longrightarrow> hdr_event_type (header m) = Request)"
  using assms
proof
  assume m: "message_parse data = Some m"
  note ok = message_parse_msg_ok [OF m] message_parse_SomeD(2) [OF m]
  then show ?thesis
    using m attrs_encode_weight [of "attributes m"] unfolding msg_ok_def by auto
next
  assume m: "lenient_parse data = Some m"
  then have "20 \<le> length data" "hdr_event_type (header m) = Request" "transaction_id (header m) = slice_bytes data 8 20"
    and "\<exists>n. attributes m = lenient_attrs data 20 n"
    by (auto simp: lenient_parse_def Let_def split: if_splits option.splits)
  then obtain n where n: "attributes m = lenient_attrs data 20 n" by blast
  show ?thesis
    using lenient_attrs_fit [of 20 data n] \<open>20 \<le> length data\<close> \<open>hdr_event_type (header m) = Request\<close>
    by (auto simp: n \<open>transaction_id (header m) = slice_bytes data 8 20\<close>)
qed

theorem parsed_messages_well_formed_witness:
  "\<exists>m. lenient_parse ([0, 1, 0, 12, 0x21, 0x12, 0xa4, 0x42] @ replicate 12 5 @ [0, 6, 0, 2, 97, 98]) = Some m \<and>
     message_parse ([0, 1, 0, 12, 0x21, 0x12, 0xa4, 0x42] @ replicate 12 5 @ [0, 6, 0, 2, 97, 98]) = None \<and>
     length (transaction_id (header m)) = 12 \<and> hdr_event_type (header m) = Request"
proof -
  let ?d = "[0, 1, 0, 12, 0x21, 0x12, 0xa4, 0x42] @ replicate 12 5 @ [0, 6, 0, 2, 97, 98]"
  have "lenient_parse ?d \<noteq> None \<and> message_parse ?d = None" by code_simp
  then obtain m where "lenient_parse ?d = Some m" "message_parse ?d = None" by blast
  then show ?thesis using parsed_messages_well_formed [of ?d m] by blast
qed

section \<open>Which messages make a handler panic\<close>

text \<open>The attributes that handlers index without a check are long enough.\<close>

definition attrs_sane :: "message \<Rightarrow> bool" where
  "attrs_sane msg \<longleftrightarrow>
     (\<forall>a. get_attribute msg MESSAGE_INTEGRITY = Some a \<longrightarrow> 20 \<le> length (attr_value a)) \<and>
     (\<forall>a. get_attribute msg LIFETIME = Some a \<longrightarrow> 4 \<le> length (attr_value a)) \<and>
     (\<forall>a. get_attribute msg CHANNEL_NUMBER = Some a \<longrightarrow> 2 \<le> length (attr_value a))"

lemma verify_integrity_returns:
  assumes "\<And>k x. length (hmac_sha1 c k x) = 20" and "attrs_sane msg"
  shows "\<exists>b. verify_message_integrity c msg key = Returns b"
  using assms by (auto simp: verify_message_integrity_def attrs_sane_def prefix_slice_def Let_def split: option.split)

lemma verify_turn_auth_returns:
  assumes "\<And>k x. length (hmac_sha1 c k x) = 20" and "attrs_sane msg"
  shows "\<exists>res s'. verify_turn_auth c e msg client s = Returns (res, s')"
proof -
  have "\<exists>x. verify_turn_auth c e msg client s = Returns x"
  proof (cases "verify_turn_auth c e msg client s")
    case Panics
    then obtain key where "verify_message_integrity c msg key = Panics"
      by (auto simp: verify_turn_auth_def Let_def rust_simps split: if_splits option.splits prod.splits)
    then show ?thesis using verify_integrity_returns [OF assms, of key] by simp
  qed simp
  then show ?thesis by auto
qed

lemma with_auth_returns:
  assumes "\<And>k x. length (hmac_sha1 c k x) = 20" and "attrs_sane msg" and "\<And>name. \<exists>out. k name s = Returns out"
  shows "\<exists>out. with_auth c e msg client s k = Returns out"
proof -
  obtain res s' where v: "verify_turn_auth c e msg client s = Returns (res, s')"
    using verify_turn_auth_returns [OF assms(1,2)] by blast
  show ?thesis
  proof (cases res)
    case (Inr name)
    then have "s' = s" using v by (simp add: verify_turn_auth_accepted)
    then show ?thesis using v Inr assms(3) by (simp add: with_auth_def)
  qed (simp add: with_auth_def v)
qed

lemma get_lifetime_returns: "attrs_sane msg \<Longrightarrow> \<exists>life. get_lifetime msg = Returns life"
  by (auto simp: get_lifetime_def attrs_sane_def not_less split: option.split)

lemma channel_number_returns:
  "attrs_sane msg \<Longrightarrow> get_attribute msg CHANNEL_NUMBER = Some a \<Longrightarrow> \<exists>n. channel_number_of a = Returns n"
  by (fastforce simp: channel_number_of_def index_def attrs_sane_def)

lemma handle_allocate_returns:
  assumes "\<And>k x. length (hmac_sha1 c k x) = 20" and "attrs_sane msg" and "srv_inv s"
  shows "\<exists>out. handle_allocate c e msg client s = Returns out"
  unfolding handle_allocate_def
proof (rule with_auth_returns [OF assms(1,2)], goal_cases)
  case (1 name)
  obtain life where l: "get_lifetime msg = Returns life" using get_lifetime_returns [OF assms(2)] by blast
  note inv = srv_invD(1) [OF remove_existing_inv(1) [OF assms(3), of client]]
  obtain res t where r: "create_allocation e client (Some life) (alloc (remove_existing client s)) = Returns (res, t)"
    by (rule create_allocation_entries [OF inv, of e client "Some life"]) blast+
  show ?case
  proof (cases res)
    case (Inr a)
    then show ?thesis
      using l r sign_response_returns [OF assms(1), of e name "(remove_existing client s)\<lparr>alloc := t\<rparr>"
          "allocate_response msg client (relayed_addr a) life ((remove_existing client s)\<lparr>alloc := t\<rparr>)"]
      by (auto simp: Let_def)
  qed (use l r in \<open>simp add: case_prod_beta Let_def\<close>)
qed

lemma handle_refresh_returns:
  assumes "\<And>k x. length (hmac_sha1 c k x) = 20" and "attrs_sane msg"
  shows "\<exists>out. handle_refresh c e msg client s = Returns out"
  unfolding handle_refresh_def
proof (rule with_auth_returns [OF assms(1,2)], goal_cases)
  case (1 name)
  obtain life where l: "get_lifetime msg = Returns life" using get_lifetime_returns [OF assms(2)] by blast
  let ?m = "add_attribute \<lparr>attr_type = LIFETIME, attr_value = put_u32 life\<rparr> (create_success_response (header msg))"
  show ?case
  proof (cases "find_allocation_by_client (alloc s) client")
    case (Some k)
    obtain res t where t: "refresh_allocation k life (alloc s) = (res, t)" by fastforce
    obtain m1 where m1: "sign_response c e name (remove_client_allocation k s) ?m = Returns m1"
      using sign_response_returns [OF assms(1)] by blast
    obtain m2 where m2: "sign_response c e name (s\<lparr>alloc := t\<rparr>) ?m = Returns m2"
      using sign_response_returns [OF assms(1)] by blast
    show ?thesis
      using l Some t m1 m2 by (cases "life = 0"; cases res) simp_all
  qed (simp add: l)
qed

lemma handle_create_permission_returns:
  assumes "\<And>k x. length (hmac_sha1 c k x) = 20" and "attrs_sane msg"
  shows "\<exists>out. handle_create_permission c e msg client s = Returns out"
  unfolding handle_create_permission_def
proof (rule with_auth_returns [OF assms(1,2)], goal_cases)
  case (1 name)
  obtain added t where t: "add_permissions client (peers_of msg) (alloc s) = (added, t)" by fastforce
  obtain m' where "sign_response c e name (s\<lparr>alloc := t\<rparr>) (create_success_response (header msg)) = Returns m'"
    using sign_response_returns [OF assms(1)] by blast
  then show ?case
    using t by (cases "find_allocation_by_client (alloc s) client") (auto simp: Let_def)
qed

lemma handle_channel_bind_returns:
  assumes "\<And>k x. length (hmac_sha1 c k x) = 20" and "attrs_sane msg"
  shows "\<exists>out. handle_channel_bind c e msg client s = Returns out"
  unfolding handle_channel_bind_def
proof (rule with_auth_returns [OF assms(1,2)], goal_cases)
  case (1 name)
  show ?case
  proof (cases "find_allocation_by_client (alloc s) client = None \<or> get_attribute msg PEER_ADDRESS = None \<or>
      get_attribute msg CHANNEL_NUMBER = None")
    case True
    then show ?thesis by (auto split: option.split)
  next
    case False
    then obtain k pa ca where at: "find_allocation_by_client (alloc s) client = Some k"
        "get_attribute msg PEER_ADDRESS = Some pa" "get_attribute msg CHANNEL_NUMBER = Some ca"
      by auto
    obtain n where n: "channel_number_of ca = Returns n" using channel_number_returns [OF assms(2) at(3)] by blast
    let ?p = "case decode_xor_address (attr_value pa) 0x2112A442 of Some p \<Rightarrow> p | None \<Rightarrow> SocketV4 (Ipv4 0 0 0 0) 0"
    obtain res ct where b: "ch_bind (now e) n ?p k (chans s) = (res, ct)" by fastforce
    obtain m' where "sign_response c e name (s\<lparr>chans := ct\<rparr>) (create_success_response (header msg)) = Returns m'"
      using sign_response_returns [OF assms(1)] by blast
    then show ?thesis using at n b by (cases res) (simp_all add: Let_def)
  qed
qed

lemma handle_send_returns: "\<exists>out. handle_send e msg client s = Returns out"
  by (auto simp: handle_send_def split: option.split prod.split)

text \<open>C10. The handlers are total on messages whose MESSAGE-INTEGRITY, LIFETIME and CHANNEL-NUMBER
  attributes, if present, have at least 20, 4 and 2 bytes: from every state that satisfies the
  server invariant, whatever the method, the credentials and the environment, the request is
  handled without a panic and the invariant holds again afterwards.\<close>

theorem sane_messages_are_handled:
  assumes "\<And>k x. length (hmac_sha1 c k x) = 20" and "attrs_sane msg" and "srv_inv s"
  shows "\<exists>s' effs resp. process_message c e msg client s = Returns (s', effs, resp) \<and> srv_inv s'"
proof -
  have "\<exists>out. process_message c e msg client s = Returns out"
    using handle_allocate_returns [OF assms] handle_refresh_returns [OF assms(1,2)] handle_send_returns
      handle_create_permission_returns [OF assms(1,2)] handle_channel_bind_returns [OF assms(1,2)]
    by (simp add: process_message_def handle_binding_def split: stun_method.split)
  then obtain s' effs resp where run: "process_message c e msg client s = Returns (s', effs, resp)" by auto
  then show ?thesis using process_message_inv assms(3) by blast
qed

theorem sane_messages_are_handled_witness:
  "\<exists>s' effs resp. process_message sample_crypto sample_env sample_message sample_client sample_server =
     Returns (s', effs, resp) \<and> srv_inv s'"
  by (rule sane_messages_are_handled [OF hmac_sample _ sample_server_inv(1)])
     (simp add: attrs_sane_def sample_message_def get_attribute_def attribute_types)

lemma integrity_slice_panics:
  assumes "\<And>k x. length (hmac_sha1 c k x) = 20" and "\<not> auth_disabled s" and "turn_enabled s"
    and "\<forall>am. auth s = Some am \<longrightarrow> check_acl (ip_to_string (sock_ip client)) am"
    and "get_attribute msg NONCE = Some na" and "hm_get (nonce_map s) (from_utf8_lossy (attr_value na)) = Some entry"
    and "(now e - nonce_created_at entry) div 1000000000 \<le> 600"
    and "get_attribute msg USERNAME = Some ua" and "get_password_for_user e (from_utf8_lossy (attr_value ua)) s = Some pw"
    and "get_attribute msg MESSAGE_INTEGRITY = Some mi" and "length (attr_value mi) < 20"
    and "hdr_method (header msg) \<in> {Allocate, Refresh, CreatePermission, ChannelBind}"
  shows "process_message c e msg client s = Panics"
proof -
  have acl: "\<not> (case auth s of Some am \<Rightarrow> \<not> check_acl (ip_to_string (sock_ip client)) am | None \<Rightarrow> False)"
    using assms(4) by (auto split: option.split)
  have "verify_message_integrity c msg key = Panics" for key
    using assms(1,10,11) by (simp add: verify_message_integrity_def prefix_slice_def Let_def)
  then have "verify_turn_auth c e msg client s = Panics"
    using assms(2,5-9) acl by (simp add: verify_turn_auth_def)
  then show ?thesis
    using assms(3,12) by (auto simp: process_message_def handle_allocate_def handle_refresh_def
        handle_create_permission_def handle_channel_bind_def with_auth_def)
qed

text \<open>C22. A truncated MESSAGE-INTEGRITY crashes the task that handles it, before any credential is
  checked: a request with a nonce that the server has issued, a user name for which a password
  is known (any name, when a global password is set) and a MESSAGE-INTEGRITY of fewer than 20
  bytes makes every authenticated handler panic.\<close>

theorem short_integrity_panics:
  assumes "\<And>k x. length (hmac_sha1 c k x) = 20" and "\<not> auth_disabled s" and "turn_enabled s"
    and "\<forall>am. auth s = Some am \<longrightarrow> check_acl (ip_to_string (sock_ip client)) am"
    and "get_attribute msg NONCE = Some na" and "hm_get (nonce_map s) (from_utf8_lossy (attr_value na)) = Some entry"
    and "(now e - nonce_created_at entry) div 1000000000 \<le> 600"
    and "get_attribute msg USERNAME = Some ua" and "get_password_for_user e (from_utf8_lossy (attr_value ua)) s = Some pw"
    and "get_attribute msg MESSAGE_INTEGRITY = Some mi" and "length (attr_value mi) < 20"
    and "hdr_method (header msg) \<in> {Allocate, Refresh, CreatePermission, ChannelBind}"
  shows "process_message c e msg client s = Panics"
  using assms by (rule integrity_slice_panics)

lemma lossy_empty: "from_utf8_lossy [] = []"
  using from_utf8_lossy_ascii [of "[]"] by (simp add: is_ascii_def as_bytes_def)

theorem short_integrity_panics_witness:
  "process_message sample_crypto sample_env
     (sample_request Allocate [\<lparr>attr_type = USERNAME, attr_value = []\<rparr>, \<lparr>attr_type = NONCE, attr_value = []\<rparr>,
        \<lparr>attr_type = MESSAGE_INTEGRITY, attr_value = []\<rparr>]) sample_client
     (sample_server\<lparr>nonce_map := [([], \<lparr>entry_nonce = [], nonce_created_at = 0\<rparr>)]\<rparr>) = Panics"
  by (rule short_integrity_panics [OF hmac_sample, where na = "\<lparr>attr_type = NONCE, attr_value = []\<rparr>" and
        ua = "\<lparr>attr_type = USERNAME, attr_value = []\<rparr>" and mi = "\<lparr>attr_type = MESSAGE_INTEGRITY, attr_value = []\<rparr>" and
        entry = "\<lparr>entry_nonce = [], nonce_created_at = 0\<rparr>" and pw = "''secret''"])
     (simp_all add: sample_request_def get_attribute_def attribute_types lossy_empty hm_get_def sample_env_def
        get_password_for_user_def)

end
