(* ===== verification/Transports.thy ===== *)
theory Transports
  imports Server_Protocol "HOL-Library.Sublist"
begin

text \<open>
  The listeners of \<open>src/server.rs\<close> around the handlers: \<open>run_udp\<close> with its worker queues,
  \<open>run_tcp\<close> and \<open>run_tls\<close> with their frame buffers, \<open>run_dtls\<close>, the relay tasks and the
  cleanup tasks. The whole running server is the record \<open>system\<close>; each event is one step
  between two suspension points of a task, so a sequence of events is an interleaving of the
  tasks. The hash of a client address, the standard library's \<open>DefaultHasher\<close>, is a parameter.

  A panic ends the task it happens in and nothing else. Under the server invariant it happens
  before a handler changes a table, so the step leaves the server record as it was.
\<close>

section \<open>The running server\<close>

record stream_conn =
  conn_peer :: socket_addr
  conn_buf :: bytes

record system =
  srv :: turn_server
  udp_addr :: socket_addr
  queues :: "(bytes \<times> socket_addr) list list"
  alive :: "bool list"
  streams :: "(nat, stream_conn) hashmap"
  dtls_conns :: "(nat, socket_addr) hashmap"

definition QUEUE_CAPACITY :: nat where
  "QUEUE_CAPACITY = 1024"

definition run_udp :: "nat \<Rightarrow> socket_addr \<Rightarrow> turn_server \<Rightarrow> system" where
  "run_udp cpus addr s =
     (let num_workers = max cpus 4
      in \<lparr>srv = s\<lparr>alloc := set_main_socket addr (alloc s)\<rparr>, udp_addr = addr,
          queues = replicate num_workers [], alive = replicate num_workers True,
          streams = [], dtls_conns = []\<rparr>)"

text \<open>The receiving task: pick the worker by the hash of the client, drop when its queue is full
  or its task is gone.\<close>

definition worker_idx :: "(socket_addr \<Rightarrow> u64) \<Rightarrow> nat \<Rightarrow> socket_addr \<Rightarrow> nat" where
  "worker_idx hash num_workers peer = unat (hash peer) mod num_workers"

definition udp_recv :: "(socket_addr \<Rightarrow> u64) \<Rightarrow> bytes \<Rightarrow> socket_addr \<Rightarrow> system \<Rightarrow> system" where
  "udp_recv hash data peer x =
     (let i = worker_idx hash (length (queues x)) peer
      in if alive x ! i \<and> length (queues x ! i) < QUEUE_CAPACITY
         then x\<lparr>queues := (queues x)[i := queues x ! i @ [(data, peer)]]\<rparr>
         else x)"

text \<open>A worker takes the next datagram of its queue. A panic ends it and drops its queue.\<close>

definition udp_work :: "crypto \<Rightarrow> env \<Rightarrow> nat \<Rightarrow> system \<Rightarrow> system \<times> effect list" where
  "udp_work c e i x =
     (if i < length (queues x) \<and> alive x ! i then
        (case queues x ! i of
           [] \<Rightarrow> (x, [])
         | (data, peer) # rest \<Rightarrow>
             (case handle_udp_message c e data peer (srv x) of
                Panics \<Rightarrow> (x\<lparr>queues := (queues x)[i := []], alive := (alive x)[i := False]\<rparr>, [])
              | Returns (s, effs, resp) \<Rightarrow>
                  (x\<lparr>srv := s, queues := (queues x)[i := rest]\<rparr>,
                   effs @ (case resp of
                     Some r \<Rightarrow> if send_fails e peer then [] else [ToClient (UdpSender (udp_addr x)) peer r]
                   | None \<Rightarrow> []))))
      else (x, []))"

section \<open>Stream and DTLS connections\<close>

definition stream_open :: "nat \<Rightarrow> socket_addr \<Rightarrow> system \<Rightarrow> system" where
  "stream_open conn peer x =
     (if hm_get (streams x) conn = None then
        x\<lparr>srv := (srv x)\<lparr>alloc := register_client_sender peer (StreamSender conn) (alloc (srv x))\<rparr>,
          streams := hm_insert conn \<lparr>conn_peer = peer, conn_buf = []\<rparr> (streams x)\<rparr>
      else x)"

definition stream_close :: "nat \<Rightarrow> system \<Rightarrow> system" where
  "stream_close conn x =
     (case hm_get (streams x) conn of
        None \<Rightarrow> x
      | Some k \<Rightarrow> x\<lparr>srv := (srv x)\<lparr>alloc := unregister_client_sender (conn_peer k) (alloc (srv x))\<rparr>,
                    streams := hm_remove conn (streams x)\<rparr>)"

text \<open>A read appends to the buffer once the frames in it are used up; an empty read closes.\<close>

definition stream_data :: "nat \<Rightarrow> bytes \<Rightarrow> system \<Rightarrow> system" where
  "stream_data conn chunk x =
     (case hm_get (streams x) conn of
        None \<Rightarrow> x
      | Some k \<Rightarrow>
          if extract_stream_frame (conn_buf k) \<noteq> None then x
          else if chunk = [] then stream_close conn x
          else x\<lparr>streams := hm_insert conn (k\<lparr>conn_buf := conn_buf k @ chunk\<rparr>) (streams x)\<rparr>)"

text \<open>One turn of the \<open>while let Some(data) = extract_stream_frame\<close> loop. When the response
  cannot be written the connection is given up; a panic ends the connection's task, which
  leaves the client's sender registered.\<close>

definition stream_frame :: "crypto \<Rightarrow> env \<Rightarrow> nat \<Rightarrow> system \<Rightarrow> system \<times> effect list" where
  "stream_frame c e conn x =
     (case hm_get (streams x) conn of
        None \<Rightarrow> (x, [])
      | Some k \<Rightarrow>
          (case extract_stream_frame (conn_buf k) of
             None \<Rightarrow> (x, [])
           | Some (data, rest) \<Rightarrow>
               (case handle_tcp_message c e data (conn_peer k) (srv x) of
                  Panics \<Rightarrow> (x\<lparr>streams := hm_remove conn (streams x)\<rparr>, [])
                | Returns (s, effs, resp) \<Rightarrow>
                    (let x1 = x\<lparr>srv := s, streams := hm_insert conn (k\<lparr>conn_buf := rest\<rparr>) (streams x)\<rparr>
                     in case resp of
                          None \<Rightarrow> (x1, effs)
                        | Some r \<Rightarrow>
                            if send_fails e (conn_peer k) then (stream_close conn x1, effs)
                            else (x1, effs @ [ToClient (StreamSender conn) (conn_peer k) r])))))"

definition dtls_open :: "nat \<Rightarrow> socket_addr \<Rightarrow> system \<Rightarrow> system" where
  "dtls_open conn peer x =
     (if hm_get (dtls_conns x) conn = None then
        x\<lparr>srv := (srv x)\<lparr>alloc := register_client_sender peer (DtlsSender conn) (alloc (srv x))\<rparr>,
          dtls_conns := hm_insert conn peer (dtls_conns x)\<rparr>
      else x)"

definition dtls_close :: "nat \<Rightarrow> system \<Rightarrow> system" where
  "dtls_close conn x =
     (case hm_get (dtls_conns x) conn of
        None \<Rightarrow> x
      | Some peer \<Rightarrow> x\<lparr>srv := (srv x)\<lparr>alloc := unregister_client_sender peer (alloc (srv x))\<rparr>,
                       dtls_conns := hm_remove conn (dtls_conns x)\<rparr>)"

definition dtls_recv :: "crypto \<Rightarrow> env \<Rightarrow> nat \<Rightarrow> bytes \<Rightarrow> system \<Rightarrow> system \<times> effect list" where
  "dtls_recv c e conn data x =
     (case hm_get (dtls_conns x) conn of
        None \<Rightarrow> (x, [])
      | Some peer \<Rightarrow>
          if data = [] then (dtls_close conn x, [])
          else (case handle_dtls_message c e data peer (srv x) of
             Panics \<Rightarrow> (x\<lparr>dtls_conns := hm_remove conn (dtls_conns x)\<rparr>, [])
           | Returns (s, effs, resp) \<Rightarrow>
               (let x1 = x\<lparr>srv := s\<rparr>
                in case resp of
                     None \<Rightarrow> (x1, effs)
                   | Some r \<Rightarrow> if send_fails e peer then (dtls_close conn x1, effs)
                               else (x1, effs @ [ToClient (DtlsSender conn) peer r]))))"

section \<open>Steps\<close>

datatype event =
    Udp_Recv bytes socket_addr
  | Udp_Work nat env
  | Stream_Open nat socket_addr
  | Stream_Data nat bytes
  | Stream_Frame nat env
  | Stream_Close nat
  | Dtls_Open nat socket_addr
  | Dtls_Recv nat bytes env
  | Dtls_Close nat
  | Peer_Packet nat socket_addr bytes env
  | Task_Error nat
  | Tick_Allocations nat
  | Tick_Nonces nat
  | Tick_Channels nat

fun sys_step :: "crypto \<Rightarrow> (socket_addr \<Rightarrow> u64) \<Rightarrow> event \<Rightarrow> system \<Rightarrow> system \<times> effect list" where
  "sys_step c hash (Udp_Recv data peer) x = (udp_recv hash data peer x, [])"
| "sys_step c hash (Udp_Work i e) x = udp_work c e i x"
| "sys_step c hash (Stream_Open conn peer) x = (stream_open conn peer x, [])"
| "sys_step c hash (Stream_Data conn chunk) x = (stream_data conn chunk x, [])"
| "sys_step c hash (Stream_Frame conn e) x = stream_frame c e conn x"
| "sys_step c hash (Stream_Close conn) x = (stream_close conn x, [])"
| "sys_step c hash (Dtls_Open conn peer) x = (dtls_open conn peer x, [])"
| "sys_step c hash (Dtls_Recv conn data e) x = dtls_recv c e conn data x"
| "sys_step c hash (Dtls_Close conn) x = (dtls_close conn x, [])"
| "sys_step c hash (Peer_Packet tid peer data e) x =
     (case task_recv e tid peer data (alloc (srv x)) (chans (srv x)) of
        (t, effs) \<Rightarrow> (x\<lparr>srv := (srv x)\<lparr>alloc := t\<rparr>\<rparr>, effs))"
| "sys_step c hash (Task_Error tid) x = (x\<lparr>srv := (srv x)\<lparr>alloc := task_recv_error tid (alloc (srv x))\<rparr>\<rparr>, [])"
| "sys_step c hash (Tick_Allocations t0) x = (x\<lparr>srv := snd (allocation_cleanup t0 (srv x))\<rparr>, [])"
| "sys_step c hash (Tick_Nonces t0) x = (x\<lparr>srv := snd (nonce_cleanup t0 (srv x))\<rparr>, [])"
| "sys_step c hash (Tick_Channels t0) x = (x\<lparr>srv := snd (channel_cleanup t0 (srv x))\<rparr>, [])"

inductive reaches :: "crypto \<Rightarrow> (socket_addr \<Rightarrow> u64) \<Rightarrow> system \<Rightarrow> system \<Rightarrow> bool"
  for c hash x0 where
  start: "reaches c hash x0 x0"
| event: "reaches c hash x0 x \<Longrightarrow> sys_step c hash ev x = (x', effs) \<Longrightarrow> reaches c hash x0 x'"

section \<open>Invariants of the running server\<close>

text \<open>A machine whose steps keep an invariant keeps it along every sequence of events.\<close>

locale state_machine =
  fixes step :: "'e \<Rightarrow> 's \<Rightarrow> 's \<times> 'o"
    and inv :: "'s \<Rightarrow> bool"
  assumes step_inv: "inv s \<Longrightarrow> step ev s = (s', out) \<Longrightarrow> inv s'"
begin

lemma step_inv_fst: "inv s \<Longrightarrow> inv (fst (step ev s))"
  using step_inv [OF _ prod.collapse [symmetric]] by blast

lemma run_inv: "inv s \<Longrightarrow> inv (fold (\<lambda>ev s. fst (step ev s)) evs s)"
  by (induction evs arbitrary: s) (simp_all add: step_inv_fst)

end

text \<open>Queues never exceed their capacity, hold only datagrams of their own clients, and are empty
  once their worker is gone.\<close>

definition queue_ok :: "(socket_addr \<Rightarrow> u64) \<Rightarrow> nat \<Rightarrow> nat \<Rightarrow> bool \<Rightarrow> (bytes \<times> socket_addr) list \<Rightarrow> bool" where
  "queue_ok hash n i up q \<longleftrightarrow> length q \<le> QUEUE_CAPACITY \<and> (up \<or> q = []) \<and> (\<forall>(d, p) \<in> set q. worker_idx hash n p = i)"

definition queues_inv :: "(socket_addr \<Rightarrow> u64) \<Rightarrow> system \<Rightarrow> bool" where
  "queues_inv hash x \<longleftrightarrow> queues x \<noteq> [] \<and> length (alive x) = length (queues x) \<and>
     (\<forall>i < length (queues x). queue_ok hash (length (queues x)) i (alive x ! i) (queues x ! i))"

definition sys_inv :: "(socket_addr \<Rightarrow> u64) \<Rightarrow> system \<Rightarrow> bool" where
  "sys_inv hash x \<longleftrightarrow> srv_inv (srv x) \<and> queues_inv hash x"

lemma queues_inv_cong:
  "queues x' = queues x \<Longrightarrow> alive x' = alive x \<Longrightarrow> queues_inv hash x' \<longleftrightarrow> queues_inv hash x"
  by (simp add: queues_inv_def)

lemma worker_idx_less: "n > 0 \<Longrightarrow> worker_idx hash n p < n"
  by (simp add: worker_idx_def)

lemma queues_inv_update:
  assumes "queues_inv hash x" and "i < length (queues x)" and "queue_ok hash (length (queues x)) i up q"
    and "queues x' = (queues x)[i := q]" and "alive x' = (alive x)[i := up]"
  shows "queues_inv hash x'"
  using assms by (auto simp: queues_inv_def nth_list_update)

lemma queues_invD:
  "queues_inv hash x \<Longrightarrow> i < length (queues x) \<Longrightarrow> queue_ok hash (length (queues x)) i (alive x ! i) (queues x ! i)"
  by (simp add: queues_inv_def)

lemma udp_recv_queues_inv:
  assumes "queues_inv hash x"
  shows "queues_inv hash (udp_recv hash data peer x)"
proof -
  let ?i = "worker_idx hash (length (queues x)) peer"
  have i: "?i < length (queues x)" using assms by (intro worker_idx_less) (simp add: queues_inv_def)
  show ?thesis
  proof (cases "alive x ! ?i \<and> length (queues x ! ?i) < QUEUE_CAPACITY")
    case True
    show ?thesis
      by (rule queues_inv_update [OF assms i, of True "queues x ! ?i @ [(data, peer)]"])
         (use True queues_invD [OF assms i] list_update_id [of "alive x" ?i] in \<open>auto simp: queue_ok_def udp_recv_def Let_def\<close>)
  next
    case False
    then have "udp_recv hash data peer x = x" by (auto simp: udp_recv_def Let_def)
    then show ?thesis using assms by simp
  qed
qed

lemma udp_work_queues:
  "queues (fst (udp_work c e i x)) =
     (if i < length (queues x) \<and> alive x ! i \<and> queues x ! i \<noteq> []
      then (queues x)[i := if handle_udp_message c e (fst (hd (queues x ! i))) (snd (hd (queues x ! i))) (srv x) = Panics
                           then [] else tl (queues x ! i)]
      else queues x)"
  "alive (fst (udp_work c e i x)) =
     (if i < length (queues x) \<and> alive x ! i \<and> queues x ! i \<noteq> [] \<and>
         handle_udp_message c e (fst (hd (queues x ! i))) (snd (hd (queues x ! i))) (srv x) = Panics
      then (alive x)[i := False] else alive x)"
  by (auto simp: udp_work_def split: list.split rust.split prod.split)

lemma queue_ok_tl: "queue_ok hash n i up q \<Longrightarrow> queue_ok hash n i up (tl q)"
  by (cases q) (auto simp: queue_ok_def)

lemma udp_work_queues_inv:
  assumes "queues_inv hash x"
  shows "queues_inv hash (fst (udp_work c e i x))"
proof (cases "i < length (queues x) \<and> alive x ! i \<and> queues x ! i \<noteq> []")
  case True
  then have i: "i < length (queues x)" by simp
  let ?p = "handle_udp_message c e (fst (hd (queues x ! i))) (snd (hd (queues x ! i))) (srv x) = Panics"
  have "queue_ok hash (length (queues x)) i (\<not> ?p) (if ?p then [] else tl (queues x ! i))"
    using True queue_ok_tl [OF queues_invD [OF assms i]] by (simp add: queue_ok_def)
  then show ?thesis
    by (rule queues_inv_update [OF assms i])
       (use True list_update_id [of "alive x" i] in \<open>auto simp: udp_work_queues\<close>)
next
  case False
  then show ?thesis
    using assms queues_inv_cong [of "fst (udp_work c e i x)" x] by (auto simp: udp_work_queues)
qed

fun udp_event :: "event \<Rightarrow> bool" where
  "udp_event (Udp_Recv _ _) = True"
| "udp_event (Udp_Work _ _) = True"
| "udp_event _ = False"

lemma close_queues [simp]:
  "queues (stream_close conn x) = queues x" "alive (stream_close conn x) = alive x"
  "queues (dtls_close conn x) = queues x" "alive (dtls_close conn x) = alive x"
  by (simp_all add: stream_close_def dtls_close_def split: option.split)

lemma other_events_queues:
  assumes "\<not> udp_event ev"
  shows "queues (fst (sys_step c hash ev x)) = queues x" and "alive (fst (sys_step c hash ev x)) = alive x"
  using assms
  by (cases ev; simp add: stream_open_def stream_data_def stream_frame_def dtls_open_def dtls_recv_def Let_def
      split: option.split rust.split prod.split)+

lemma senders_srv_inv:
  "srv_inv (s\<lparr>alloc := register_client_sender p k (alloc s)\<rparr>) \<longleftrightarrow> srv_inv s"
  "srv_inv (s\<lparr>alloc := unregister_client_sender p (alloc s)\<rparr>) \<longleftrightarrow> srv_inv s"
  "srv_inv (s\<lparr>alloc := set_main_socket a (alloc s)\<rparr>) \<longleftrightarrow> srv_inv s"
  by (simp_all add: srv_inv_def register_client_sender_def unregister_client_sender_def set_main_socket_def
      table_inv_senders clients_unique_def channels_live_def)

lemma close_srv_inv [simp]:
  "srv_inv (srv (stream_close conn x)) \<longleftrightarrow> srv_inv (srv x)" "srv_inv (srv (dtls_close conn x)) \<longleftrightarrow> srv_inv (srv x)"
  by (simp_all add: stream_close_def dtls_close_def senders_srv_inv split: option.split)

lemma udp_work_srv_inv: "srv_inv (srv x) \<Longrightarrow> srv_inv (srv (fst (udp_work c e i x)))"
  by (auto simp: udp_work_def dest: handle_udp_message_inv split: list.split rust.split prod.split)

lemma stream_frame_srv_inv: "srv_inv (srv x) \<Longrightarrow> srv_inv (srv (fst (stream_frame c e conn x)))"
  by (auto simp: stream_frame_def Let_def dest: handle_tcp_message_inv split: option.split rust.split prod.split)

lemma dtls_recv_srv_inv: "srv_inv (srv x) \<Longrightarrow> srv_inv (srv (fst (dtls_recv c e conn data x)))"
  by (auto simp: dtls_recv_def handle_dtls_message_def Let_def dest: handle_udp_message_inv
      split: option.split rust.split prod.split)

lemma task_srv_inv:
  assumes "srv_inv s"
  shows "srv_inv (s\<lparr>alloc := fst (task_recv e tid peer data (alloc s) ct)\<rparr>)"
    and "srv_inv (s\<lparr>alloc := task_recv_error tid (alloc s)\<rparr>)"
proof -
  show "srv_inv (s\<lparr>alloc := fst (task_recv e tid peer data (alloc s) ct)\<rparr>)"
    by (rule srv_inv_same [OF assms task_recv_same [OF table_invD(1) [OF srv_invD(1) [OF assms]]]])
  show "srv_inv (s\<lparr>alloc := task_recv_error tid (alloc s)\<rparr>)"
    using assms table_inv_remove_task by (simp add: srv_inv_def task_recv_error_def clients_unique_def channels_live_def)
qed

lemma sys_step_srv_inv: "srv_inv (srv x) \<Longrightarrow> srv_inv (srv (fst (sys_step c hash ev x)))"
  by (cases ev)
     (simp_all add: udp_recv_def udp_work_srv_inv stream_open_def stream_data_def stream_frame_srv_inv dtls_open_def
        dtls_recv_srv_inv senders_srv_inv task_srv_inv allocation_cleanup_inv nonce_cleanup_inv channel_cleanup_inv
        case_prod_beta Let_def split: option.split)

lemma sys_step_queues_inv: "queues_inv hash x \<Longrightarrow> queues_inv hash (fst (sys_step c hash ev x))"
proof (cases "udp_event ev")
  case False
  then show "queues_inv hash x \<Longrightarrow> ?thesis"
    using other_events_queues [OF False, of c hash x] queues_inv_cong [of "fst (sys_step c hash ev x)" x] by simp
next
  case True
  then show "queues_inv hash x \<Longrightarrow> ?thesis"
    by (cases ev) (simp_all add: udp_recv_queues_inv udp_work_queues_inv)
qed

interpretation sys: state_machine "sys_step c hash" "sys_inv hash" for c hash
proof
  show "sys_inv hash x \<Longrightarrow> sys_step c hash ev x = (x', out) \<Longrightarrow> sys_inv hash x'" for x ev x' out
    using sys_step_srv_inv [of x c hash ev] sys_step_queues_inv [of hash x c ev] by (simp add: sys_inv_def)
qed

lemma sys_inv_start:
  assumes "srv_inv s"
  shows "sys_inv hash (run_udp cpus addr s)"
  using assms by (simp add: run_udp_def sys_inv_def senders_srv_inv queues_inv_def queue_ok_def Let_def)

text \<open>The invariant of the running server. From a freshly started server, after any
  interleaving of datagrams, worker steps, stream frames, DTLS packets, peer packets, connection
  set-up and tear-down, task failures and cleanup ticks, with any inputs and any panics on the
  way: every client owns at most one allocation, every channel belongs to a live allocation,
  relay ports, counters, bandwidth trackers and relay tasks agree with the allocations, the quota
  holds, and each worker queue holds at most 1024 datagrams, all of its own clients.\<close>

theorem reachable_states_are_consistent:
  assumes "srv_inv s" and "reaches c hash (run_udp cpus addr s) x"
  shows "table_inv 0 (alloc (srv x)) \<and> clients_unique (alloc (srv x)) \<and> channels_live (alloc (srv x)) (chans (srv x)) \<and>
    (\<forall>i < length (queues x). length (queues x ! i) \<le> QUEUE_CAPACITY \<and>
       (\<forall>(d, p) \<in> set (queues x ! i). worker_idx hash (length (queues x)) p = i))"
proof -
  from assms(2) have "sys_inv hash x"
    by induction (use assms(1) in \<open>auto intro: sys_inv_start sys.step_inv\<close>)
  then show ?thesis by (auto simp: sys_inv_def srv_inv_def queues_inv_def queue_ok_def)
qed

theorem reachable_states_are_consistent_witness:
  "\<exists>x. reaches sample_crypto (\<lambda>_. 0) (run_udp 4 (SocketV4 (Ipv4 0 0 0 0) 3478) sample_server) x \<and>
     queues x ! 0 = [([1], sample_client)] \<and> table_inv 0 (alloc (srv x))"
proof -
  let ?x0 = "run_udp 4 (SocketV4 (Ipv4 0 0 0 0) 3478) sample_server"
  have "reaches sample_crypto (\<lambda>_. 0) ?x0 (udp_recv (\<lambda>_. 0) [1] sample_client ?x0)"
    by (rule event [OF start, where ev = "Udp_Recv [1] sample_client"]) simp
  moreover have "queues (udp_recv (\<lambda>_. 0) [1] sample_client ?x0) ! 0 = [([1], sample_client)]"
    by (simp add: udp_recv_def run_udp_def worker_idx_def QUEUE_CAPACITY_def Let_def)
  ultimately show ?thesis
    using reachable_states_are_consistent [OF sample_server_inv(1)] by blast
qed

section \<open>Order of a client's datagrams\<close>

text \<open>What a step takes off a queue, and the datagrams handled along a sequence of events.\<close>

fun taken :: "event \<Rightarrow> system \<Rightarrow> (bytes \<times> socket_addr) list" where
  "taken (Udp_Work i e) x =
     (if i < length (queues x) \<and> alive x ! i \<and> queues x ! i \<noteq> [] then [hd (queues x ! i)] else [])"
| "taken _ x = []"

fun handled :: "crypto \<Rightarrow> (socket_addr \<Rightarrow> u64) \<Rightarrow> event list \<Rightarrow> system \<Rightarrow> (bytes \<times> socket_addr) list" where
  "handled c hash [] x = []"
| "handled c hash (ev # evs) x = taken ev x @ handled c hash evs (fst (sys_step c hash ev x))"

fun received :: "event list \<Rightarrow> (bytes \<times> socket_addr) list" where
  "received [] = []"
| "received (Udp_Recv d p # evs) = (d, p) # received evs"
| "received (_ # evs) = received evs"

definition of_client :: "socket_addr \<Rightarrow> (bytes \<times> socket_addr) list \<Rightarrow> (bytes \<times> socket_addr) list" where
  "of_client p = filter (\<lambda>(d, q). q = p)"

lemma of_client_simps [simp]:
  "of_client p [] = []" "of_client p (xs @ ys) = of_client p xs @ of_client p ys"
  "of_client p (x # xs) = (if snd x = p then x # of_client p xs else of_client p xs)"
  by (auto simp: of_client_def)

lemma length_queues_step: "length (queues (fst (sys_step c hash ev x))) = length (queues x)"
proof (cases "udp_event ev")
  case True
  then show ?thesis by (cases ev) (simp_all add: udp_recv_def udp_work_queues Let_def)
qed (simp add: other_events_queues)

lemma handled_order:
  assumes "queues_inv hash x"
  shows "subseq (of_client p (handled c hash evs x))
    (of_client p (queues x ! worker_idx hash (length (queues x)) p) @ of_client p (received evs))"
  using assms
proof (induction evs arbitrary: x)
  case (Cons ev evs)
  let ?x = "fst (sys_step c hash ev x)" and ?i = "worker_idx hash (length (queues x)) p"
  have IH: "subseq (of_client p (handled c hash evs ?x)) (of_client p (queues ?x ! ?i) @ of_client p (received evs))"
    using Cons.IH [OF sys_step_queues_inv [OF Cons.prems, of c ev]] by (simp add: length_queues_step)
  have i: "?i < length (queues x)" using Cons.prems by (intro worker_idx_less) (simp add: queues_inv_def)
  show ?case
  proof (cases ev)
    case (Udp_Recv d q)
    have "subseq (of_client p (queues ?x ! ?i)) (of_client p (queues x ! ?i) @ of_client p [(d, q)])"
      using i by (cases "worker_idx hash (length (queues x)) q = ?i") (auto simp: Udp_Recv udp_recv_def Let_def)
    then have "subseq (of_client p (queues ?x ! ?i) @ of_client p (received evs))
        ((of_client p (queues x ! ?i) @ of_client p [(d, q)]) @ of_client p (received evs))"
      by (intro list_emb_append_mono) simp_all
    from subseq_order.trans [OF IH this] show ?thesis
      by (cases "q = p") (simp_all add: Udp_Recv)
  next
    case (Udp_Work j e)
    show ?thesis
    proof (cases "j < length (queues x) \<and> alive x ! j \<and> queues x ! j \<noteq> []")
      case True
      then obtain h q where hq: "queues x ! j = h # q" by (cases "queues x ! j") auto
      show ?thesis
      proof (cases "j = ?i")
        case j: True
        have "subseq (of_client p (queues ?x ! ?i)) (of_client p q)"
          using True hq j by (auto simp: Udp_Work udp_work_queues)
        then have "subseq (of_client p (handled c hash evs ?x)) (of_client p q @ of_client p (received evs))"
          by (intro subseq_order.trans [OF IH]) (simp add: list_emb_append_mono)
        then show ?thesis using True hq j by (auto simp: Udp_Work)
      next
        case j: False
        have "snd h \<noteq> p"
          using queues_invD [OF Cons.prems, of j] True hq j by (auto simp: queue_ok_def)
        moreover have "queues ?x ! ?i = queues x ! ?i" using j by (simp add: Udp_Work udp_work_queues)
        ultimately show ?thesis using IH True hq by (simp add: Udp_Work)
      qed
    next
      case False
      then have "queues ?x = queues x" "taken ev x = []" by (auto simp: Udp_Work udp_work_queues)
      then show ?thesis using IH by (simp add: Udp_Work)
    qed
  qed (use IH other_events_queues(1) [of ev c hash x] in simp_all)
qed simp

text \<open>C11. Datagrams of one client are handled in the order they arrive: in every interleaving of
  the running server, the datagrams of a client that the workers handle are a subsequence of the
  datagrams received from it, so a Send never overtakes the CreatePermission before it, and
  none is handled twice. Some may be dropped, when a queue is full or its worker is gone.\<close>

theorem client_datagrams_in_order:
  assumes "srv_inv s"
  shows "subseq (of_client p (handled c hash evs (run_udp cpus addr s))) (of_client p (received evs))"
proof -
  let ?x = "run_udp cpus addr s"
  have inv: "queues_inv hash ?x" using sys_inv_start [OF assms] by (simp add: sys_inv_def)
  have "worker_idx hash (length (queues ?x)) p < max cpus 4"
    using worker_idx_less [of "max cpus 4"] by (simp add: run_udp_def Let_def)
  then have "queues ?x ! worker_idx hash (length (queues ?x)) p = []"
    by (simp add: run_udp_def Let_def)
  then show ?thesis using handled_order [OF inv, of p c evs] by simp
qed

theorem client_datagrams_in_order_witness:
  "subseq (of_client sample_client (handled sample_crypto (\<lambda>_. 0)
       [Udp_Recv [1] sample_client, Udp_Work 0 sample_env]
       (run_udp 4 (SocketV4 (Ipv4 0 0 0 0) 3478) sample_server))) [([1], sample_client)]"
  using client_datagrams_in_order [OF sample_server_inv(1), of sample_client sample_crypto "\<lambda>_. 0"
      "[Udp_Recv [1] sample_client, Udp_Work 0 sample_env]" 4 "SocketV4 (Ipv4 0 0 0 0) 3478"] by simp

section \<open>A panic in a worker\<close>

lemma dead_stays_dead:
  assumes "queues_inv hash x" and "i < length (queues x)" and "\<not> alive x ! i"
  shows "\<not> alive (fst (sys_step c hash ev x)) ! i"
proof (cases "udp_event ev")
  case True
  then show ?thesis
    using assms by (cases ev) (auto simp: queues_inv_def udp_recv_def udp_work_queues Let_def nth_list_update)
qed (use assms in \<open>simp add: other_events_queues\<close>)

lemma dead_worker_handles_nothing:
  assumes "queues_inv hash x" and "i < length (queues x)" and "\<not> alive x ! i"
    and "worker_idx hash (length (queues x)) p = i"
  shows "of_client p (handled c hash evs x) = []"
  using assms
proof (induction evs arbitrary: x)
  case (Cons ev evs)
  let ?x = "fst (sys_step c hash ev x)"
  have "of_client p (handled c hash evs ?x) = []"
    by (rule Cons.IH)
       (use Cons.prems dead_stays_dead [OF Cons.prems(1-3)] sys_step_queues_inv in \<open>simp_all add: length_queues_step\<close>)
  moreover have "of_client p (taken ev x) = []"
  proof (cases ev)
    case (Udp_Work j e)
    show ?thesis
    proof (cases "j < length (queues x) \<and> alive x ! j \<and> queues x ! j \<noteq> []")
      case True
      then obtain h q where hq: "queues x ! j = h # q" by (cases "queues x ! j") auto
      then have "snd h \<noteq> p"
        using queues_invD [OF Cons.prems(1), of j] True Cons.prems(3,4) by (auto simp: queue_ok_def)
      then show ?thesis using hq by (simp add: Udp_Work)
    qed (auto simp: Udp_Work)
  qed simp_all
  ultimately show ?case by simp
qed simp

text \<open>C12. One panicking datagram silences a worker for good: when the datagram a UDP worker takes
  makes the handler panic, then, whatever happens afterwards, no datagram of any client whose
  address hashes to this worker is ever handled again, although the receiving task keeps running.\<close>

theorem panic_silences_worker:
  assumes "sys_inv hash x" and "i < length (queues x)" and "alive x ! i" and "queues x ! i = (d, q) # rest"
    and "handle_udp_message c e d q (srv x) = Panics" and "worker_idx hash (length (queues x)) p = i"
  shows "of_client p (handled c hash evs (fst (sys_step c hash (Udp_Work i e) x))) = []"
proof (rule dead_worker_handles_nothing)
  let ?x = "fst (sys_step c hash (Udp_Work i e) x)"
  show "queues_inv hash ?x" using sys.step_inv_fst [OF assms(1), of c "Udp_Work i e"] by (simp add: sys_inv_def)
  show "i < length (queues ?x)" and "worker_idx hash (length (queues ?x)) p = i"
    using assms(2,6) by (simp_all only: length_queues_step)
  show "\<not> alive ?x ! i"
    using assms by (simp add: udp_work_queues sys_inv_def queues_inv_def)
qed

definition crash_server :: turn_server where
  "crash_server = sample_server\<lparr>nonce_map := [([], \<lparr>entry_nonce = [], nonce_created_at = 0\<rparr>)]\<rparr>"

definition crash_message :: message where
  "crash_message = sample_request Allocate [\<lparr>attr_type = USERNAME, attr_value = []\<rparr>, \<lparr>attr_type = NONCE, attr_value = []\<rparr>,
     \<lparr>attr_type = MESSAGE_INTEGRITY, attr_value = []\<rparr>]"

lemma crash_message_panics:
  "handle_udp_message sample_crypto sample_env (message_encode crash_message) sample_client
     (crash_server\<lparr>alloc := t\<rparr>) = Panics"
proof -
  have ok: "msg_ok crash_message"
    by (rule msg_ok_bound) (simp_all add: crash_message_def sample_request_def)
  have len: "length (message_encode crash_message) = 32"
    using length_message_encode [OF ok]
    by (simp add: crash_message_def sample_request_def length_attr_encode pad4_def)
  have not_ch: "\<not> is_channel_data_frame (message_encode crash_message)"
    by (simp add: is_channel_data_frame_def message_encode_def header_encode_def crash_message_def sample_request_def
        type_field_def put_u16_def be16_def is_channel_number_nat Let_def)
  have p: "message_parse (message_encode crash_message) = Some (canon crash_message)"
    using message_parse_encode_append [OF ok, of "[]"] by simp
  have "process_message sample_crypto sample_env (canon crash_message) sample_client (crash_server\<lparr>alloc := t\<rparr>) = Panics"
    by (rule integrity_slice_panics [OF hmac_sample, where na = "\<lparr>attr_type = NONCE, attr_value = []\<rparr>" and
          ua = "\<lparr>attr_type = USERNAME, attr_value = []\<rparr>" and mi = "\<lparr>attr_type = MESSAGE_INTEGRITY, attr_value = []\<rparr>" and
          entry = "\<lparr>entry_nonce = [], nonce_created_at = 0\<rparr>" and pw = "''secret''"])
       (simp_all add: crash_message_def crash_server_def sample_request_def get_attribute_def attribute_types lossy_empty
          hm_get_def sample_env_def get_password_for_user_def)
  then show ?thesis
    using len not_ch p by (simp add: handle_udp_message_def)
qed

theorem panic_silences_worker_witness:
  "of_client (SocketV4 (Ipv4 10 9 9 9) 7) (handled sample_crypto (\<lambda>_. 0) [Udp_Recv [1] (SocketV4 (Ipv4 10 9 9 9) 7), Udp_Work 0 sample_env]
     (fst (sys_step sample_crypto (\<lambda>_. 0) (Udp_Work 0 sample_env)
       (udp_recv (\<lambda>_. 0) (message_encode crash_message) sample_client
         (run_udp 4 (SocketV4 (Ipv4 0 0 0 0) 3478) crash_server))))) = []"
proof -
  let ?x = "udp_recv (\<lambda>_. 0) (message_encode crash_message) sample_client (run_udp 4 (SocketV4 (Ipv4 0 0 0 0) 3478) crash_server)"
  have "srv_inv crash_server"
    using srv_inv_nonces [OF sample_server_inv(1)] by (simp add: crash_server_def hm_wf_def)
  then have "sys_inv (\<lambda>_. 0) (run_udp 4 (SocketV4 (Ipv4 0 0 0 0) 3478) crash_server)" by (rule sys_inv_start)
  from sys.step_inv_fst [OF this, of sample_crypto "Udp_Recv (message_encode crash_message) sample_client"]
  have inv: "sys_inv (\<lambda>_. 0) ?x" by simp
  have x: "length (queues ?x) = 4" "alive ?x ! 0" "queues ?x ! 0 = [(message_encode crash_message, sample_client)]"
      "srv ?x = crash_server\<lparr>alloc := set_main_socket (SocketV4 (Ipv4 0 0 0 0) 3478) (alloc crash_server)\<rparr>"
    by (simp_all add: udp_recv_def run_udp_def worker_idx_def QUEUE_CAPACITY_def Let_def)
  show ?thesis
    by (rule panic_silences_worker [OF inv _ x(2,3)]) (simp_all add: x crash_message_panics worker_idx_def)
qed

end
