(* ===== verification/Rust_Str.thy ===== *)
theory Rust_Str
  imports Rust_Text
begin

text \<open>
  More of the standard library's \<open>str\<close>: searching, replacing, slicing at a byte offset,
  trimming Unicode white space and strict UTF-8 decoding, as \<open>src/oauth.rs\<close>,
  \<open>src/sds.rs\<close>, \<open>src/tls.rs\<close> and \<open>src/health.rs\<close> use them. As in \<open>Rust_Text\<close>, a string is its UTF-8 bytes.
\<close>

section \<open>Searching\<close>

text \<open>\<open>s.find(pat)\<close> for a string pattern: the byte offset of the first occurrence.\<close>

fun find_str :: "string \<Rightarrow> string \<Rightarrow> nat option" where
  "find_str pat [] = (if pat = [] then Some 0 else None)"
| "find_str pat (c # cs) = (if prefix pat (c # cs) then Some 0 else map_option Suc (find_str pat cs))"

text \<open>\<open>s.find(&[..][..])\<close> for a set of ASCII characters.\<close>

fun find_any :: "char list \<Rightarrow> string \<Rightarrow> nat option" where
  "find_any ps [] = None"
| "find_any ps (c # cs) = (if c \<in> set ps then Some 0 else map_option Suc (find_any ps cs))"

definition str_contains :: "string \<Rightarrow> string \<Rightarrow> bool" where
  "str_contains pat s \<longleftrightarrow> find_str pat s \<noteq> None"

text \<open>\<open>s.replace(a, b)\<close> of one ASCII character by another.\<close>

definition replace_char :: "char \<Rightarrow> char \<Rightarrow> string \<Rightarrow> string" where
  "replace_char a b s = map (\<lambda>c. if c = a then b else c) s"

definition strip_prefix :: "string \<Rightarrow> string \<Rightarrow> string option" where
  "strip_prefix p s = (if prefix p s then Some (drop (length p) s) else None)"

lemma find_str_skip:
  "p \<notin> set xs \<Longrightarrow> find_str (p # ps) (xs @ ys) = map_option ((+) (length xs)) (find_str (p # ps) ys)"
  by (induction xs; cases "find_str (p # ps) ys") auto

lemma find_str_here: "find_str (p # ps) (p # ps @ ys) = Some 0"
  by simp

lemma find_str_sound:
  "find_str pat s = Some n \<Longrightarrow> \<exists>xs ys. s = xs @ pat @ ys \<and> length xs = n"
proof (induction s arbitrary: n)
  case (Cons c cs)
  show ?case
  proof (cases "prefix pat (c # cs)")
    case True
    then obtain ys where "c # cs = pat @ ys" by (auto elim: prefixE)
    moreover have "n = 0" using True Cons.prems by simp
    ultimately have "c # cs = [] @ pat @ ys \<and> length [] = n" by simp
    then show ?thesis by blast
  next
    case False
    then obtain m where m: "find_str pat cs = Some m" "n = Suc m" using Cons.prems by auto
    from Cons.IH [OF m(1)] obtain xs ys where "cs = xs @ pat @ ys" "length xs = m" by blast
    then have "c # cs = (c # xs) @ pat @ ys \<and> length (c # xs) = n" using m(2) by simp
    then show ?thesis by blast
  qed
qed (auto split: if_splits)

lemma find_any_skip:
  "set xs \<inter> set ps = {} \<Longrightarrow> p \<in> set ps \<Longrightarrow> find_any ps (xs @ p # ys) = Some (length xs)"
  by (induction xs) auto

lemma find_any_None_iff: "find_any ps s = None \<longleftrightarrow> set s \<inter> set ps = {}"
  by (induction s) auto

lemma replace_char_id: "a \<notin> set s \<Longrightarrow> replace_char a b s = s"
  unfolding replace_char_def by (induction s) auto

lemma length_replace_char [simp]: "length (replace_char a b s) = length s"
  by (simp add: replace_char_def)

lemma strip_prefix_append [simp]: "strip_prefix p (p @ s) = Some s"
  by (simp add: strip_prefix_def)

lemma strip_prefix_Some_iff: "strip_prefix p s = Some r \<longleftrightarrow> s = p @ r"
  by (auto simp: strip_prefix_def elim: prefixE)

section \<open>Slicing\<close>

text \<open>A byte offset is a character boundary unless a continuation byte stands there.\<close>

definition is_char_boundary :: "string \<Rightarrow> nat \<Rightarrow> bool" where
  "is_char_boundary s n \<longleftrightarrow>
     n = length s \<or> n < length s \<and> (n = 0 \<or> (of_char (s ! n) :: nat) < 128 \<or> 192 \<le> (of_char (s ! n) :: nat))"

text \<open>\<open>&s[..n]\<close> panics past the end and inside a character.\<close>

definition str_prefix :: "string \<Rightarrow> nat \<Rightarrow> string rust" where
  "str_prefix s n = (if is_char_boundary s n then Returns (take n s) else Panics)"

lemma str_prefix_short: "length s < n \<Longrightarrow> str_prefix s n = Panics"
  by (simp add: str_prefix_def is_char_boundary_def)

section \<open>White space\<close>

text \<open>The UTF-8 encodings of the characters with the Unicode property White\_Space.\<close>

definition white_space :: "string list" where
  "white_space =
     [[CHR 0x09], [CHR 0x0A], [CHR 0x0B], [CHR 0x0C], [CHR 0x0D], [CHR 0x20],
      [CHR 0xC2, CHR 0x85], [CHR 0xC2, CHR 0xA0], [CHR 0xE1, CHR 0x9A, CHR 0x80]] @
     map (\<lambda>c. [CHR 0xE2, CHR 0x80, c])
       [CHR 0x80, CHR 0x81, CHR 0x82, CHR 0x83, CHR 0x84, CHR 0x85, CHR 0x86, CHR 0x87, CHR 0x88,
        CHR 0x89, CHR 0x8A, CHR 0xA8, CHR 0xA9, CHR 0xAF] @
     [[CHR 0xE2, CHR 0x81, CHR 0x9F], [CHR 0xE3, CHR 0x80, CHR 0x80]]"

lemma white_space_not_Nil: "w \<in> set white_space \<Longrightarrow> w \<noteq> []"
  by (auto simp: white_space_def)

lemma find_white_space: "find P white_space = Some w \<Longrightarrow> 0 < length w \<and> P w"
  by (metis find_Some_iff length_greater_0_conv nth_mem white_space_not_Nil)

function trim_start :: "string \<Rightarrow> string" where
  "trim_start s = (case find (\<lambda>w. prefix w s) white_space of None \<Rightarrow> s | Some w \<Rightarrow> trim_start (drop (length w) s))"
  by pat_completeness auto
termination
  by (relation "measure length") (auto dest!: find_white_space simp: prefix_def)

function trim_end :: "string \<Rightarrow> string" where
  "trim_end s =
     (case find (\<lambda>w. suffix w s) white_space of None \<Rightarrow> s | Some w \<Rightarrow> trim_end (take (length s - length w) s))"
  by pat_completeness auto
termination
  by (relation "measure length") (auto dest!: find_white_space simp: suffix_def)

declare trim_start.simps [simp del] trim_end.simps [simp del]

definition trim :: "string \<Rightarrow> string" where
  "trim s = trim_end (trim_start s)"

text \<open>Visible ASCII at both ends leaves a string alone.\<close>

definition visible :: "char \<Rightarrow> bool" where
  "visible c \<longleftrightarrow> 32 < (of_char c :: nat) \<and> (of_char c :: nat) < 128"

lemma white_space_ends:
  assumes "w \<in> set white_space"
  shows "\<not> visible (hd w)" and "\<not> visible (last w)"
  using assms by (auto simp: white_space_def visible_def of_char_def)

lemma trim_visible:
  assumes "s \<noteq> []" and "visible (hd s)" and "visible (last s)"
  shows "trim s = s"
proof -
  have "\<not> prefix w s" "\<not> suffix w s" if "w \<in> set white_space" for w
    using assms white_space_ends [OF that] white_space_not_Nil [OF that]
    by (auto simp: prefix_def suffix_def)
  then have "find (\<lambda>w. prefix w s) white_space = None" "find (\<lambda>w. suffix w s) white_space = None"
    by (auto simp: find_None_iff)
  then show ?thesis by (simp add: trim_def trim_start.simps trim_end.simps)
qed

lemma trim_Nil [simp]: "trim [] = []"
proof -
  have "\<not> prefix w []" "\<not> suffix w []" if "w \<in> set white_space" for w :: string
    using white_space_not_Nil [OF that] by auto
  then have "find (\<lambda>w. prefix w []) white_space = None" "find (\<lambda>w. suffix w []) white_space = None"
    by (simp_all only: find_None_iff) blast+
  then show ?thesis by (simp add: trim_def trim_start.simps trim_end.simps)
qed

lemma visible_digit: "is_digit c \<Longrightarrow> visible c"
  by (auto simp: is_digit_def visible_def)

lemma trim_show_nat [simp]: "trim (show_nat n) = show_nat n"
proof (rule trim_visible)
  have "\<forall>c\<in>set (show_nat n). visible c"
    using show_nat_digits [of n] by (auto simp: list_all_iff visible_digit)
  then show "visible (hd (show_nat n))" "visible (last (show_nat n))" by simp_all
qed simp

section \<open>Strict UTF-8\<close>

function utf8_valid :: "bytes \<Rightarrow> bool" where
  "utf8_valid bs =
     (if bs = [] then True else case utf8_step bs of (n, ok) \<Rightarrow> if ok then utf8_valid (drop n bs) else False)"
  by pat_completeness auto
termination
  by (relation "measure length") (auto dest: utf8_step_drops)

declare utf8_valid.simps [simp del]

text \<open>\<open>String::from_utf8(bs).ok()\<close>\<close>

definition from_utf8 :: "bytes \<Rightarrow> string option" where
  "from_utf8 bs = (if utf8_valid bs then Some (of_bytes bs) else None)"

text \<open>What a Rust \<open>String\<close> can hold.\<close>

definition is_str :: "string \<Rightarrow> bool" where
  "is_str s \<longleftrightarrow> utf8_valid (as_bytes s)"

lemma utf8_valid_ascii: "list_all (\<lambda>b. b < 0x80) bs \<Longrightarrow> utf8_valid bs"
proof (induction bs)
  case (Cons b bs)
  then have "utf8_step (b # bs) = (1, True)" by (simp add: utf8_step_def Let_def)
  with Cons show ?case by (subst utf8_valid.simps) simp
qed (simp add: utf8_valid.simps)

lemma is_str_ascii: "is_ascii s \<Longrightarrow> is_str s"
  unfolding is_str_def is_ascii_def
  by (rule utf8_valid_ascii) (auto simp: as_bytes_def list_all_iff word_less_nat_alt unat_of_nat)

lemma cont_append: "cont bs i lo hi \<Longrightarrow> cont (bs @ cs) i lo hi"
  by (auto simp: cont_def nth_append)

lemma utf8_step_append:
  assumes "bs \<noteq> []" and "utf8_step bs = (n, True)"
  shows "utf8_step (bs @ cs) = (n, True) \<and> n \<le> length bs"
proof -
  have hd: "(bs @ cs) ! 0 = bs ! 0" and len: "1 \<le> length bs"
    using assms(1) by (simp_all add: nth_append Suc_le_eq)
  show ?thesis
    using assms(2) unfolding utf8_step_def Let_def hd
    by (simp only: split: if_split_asm; simp add: cont_append; insert len; simp add: cont_def)
qed

lemma utf8_valid_append: "utf8_valid bs \<Longrightarrow> utf8_valid cs \<Longrightarrow> utf8_valid (bs @ cs)"
proof (induction bs rule: utf8_valid.induct)
  case (1 bs)
  show ?case
  proof (cases "bs = []")
    case False
    obtain n where n: "utf8_step bs = (n, True)" "utf8_valid (drop n bs)"
      using 1(2) False by (subst (asm) utf8_valid.simps) (auto split: prod.splits if_splits)
    have "utf8_valid (drop n bs @ cs)" using 1(1) False n 1(3) by auto
    then show ?thesis
      using utf8_step_append [OF False n(1), of cs] by (subst utf8_valid.simps) simp
  qed (use 1 in simp)
qed

lemma is_str_append: "is_str s \<Longrightarrow> is_str t \<Longrightarrow> is_str (s @ t)"
  by (simp add: is_str_def utf8_valid_append)

lemma from_utf8_as_bytes: "from_utf8 (as_bytes s) = (if is_str s then Some s else None)"
  by (simp add: from_utf8_def is_str_def)

end
