(* ===== verification/Addr_Parse.thy ===== *)
theory Addr_Parse
  imports Net_Addr
begin

text \<open>
  \<open>FromStr\<close> of the addresses of \<open>std::net\<close>, which reads the addresses of the configuration. A
  reader consumes a prefix of the text and returns the value with what is left; when it fails
  nothing is consumed.
\<close>

type_synonym 'a reader = "string \<Rightarrow> ('a \<times> string) option"

fun read_char :: "char \<Rightarrow> string \<Rightarrow> string option" where
  "read_char c [] = None"
| "read_char c (x # xs) = (if x = c then Some xs else None)"

text \<open>\<open>char::to_digit\<close> at radix 10 or 16.\<close>

definition to_digit :: "nat \<Rightarrow> char \<Rightarrow> nat option" where
  "to_digit radix c =
     (let n = of_char c :: nat;
          d = (if 48 \<le> n \<and> n \<le> 57 then n - 48 else if 97 \<le> n \<and> n \<le> 102 then n - 87
               else if 65 \<le> n \<and> n \<le> 70 then n - 55 else 36)
      in if d < radix then Some d else None)"

definition is_radix_digit :: "nat \<Rightarrow> char \<Rightarrow> bool" where
  "is_radix_digit radix c \<longleftrightarrow> to_digit radix c \<noteq> None"

definition radix_val :: "nat \<Rightarrow> string \<Rightarrow> nat" where
  "radix_val radix ds = foldl (\<lambda>acc c. radix * acc + the (to_digit radix c)) 0 ds"

text \<open>
  \<open>read_number\<close>: all the digits that follow, at least one, at most \<open>max_digits\<close> where that is
  given, without a leading zero unless it is allowed, of a value below \<open>bound\<close>.
\<close>

definition read_number :: "nat \<Rightarrow> nat option \<Rightarrow> bool \<Rightarrow> nat \<Rightarrow> nat reader" where
  "read_number radix max_digits allow_zero_prefix bound s =
     (let ds = takeWhile (is_radix_digit radix) s; n = radix_val radix ds in
      if ds = [] \<or> (case max_digits of Some k \<Rightarrow> length ds > k | None \<Rightarrow> False) \<or> n \<ge> bound \<or>
         (\<not> allow_zero_prefix \<and> hd ds = CHR ''0'' \<and> length ds > 1)
      then None else Some (n, drop (length ds) s))"

definition read_octet :: "nat reader" where
  "read_octet = read_number 10 (Some 3) False 256"

text \<open>\<open>read_separator(sep, i, inner)\<close>: the separator before every element but the first.\<close>

definition read_separator :: "char \<Rightarrow> nat \<Rightarrow> 'a reader \<Rightarrow> 'a reader" where
  "read_separator sep i inner s =
     (if i > 0 then (case read_char sep s of None \<Rightarrow> None | Some r \<Rightarrow> inner r) else inner s)"

definition read_ipv4_addr :: "ipv4_addr reader" where
  "read_ipv4_addr s =
     Option.bind (read_separator CHR ''.'' 0 read_octet s) (\<lambda>(a, s1).
     Option.bind (read_separator CHR ''.'' 1 read_octet s1) (\<lambda>(b, s2).
     Option.bind (read_separator CHR ''.'' 2 read_octet s2) (\<lambda>(c, s3).
     Option.bind (read_separator CHR ''.'' 3 read_octet s3) (\<lambda>(d, s4).
       Some (Ipv4 (word_of_nat a) (word_of_nat b) (word_of_nat c) (word_of_nat d), s4)))))"

text \<open>
  \<open>read_groups\<close>: groups \<open>i\<close>, \<open>i + 1\<close>, \<dots> of at most \<open>limit\<close>, with \<open>k\<close> of them left. The result
  is the groups read, whether they end in an IPv4 address, and the rest.
\<close>

fun read_groups :: "nat \<Rightarrow> nat \<Rightarrow> nat \<Rightarrow> string \<Rightarrow> u16 list \<times> bool \<times> string" where
  "read_groups limit i 0 s = ([], False, s)"
| "read_groups limit i (Suc k) s =
     (case (if i + 1 < limit then read_separator CHR '':'' i read_ipv4_addr s else None) of
        Some (Ipv4 a b c d, r) \<Rightarrow> ([be16 a b, be16 c d], True, r)
      | None \<Rightarrow>
          (case read_separator CHR '':'' i (read_number 16 (Some 4) True 65536) s of
             None \<Rightarrow> ([], False, s)
           | Some (g, r) \<Rightarrow>
               (case read_groups limit (Suc i) k r of (gs, v4, r') \<Rightarrow> (word_of_nat g # gs, v4, r'))))"

definition ipv6_of_groups :: "u16 list \<Rightarrow> 128 word" where
  "ipv6_of_groups gs = foldl (\<lambda>acc g. push_bit 16 acc OR ucast g) 0 gs"

definition read_ipv6_addr :: "128 word reader" where
  "read_ipv6_addr s =
     (case read_groups 8 0 8 s of (hd_groups, hd_ipv4, r) \<Rightarrow>
        if length hd_groups = 8 then Some (ipv6_of_groups hd_groups, r)
        else if hd_ipv4 then None
        else Option.bind (read_char CHR '':'' r) (\<lambda>r1.
             Option.bind (read_char CHR '':'' r1) (\<lambda>r2.
               let limit = 8 - (length hd_groups + 1) in
               case read_groups limit 0 limit r2 of (tl_groups, _, r3) \<Rightarrow>
                 Some (ipv6_of_groups (hd_groups @ replicate (8 - length hd_groups - length tl_groups) 0 @ tl_groups), r3))))"

definition read_port :: "u16 reader" where
  "read_port s =
     Option.bind (read_char CHR '':'' s) (\<lambda>r.
     Option.bind (read_number 10 None True 65536 r) (\<lambda>(n, r'). Some (word_of_nat n, r')))"

definition read_scope_id :: "u32 reader" where
  "read_scope_id s =
     Option.bind (read_char CHR ''%'' s) (\<lambda>r.
     Option.bind (read_number 10 None True (2 ^ 32) r) (\<lambda>(n, r'). Some (word_of_nat n, r')))"

definition read_socket_addr_v4 :: "socket_addr reader" where
  "read_socket_addr_v4 s =
     Option.bind (read_ipv4_addr s) (\<lambda>(ip, r).
     Option.bind (read_port r) (\<lambda>(port, r'). Some (SocketV4 ip port, r')))"

definition read_socket_addr_v6 :: "socket_addr reader" where
  "read_socket_addr_v6 s =
     Option.bind (read_char CHR ''['' s) (\<lambda>s1.
     Option.bind (read_ipv6_addr s1) (\<lambda>(ip, s2).
     let (scope, s3) = (case read_scope_id s2 of Some (sc, r) \<Rightarrow> (sc, r) | None \<Rightarrow> (0, s2)) in
     Option.bind (read_char CHR '']'' s3) (\<lambda>s4.
     Option.bind (read_port s4) (\<lambda>(port, s5). Some (SocketV6 ip port 0 scope, s5)))))"

text \<open>\<open>parse_with\<close>: the reader has to consume everything.\<close>

definition parse_with :: "'a reader \<Rightarrow> string \<Rightarrow> 'a option" where
  "parse_with rd s = (case rd s of Some (x, []) \<Rightarrow> Some x | _ \<Rightarrow> None)"

definition parse_ipv4_addr :: "string \<Rightarrow> ipv4_addr option" where
  "parse_ipv4_addr s = parse_with read_ipv4_addr s"

definition parse_socket_addr :: "string \<Rightarrow> socket_addr option" where
  "parse_socket_addr s =
     parse_with (\<lambda>s. case read_socket_addr_v4 s of Some r \<Rightarrow> Some r | None \<Rightarrow> read_socket_addr_v6 s) s"

section \<open>Reading what was printed\<close>

lemma to_digit_10: "to_digit 10 c = (if is_digit c then Some (digit_val c) else None)"
  by (auto simp: to_digit_def is_digit_def digit_val_def Let_def)

lemma radix_val_10: "list_all is_digit ds \<Longrightarrow> radix_val 10 ds = digits_val ds"
proof -
  have "list_all is_digit ds \<Longrightarrow> foldl (\<lambda>acc c. 10 * acc + the (to_digit 10 c)) a ds =
      foldl (\<lambda>acc c. 10 * acc + digit_val c) a ds" for a
    by (induction ds arbitrary: a) (simp_all add: to_digit_10)
  then show "list_all is_digit ds \<Longrightarrow> ?thesis" by (simp add: radix_val_def digits_val_def)
qed

lemma show_nat_no_leading_zero: "length (show_nat n) > 1 \<Longrightarrow> hd (show_nat n) \<noteq> CHR ''0''"
proof (induction n rule: show_nat.induct)
  case (1 n)
  show ?case
  proof (cases "n < 10")
    case False
    then have s: "show_nat n = show_nat (n div 10) @ [digit_char (n mod 10)]" by (subst show_nat.simps) simp
    show ?thesis
    proof (cases "n div 10 < 10")
      case True
      then have "show_nat (n div 10) = [digit_char (n div 10)]" by (subst show_nat.simps) simp
      moreover have "digit_char (n div 10) \<noteq> CHR ''0''"
        using True False of_char_digit_char [of "n div 10"] by (auto simp: of_char_def)
      ultimately show ?thesis by (simp add: s)
    next
      case big: False
      then have "length (show_nat (n div 10)) > 1" by (subst show_nat.simps) (simp add: Suc_lessI)
      then show ?thesis using 1 False by (simp add: s)
    qed
  qed (use 1 in \<open>subst (asm) show_nat.simps, simp\<close>)
qed

lemma length_show_nat_octet: "n < 256 \<Longrightarrow> length (show_nat n) \<le> 3"
proof -
  have "length (show_nat n) \<le> 1" if "n < 10" for n using that by (subst show_nat.simps) simp
  then have "length (show_nat n) \<le> 2" if "n < 100" for n
    using that by (subst show_nat.simps) (simp add: less_mult_imp_div_less)
  then show "n < 256 \<Longrightarrow> ?thesis" by (subst show_nat.simps) (simp add: less_mult_imp_div_less)
qed

lemma read_number_show:
  assumes "n < bound" and "case k of Some m \<Rightarrow> length (show_nat n) \<le> m | None \<Rightarrow> True"
    and "case r of [] \<Rightarrow> True | c # _ \<Rightarrow> \<not> is_digit c"
  shows "read_number 10 k z bound (show_nat n @ r) = Some (n, r)"
proof -
  have dig: "is_radix_digit 10 = is_digit" by (rule ext) (simp add: is_radix_digit_def to_digit_10)
  have "takeWhile is_digit r = []" using assms(3) by (cases r) simp_all
  then have "takeWhile is_digit (show_nat n @ r) = show_nat n"
    using show_nat_digits [of n] by (simp add: list_all_iff takeWhile_append2)
  moreover have "radix_val 10 (show_nat n) = n" by (simp add: radix_val_10 show_nat_digits)
  ultimately show ?thesis
    using assms(1,2) show_nat_no_leading_zero [of n]
    by (auto simp: read_number_def Let_def dig split: option.splits)
qed

lemma read_octet_show:
  "case r of [] \<Rightarrow> True | c # _ \<Rightarrow> \<not> is_digit c \<Longrightarrow> read_octet (show_nat (unat (b :: u8)) @ r) = Some (unat b, r)"
proof -
  have "unat b < 256" using unsigned_less [of b, where ?'a = nat] by simp
  then show "case r of [] \<Rightarrow> True | c # _ \<Rightarrow> \<not> is_digit c \<Longrightarrow> ?thesis"
    unfolding read_octet_def by (intro read_number_show) (simp_all add: length_show_nat_octet)
qed

lemma read_ipv4_show:
  "case r of [] \<Rightarrow> True | c # _ \<Rightarrow> \<not> is_digit c \<Longrightarrow> read_ipv4_addr (ipv4_to_string ip @ r) = Some (ip, r)"
  by (cases ip) (simp add: read_ipv4_addr_def read_separator_def read_octet_show)

text \<open>Printed IPv4 addresses and socket addresses are read back.\<close>

lemma parse_ipv4_to_string: "parse_ipv4_addr (ipv4_to_string ip) = Some ip"
  using read_ipv4_show [of "[]" ip] by (simp add: parse_ipv4_addr_def parse_with_def)

lemma parse_sock_to_string_v4: "parse_socket_addr (sock_to_string (SocketV4 ip port)) = Some (SocketV4 ip port)"
proof -
  have "read_number 10 None True 65536 (show_nat (unat port) @ []) = Some (unat port, [])"
    by (rule read_number_show) simp_all
  then show ?thesis
    using read_ipv4_show [of "CHR '':'' # show_nat (unat port)" ip]
    by (simp add: parse_socket_addr_def parse_with_def read_socket_addr_v4_def read_port_def)
qed

end
