(* ===== verification/Config.thy ===== *)
theory Config
  imports Auth_Manager Rust_Str Addr_Parse
begin

text \<open>
  The configuration of \<open>src/config.rs\<close>: its records, its defaults, and reading and writing the
  file. The TOML printer and parser are a third-party crate: the record \<open>toml\<close> is a parameter.
  A file system maps a path to the bytes of a file.
\<close>

section \<open>Data\<close>

record listen_config =
  protocol :: string
  address :: string

record server_config =
  cfg_realm :: string
  external_ip :: string
  relay_bind_ip :: "string option"
  start_port :: u16
  end_port :: u16
  listening :: "listen_config list"
  cfg_max_concurrent :: "nat option"
  cfg_max_bandwidth :: "u64 option"
  cfg_max_duration :: "u32 option"
  cfg_dump_interval :: u64
  cfg_dump_skip :: bool
  cfg_server_name :: string
  cfg_stun_enabled :: bool
  cfg_turn_enabled :: bool

record http_config =
  http_address :: string
  turn_rest_enabled :: "bool option"
  turn_rest_secret :: "string option"
  turn_rest_default_lifetime :: "u64 option"
  http_admin_username :: "string option"
  http_admin_password :: "string option"
  http_admin_acl :: "string list"
  http_trust_proxy :: "bool option"

record certificate_config =
  source :: string
  cert_path :: "string option"
  key_path :: "string option"
  domains :: "string list"
  email :: "string option"
  environment :: "string option"
  cache_dir :: "string option"
  http01_address :: "string option"
  renew_before_days :: "u64 option"
  sds_address :: "string option"
  sds_api :: "string option"
  sds_resource_name :: "string option"
  sds_node_id :: "string option"
  sds_cluster :: "string option"
  sds_timeout_secs :: "u64 option"

record log_config =
  log_file :: "string option"
  log_level :: string

record user_config =
  uc_username :: string
  uc_password :: string
  uc_type :: string
  uc_expires_at :: "u64 option"
  uc_max_allocations :: "nat option"
  uc_bandwidth_limit :: "u64 option"
  uc_ip_whitelist :: "string list option"
  uc_max_duration :: "u32 option"

record acl_rule_config =
  rc_ip_range :: string
  rc_action :: string
  rc_priority :: "u32 option"

record auth_config =
  ac_users :: "user_config list"
  ac_api_keys :: "(string, string) hashmap"
  ac_acl_rules :: "acl_rule_config list"

record config =
  cfg_server :: server_config
  cfg_http :: "http_config option"
  cfg_certificates :: "certificate_config option"
  cfg_auth :: auth_config
  cfg_log :: log_config

section \<open>Defaults\<close>

definition http_config_default :: http_config where
  "http_config_default =
     \<lparr>http_address = ''0.0.0.0:8080'', turn_rest_enabled = Some False, turn_rest_secret = None,
      turn_rest_default_lifetime = Some 3600, http_admin_username = None, http_admin_password = None,
      http_admin_acl = [''127.0.0.1''], http_trust_proxy = Some False\<rparr>"

definition log_config_default :: log_config where
  "log_config_default = \<lparr>log_file = None, log_level = ''info''\<rparr>"

text \<open>\<open>pkg\<close> is the package name and version that the build puts in.\<close>

definition config_default :: "string \<Rightarrow> config" where
  "config_default pkg =
     \<lparr>cfg_server =
        \<lparr>cfg_realm = ''miuturn'', external_ip = ''0.0.0.0'', relay_bind_ip = None,
         start_port = 49152, end_port = 65535,
         listening = [\<lparr>protocol = ''udp'', address = ''0.0.0.0:3478''\<rparr>, \<lparr>protocol = ''tcp'', address = ''0.0.0.0:3478''\<rparr>],
         cfg_max_concurrent = None, cfg_max_bandwidth = None, cfg_max_duration = None,
         cfg_dump_interval = 30, cfg_dump_skip = True, cfg_server_name = pkg,
         cfg_stun_enabled = True, cfg_turn_enabled = True\<rparr>,
      cfg_http = None, cfg_certificates = None,
      cfg_auth = \<lparr>ac_users = [], ac_api_keys = [],
        ac_acl_rules = [\<lparr>rc_ip_range = ''0.0.0.0/0'', rc_action = ''Allow'', rc_priority = Some 0\<rparr>]\<rparr>,
      cfg_log = log_config_default\<rparr>"

text \<open>\<open>self.address.parse().unwrap()\<close>\<close>

definition listen_addr :: "listen_config \<Rightarrow> socket_addr rust" where
  "listen_addr l = (case parse_socket_addr (address l) of Some a \<Rightarrow> Returns a | None \<Rightarrow> Panics)"

section \<open>Files\<close>

record toml =
  toml_from_str :: "string \<Rightarrow> config option"
  toml_to_string :: "config \<Rightarrow> string option"

type_synonym files = "string \<rightharpoonup> string"

text \<open>\<open>fs::write\<close> truncates and writes: it may succeed, fail before it opens the file, or leave
  a part of the text behind.\<close>

datatype write_outcome = Written | Refused | Partly string

fun fs_write :: "write_outcome \<Rightarrow> string \<Rightarrow> string \<Rightarrow> files \<Rightarrow> bool \<times> files" where
  "fs_write Written path body fs = (True, fs(path \<mapsto> body))"
| "fs_write Refused path body fs = (False, fs)"
| "fs_write (Partly rest) path body fs = (False, fs(path \<mapsto> rest))"

definition read_to_string :: "string \<Rightarrow> files \<Rightarrow> string option" where
  "read_to_string path fs = (case fs path of Some body \<Rightarrow> if is_str body then Some body else None | None \<Rightarrow> None)"

definition config_load :: "toml \<Rightarrow> string \<Rightarrow> files \<Rightarrow> config option" where
  "config_load tm path fs = (case read_to_string path fs of None \<Rightarrow> None | Some body \<Rightarrow> toml_from_str tm body)"

definition config_save :: "toml \<Rightarrow> write_outcome \<Rightarrow> config \<Rightarrow> string \<Rightarrow> files \<Rightarrow> bool \<times> files" where
  "config_save tm wr cfg path fs =
     (case toml_to_string tm cfg of None \<Rightarrow> (False, fs) | Some body \<Rightarrow> fs_write wr path body fs)"

text \<open>What is documented of the TOML crate: a value that prints is printed as text and read back.
  The map of API keys is a \<open>HashMap\<close>, so its entries may come back in another order.\<close>

definition same_config :: "config \<Rightarrow> config \<Rightarrow> bool" where
  "same_config cfg cfg' \<longleftrightarrow>
     mset (ac_api_keys (cfg_auth cfg')) = mset (ac_api_keys (cfg_auth cfg)) \<and>
     cfg' = cfg\<lparr>cfg_auth := (cfg_auth cfg)\<lparr>ac_api_keys := ac_api_keys (cfg_auth cfg')\<rparr>\<rparr>"

definition toml_roundtrips :: "toml \<Rightarrow> bool" where
  "toml_roundtrips tm \<longleftrightarrow>
     (\<forall>cfg body. toml_to_string tm cfg = Some body \<longrightarrow>
        is_str body \<and> (\<exists>cfg'. toml_from_str tm body = Some cfg' \<and> same_config cfg cfg'))"

lemma same_config_refl: "same_config cfg cfg"
  by (simp add: same_config_def)

lemma same_config_fields:
  assumes "same_config cfg cfg'"
  shows "cfg_server cfg' = cfg_server cfg" and "cfg_http cfg' = cfg_http cfg"
    and "ac_users (cfg_auth cfg') = ac_users (cfg_auth cfg)"
    and "ac_acl_rules (cfg_auth cfg') = ac_acl_rules (cfg_auth cfg)"
    and "set (map snd (ac_api_keys (cfg_auth cfg'))) = set (map snd (ac_api_keys (cfg_auth cfg)))"
proof -
  obtain keys where cfg': "cfg' = cfg\<lparr>cfg_auth := (cfg_auth cfg)\<lparr>ac_api_keys := keys\<rparr>\<rparr>"
      "mset (ac_api_keys (cfg_auth cfg')) = mset (ac_api_keys (cfg_auth cfg))"
    using assms unfolding same_config_def by blast
  show "cfg_server cfg' = cfg_server cfg" "cfg_http cfg' = cfg_http cfg"
    "ac_users (cfg_auth cfg') = ac_users (cfg_auth cfg)" "ac_acl_rules (cfg_auth cfg') = ac_acl_rules (cfg_auth cfg)"
    by (simp_all add: cfg'(1))
  show "set (map snd (ac_api_keys (cfg_auth cfg'))) = set (map snd (ac_api_keys (cfg_auth cfg)))"
    using cfg'(2) by (metis mset_map set_mset_mset)
qed

lemma load_saved:
  assumes "toml_roundtrips tm" and "config_save tm wr cfg path fs = (True, fs')"
  obtains cfg' where "config_load tm path fs' = Some cfg'" and "same_config cfg cfg'"
proof -
  obtain body where body: "toml_to_string tm cfg = Some body"
    using assms(2) by (cases "toml_to_string tm cfg") (auto simp: config_save_def)
  then have "fs' = fs(path \<mapsto> body)" using assms(2) by (cases wr) (auto simp: config_save_def)
  moreover obtain cfg' where "is_str body" "toml_from_str tm body = Some cfg'" "same_config cfg cfg'"
    using assms(1) body unfolding toml_roundtrips_def by blast
  ultimately show thesis by (intro that) (simp_all add: config_load_def read_to_string_def)
qed

section \<open>The user database in the configuration\<close>

definition user_type_of :: "string \<Rightarrow> user_type" where
  "user_type_of s = (if s = ''temporary'' then Temporary else if s = ''api_key'' then ApiKey else Fixed)"

fun user_type_name :: "user_type \<Rightarrow> string" where
  "user_type_name Temporary = ''temporary''"
| "user_type_name Fixed = ''fixed''"
| "user_type_name ApiKey = ''api_key''"

lemma user_type_of_name [simp]: "user_type_of (user_type_name ty) = ty"
  by (cases ty) (simp_all add: user_type_of_def)

definition user_to_config :: "user \<Rightarrow> user_config" where
  "user_to_config u =
     \<lparr>uc_username = username u, uc_password = password u, uc_type = user_type_name (utype u),
      uc_expires_at = expires_at u, uc_max_allocations = Some (max_allocations u),
      uc_bandwidth_limit = bandwidth_limit u, uc_ip_whitelist = ip_whitelist u,
      uc_max_duration = user_max_duration_secs u\<rparr>"

fun acl_action_name :: "acl_action \<Rightarrow> string" where
  "acl_action_name Allow = ''Allow''"
| "acl_action_name Deny = ''Deny''"

definition rule_to_config :: "acl_rule \<Rightarrow> acl_rule_config" where
  "rule_to_config r =
     \<lparr>rc_ip_range = ip_range r, rc_action = acl_action_name (acl_action r), rc_priority = Some (priority r)\<rparr>"

end
