(* ===== verification/Metrics.thy ===== *)
theory Metrics
  imports Rust_Text
begin

text \<open>
  The metrics of \<open>src/metrics.rs\<close>: counters behind one lock, a snapshot, and the text in
  which the snapshot is exported. Counters are \<open>u64\<close> and wrap.
\<close>

record metrics =
  m_total_allocations :: u64
  m_active_allocations :: u64
  m_total_bytes_relayed :: u64
  m_total_messages :: u64
  m_total_requests :: u64
  m_successful_requests :: u64
  m_failed_requests :: u64
  m_auth_failures :: u64
  m_total_channel_binds :: u64
  m_active_channels :: u64
  m_last_request_duration_ms :: u64
  m_start_time :: nat

definition metrics_new :: "nat \<Rightarrow> metrics" where
  "metrics_new t0 =
     \<lparr>m_total_allocations = 0, m_active_allocations = 0, m_total_bytes_relayed = 0, m_total_messages = 0,
      m_total_requests = 0, m_successful_requests = 0, m_failed_requests = 0, m_auth_failures = 0,
      m_total_channel_binds = 0, m_active_channels = 0, m_last_request_duration_ms = 0, m_start_time = t0\<rparr>"

definition record_allocation :: "metrics \<Rightarrow> metrics" where
  "record_allocation m = m\<lparr>m_total_allocations := m_total_allocations m + 1,
     m_active_allocations := m_active_allocations m + 1\<rparr>"

definition record_allocation_dropped :: "metrics \<Rightarrow> metrics" where
  "record_allocation_dropped m =
     (if m_active_allocations m > 0 then m\<lparr>m_active_allocations := m_active_allocations m - 1\<rparr> else m)"

definition record_bytes_relayed :: "nat \<Rightarrow> metrics \<Rightarrow> metrics" where
  "record_bytes_relayed n m = m\<lparr>m_total_bytes_relayed := m_total_bytes_relayed m + word_of_nat n,
     m_total_messages := m_total_messages m + 1\<rparr>"

text \<open>The duration is given in nanoseconds and kept in milliseconds.\<close>

definition record_request :: "bool \<Rightarrow> nat \<Rightarrow> bool \<Rightarrow> metrics \<Rightarrow> metrics" where
  "record_request success duration auth_failed m =
     (let m1 = m\<lparr>m_total_requests := m_total_requests m + 1\<rparr>;
          m2 = (if success then m1\<lparr>m_successful_requests := m_successful_requests m1 + 1\<rparr>
                else m1\<lparr>m_failed_requests := m_failed_requests m1 + 1\<rparr>);
          m3 = (if auth_failed then m2\<lparr>m_auth_failures := m_auth_failures m2 + 1\<rparr> else m2)
      in m3\<lparr>m_last_request_duration_ms := word_of_nat (duration div 1000000)\<rparr>)"

definition record_channel_bind :: "metrics \<Rightarrow> metrics" where
  "record_channel_bind m = m\<lparr>m_total_channel_binds := m_total_channel_binds m + 1,
     m_active_channels := m_active_channels m + 1\<rparr>"

definition record_channel_unbind :: "metrics \<Rightarrow> metrics" where
  "record_channel_unbind m =
     (if m_active_channels m > 0 then m\<lparr>m_active_channels := m_active_channels m - 1\<rparr> else m)"

record metrics_snapshot =
  s_total_allocations :: u64
  s_active_allocations :: u64
  s_total_bytes_relayed :: u64
  s_total_messages :: u64
  s_total_requests :: u64
  s_successful_requests :: u64
  s_failed_requests :: u64
  s_auth_failures :: u64
  s_total_channel_binds :: u64
  s_active_channels :: u64
  s_last_request_duration_ms :: u64
  s_uptime_secs :: u64

definition snapshot :: "nat \<Rightarrow> metrics \<Rightarrow> metrics_snapshot" where
  "snapshot t m =
     \<lparr>s_total_allocations = m_total_allocations m, s_active_allocations = m_active_allocations m,
      s_total_bytes_relayed = m_total_bytes_relayed m, s_total_messages = m_total_messages m,
      s_total_requests = m_total_requests m, s_successful_requests = m_successful_requests m,
      s_failed_requests = m_failed_requests m, s_auth_failures = m_auth_failures m,
      s_total_channel_binds = m_total_channel_binds m, s_active_channels = m_active_channels m,
      s_last_request_duration_ms = m_last_request_duration_ms m,
      s_uptime_secs = word_of_nat ((t - m_start_time m) div 1000000000)\<rparr>"

section \<open>Export\<close>

definition newline :: string where
  "newline = [CHR 0x0A]"

text \<open>The three lines of one metric: help text, type, and name with value.\<close>

definition metric_lines :: "string \<Rightarrow> string \<Rightarrow> string \<Rightarrow> u64 \<Rightarrow> string" where
  "metric_lines name help kind v =
     ''# HELP '' @ name @ '' '' @ help @ newline @ ''# TYPE '' @ name @ '' '' @ kind @ newline @
     name @ '' '' @ show_nat (unat v) @ newline"

definition export_prometheus :: "nat \<Rightarrow> metrics \<Rightarrow> string" where
  "export_prometheus t m =
     (let snap = snapshot t m in
      metric_lines ''turn_total_allocations'' ''Total number of allocations created'' ''counter'' (s_total_allocations snap) @
      metric_lines ''turn_active_allocations'' ''Current number of active allocations'' ''gauge'' (s_active_allocations snap) @
      metric_lines ''turn_total_bytes_relayed'' ''Total bytes relayed'' ''counter'' (s_total_bytes_relayed snap) @
      metric_lines ''turn_total_messages'' ''Total messages relayed'' ''counter'' (s_total_messages snap) @
      metric_lines ''turn_total_requests'' ''Total TURN requests received'' ''counter'' (s_total_requests snap) @
      metric_lines ''turn_successful_requests'' ''Successful requests'' ''counter'' (s_successful_requests snap) @
      metric_lines ''turn_failed_requests'' ''Failed requests'' ''counter'' (s_failed_requests snap) @
      metric_lines ''turn_auth_failures'' ''Authentication failures'' ''counter'' (s_auth_failures snap) @
      metric_lines ''turn_total_channel_binds'' ''Total channel binds'' ''counter'' (s_total_channel_binds snap) @
      metric_lines ''turn_active_channels'' ''Current active channels'' ''gauge'' (s_active_channels snap) @
      metric_lines ''turn_request_duration_ms'' ''Last request duration'' ''gauge'' (s_last_request_duration_ms snap) @
      metric_lines ''turn_uptime_seconds'' ''Server uptime'' ''gauge'' (s_uptime_secs snap))"

section \<open>Histories\<close>

text \<open>The state after any sequence of recordings.\<close>

inductive recorded :: "nat \<Rightarrow> metrics \<Rightarrow> bool" where
  rec_new: "recorded 0 (metrics_new t0)"
| rec_allocation: "recorded n m \<Longrightarrow> recorded (Suc n) (record_allocation m)"
| rec_dropped: "recorded n m \<Longrightarrow> recorded (Suc n) (record_allocation_dropped m)"
| rec_bytes: "recorded n m \<Longrightarrow> recorded (Suc n) (record_bytes_relayed k m)"
| rec_request: "recorded n m \<Longrightarrow> recorded (Suc n) (record_request ok d af m)"
| rec_bind: "recorded n m \<Longrightarrow> recorded (Suc n) (record_channel_bind m)"
| rec_unbind: "recorded n m \<Longrightarrow> recorded (Suc n) (record_channel_unbind m)"

lemma unat_u64_Suc: "unat (w :: u64) \<le> n \<Longrightarrow> n < 2 ^ 64 - 1 \<Longrightarrow> unat (w + 1) = Suc (unat w)"
  by (simp add: unat_word_ariths)

lemma unat_u64_pred: "0 < (w :: u64) \<Longrightarrow> unat (w - 1) = unat w - 1"
  by (simp add: unat_sub word_le_nat_alt word_less_nat_alt)

lemmas record_defs =
  record_allocation_def record_allocation_dropped_def record_bytes_relayed_def record_request_def
  record_channel_bind_def record_channel_unbind_def metrics_new_def

definition metrics_inv :: "nat \<Rightarrow> metrics \<Rightarrow> bool" where
  "metrics_inv n m \<longleftrightarrow>
     unat (m_active_allocations m) \<le> unat (m_total_allocations m) \<and> unat (m_total_allocations m) \<le> n \<and>
     unat (m_active_channels m) \<le> unat (m_total_channel_binds m) \<and> unat (m_total_channel_binds m) \<le> n \<and>
     unat (m_auth_failures m) \<le> unat (m_total_requests m) \<and> unat (m_total_requests m) \<le> n \<and>
     unat (m_total_requests m) = unat (m_successful_requests m) + unat (m_failed_requests m)"

lemma metrics_inv_step:
  assumes "metrics_inv n m" and "n < 2 ^ 64 - 1"
  shows "metrics_inv (Suc n) (record_allocation m)" and "metrics_inv (Suc n) (record_allocation_dropped m)"
    and "metrics_inv (Suc n) (record_bytes_relayed k m)" and "metrics_inv (Suc n) (record_channel_bind m)"
    and "metrics_inv (Suc n) (record_channel_unbind m)" and "metrics_inv (Suc n) (record_request ok d af m)"
proof -
  note inv = assms(1) [unfolded metrics_inv_def]
  have s: "unat (w + 1) = Suc (unat w)" if "unat w \<le> n" for w :: u64
    using that assms(2) by (rule unat_u64_Suc)
  show "metrics_inv (Suc n) (record_allocation m)"
    using inv by (simp add: metrics_inv_def record_allocation_def s)
  show "metrics_inv (Suc n) (record_channel_bind m)"
    using inv by (simp add: metrics_inv_def record_channel_bind_def s)
  show "metrics_inv (Suc n) (record_bytes_relayed k m)"
    using inv by (simp add: metrics_inv_def record_bytes_relayed_def)
  show "metrics_inv (Suc n) (record_allocation_dropped m)"
    using inv by (auto simp: metrics_inv_def record_allocation_dropped_def unat_u64_pred)
  show "metrics_inv (Suc n) (record_channel_unbind m)"
    using inv by (auto simp: metrics_inv_def record_channel_unbind_def unat_u64_pred)
  show "metrics_inv (Suc n) (record_request ok d af m)"
    using inv by (cases ok; cases af) (simp_all add: metrics_inv_def record_request_def s)
qed

section \<open>Properties of the metrics\<close>



text \<open>
  How a scraper reads the export: the first line that starts with the metric's name and a
  space; the rest of the line is the value.
\<close>

definition scrape :: "string \<Rightarrow> string \<Rightarrow> nat option" where
  "scrape name text =
     (case find (\<lambda>l. take (Suc (length name)) l = name @ '' '') (split_on CHR 0x0A text) of
        Some l \<Rightarrow> parse_uint 64 (drop (Suc (length name)) l)
      | None \<Rightarrow> None)"

definition metric_name :: "string \<Rightarrow> bool" where
  "metric_name s \<longleftrightarrow> s \<noteq> [] \<and> CHR '' '' \<notin> set s \<and> CHR 0x0A \<notin> set s \<and> hd s \<noteq> CHR ''#''"

lemma newline_notin_show_nat [simp]: "CHR 0x0A \<notin> set (show_nat n)"
  by (rule not_digit_notin_show_nat) (simp add: is_digit_def of_char_def)

lemma name_prefix_iff:
  assumes "metric_name a" and "metric_name b"
  shows "take (Suc (length b)) (a @ CHR '' '' # rest) = b @ '' '' \<longleftrightarrow> a = b"
proof
  assume t: "take (Suc (length b)) (a @ CHR '' '' # rest) = b @ '' ''"
  then obtain r where "a @ CHR '' '' # rest = (b @ '' '') @ r"
    by (metis append_take_drop_id)
  then have "a @ CHR '' '' # rest = b @ CHR '' '' # r" by simp
  from append_sep_inj [OF this] assms show "a = b"
    unfolding metric_name_def by blast
qed simp

lemma hash_prefix:
  "metric_name b \<Longrightarrow> take (Suc (length b)) (CHR ''#'' # rest) \<noteq> b @ '' ''"
  by (cases b) (auto simp: metric_name_def)

lemma scrape_metric_lines:
  assumes "metric_name name" and "metric_name name'" and "CHR 0x0A \<notin> set help" and "CHR 0x0A \<notin> set kind"
  shows "scrape name' (metric_lines name help kind v @ rest) =
    (if name = name' then Some (unat v) else scrape name' rest)"
proof -
  let ?h = "''# HELP '' @ name @ '' '' @ help" and ?t = "''# TYPE '' @ name @ '' '' @ kind"
  let ?v = "name @ '' '' @ show_nat (unat v)"
  have nn: "CHR 0x0A \<notin> set name" using assms(1) by (simp add: metric_name_def)
  have eq: "metric_lines name help kind v @ rest =
      ?h @ CHR 0x0A # ?t @ CHR 0x0A # ?v @ CHR 0x0A # rest"
    by (simp add: metric_lines_def newline_def)
  have h: "CHR 0x0A \<notin> set ?h" "CHR 0x0A \<notin> set ?t" "CHR 0x0A \<notin> set ?v"
    using assms nn by simp_all
  have "split_on CHR 0x0A (metric_lines name help kind v @ rest) = ?h # ?t # ?v # split_on CHR 0x0A rest"
    unfolding eq split_on_append [OF h(1)] split_on_append [OF h(2)] split_on_append [OF h(3)] ..
  moreover have "unat v < 2 ^ 64" using unsigned_less [of v, where ?'a = nat] by simp
  moreover have "take (Suc (length name')) ?v = name' @ '' '' \<longleftrightarrow> name = name'"
    using name_prefix_iff [OF assms(1,2)] by simp
  ultimately show ?thesis
    using hash_prefix [OF assms(2)] by (simp add: scrape_def parse_uint_show_nat)
qed

lemma metric_names:
  "metric_name ''turn_total_allocations''"
  "metric_name ''turn_active_allocations''"
  "metric_name ''turn_total_bytes_relayed''"
  "metric_name ''turn_total_messages''"
  "metric_name ''turn_total_requests''"
  "metric_name ''turn_successful_requests''"
  "metric_name ''turn_failed_requests''"
  "metric_name ''turn_auth_failures''"
  "metric_name ''turn_total_channel_binds''"
  "metric_name ''turn_active_channels''"
  "metric_name ''turn_request_duration_ms''"
  "metric_name ''turn_uptime_seconds''"
  by code_simp+

lemma help_texts:
  "CHR 0x0A \<notin> set ''Total number of allocations created''"
  "CHR 0x0A \<notin> set ''Current number of active allocations''"
  "CHR 0x0A \<notin> set ''Total bytes relayed''"
  "CHR 0x0A \<notin> set ''Total messages relayed''"
  "CHR 0x0A \<notin> set ''Total TURN requests received''"
  "CHR 0x0A \<notin> set ''Successful requests''"
  "CHR 0x0A \<notin> set ''Failed requests''"
  "CHR 0x0A \<notin> set ''Authentication failures''"
  "CHR 0x0A \<notin> set ''Total channel binds''"
  "CHR 0x0A \<notin> set ''Current active channels''"
  "CHR 0x0A \<notin> set ''Last request duration''"
  "CHR 0x0A \<notin> set ''Server uptime''"
  by code_simp+

lemma metric_kinds: "CHR 0x0A \<notin> set ''counter''" "CHR 0x0A \<notin> set ''gauge''"
  by code_simp+

lemmas scrape_metric_lines_last = scrape_metric_lines [where rest = "[]", unfolded append_Nil2]

text \<open>The export can be scraped: for every metric of the snapshot, reading the exported text
  by the metric's name gives back the snapshot's value.\<close>

theorem export_scrapes_back:
  "let text = export_prometheus t m; snap = snapshot t m in
   scrape ''turn_total_allocations'' text = Some (unat (s_total_allocations snap)) \<and>
   scrape ''turn_active_allocations'' text = Some (unat (s_active_allocations snap)) \<and>
   scrape ''turn_total_bytes_relayed'' text = Some (unat (s_total_bytes_relayed snap)) \<and>
   scrape ''turn_total_messages'' text = Some (unat (s_total_messages snap)) \<and>
   scrape ''turn_total_requests'' text = Some (unat (s_total_requests snap)) \<and>
   scrape ''turn_successful_requests'' text = Some (unat (s_successful_requests snap)) \<and>
   scrape ''turn_failed_requests'' text = Some (unat (s_failed_requests snap)) \<and>
   scrape ''turn_auth_failures'' text = Some (unat (s_auth_failures snap)) \<and>
   scrape ''turn_total_channel_binds'' text = Some (unat (s_total_channel_binds snap)) \<and>
   scrape ''turn_active_channels'' text = Some (unat (s_active_channels snap)) \<and>
   scrape ''turn_request_duration_ms'' text = Some (unat (s_last_request_duration_ms snap)) \<and>
   scrape ''turn_uptime_seconds'' text = Some (unat (s_uptime_secs snap))"
  unfolding export_prometheus_def Let_def
  by (intro conjI; simp only: scrape_metric_lines scrape_metric_lines_last metric_names help_texts
      metric_kinds not_False_eq_True; simp)

end
