(* ===== verification/Admin_Console.thy ===== *)
theory Admin_Console
  imports Config Short_Term Metrics Allocation_Table "HOL-Library.List_Lexorder" "HOL-Library.Char_ord"
begin

text \<open>
  The HTTP interface of \<open>src/health.rs\<close>: the admin console with its session cookie and access
  list, the user and rule management with its persistence, the credential endpoints and the
  health and metrics pages. The web framework turns a request into the arguments of a handler;
  a constructor of \<open>http_request\<close> carries them. A handler call is one transition of the
  \<open>console\<close>: the user database, which the relay shares, and the files. JSON objects list their
  members in the order of the source.
\<close>

section \<open>Data\<close>

datatype json =
    JNull
  | JBool bool
  | JNum nat
  | JStr string
  | JArr "json list"
  | JObj "(string \<times> json) list"

datatype page = LoginPage | AdminPage | RedirectPage

datatype http_response =
    Redirect string
  | Html page
  | Json json
  | Plain string
  | Forbidden_403

record cookie =
  cookie_name :: string
  cookie_value :: string
  cookie_path :: string
  http_only :: bool
  same_site_lax :: bool
  removal :: bool

text \<open>A response is what is sent and the cookies it sets.\<close>

type_synonym reply = "cookie list \<times> http_response"

record turn_rest_state =
  rest_enabled :: bool
  credential_manager :: "short_term_manager option"

record app_state =
  admin_username :: "string option"
  admin_password :: "string option"
  turn_rest :: turn_rest_state
  app_metrics :: "metrics option"
  config_path :: "string option"
  app_external_ip :: string
  listen_configs :: "listen_config list"
  admin_acl :: "string list"
  trust_proxy :: bool

record console =
  con_auth :: auth_manager
  con_files :: files

text \<open>What the runtime decides during a call: the clock in seconds since the epoch and in
  nanoseconds, the statistics of the relay, how a write ends; and the package of the build.\<close>

record http_env =
  http_secs :: u64
  http_now :: nat
  http_stats :: server_stats
  http_write :: write_outcome
  http_pkg :: string

text \<open>The cookie jar and the headers of a request as the framework hands them over, names with
  values, and the peer's address. The jar and query parameters have one value per name.\<close>

record http_meta =
  cookies :: "(string \<times> string) list"
  headers :: "(string \<times> string) list"
  remote :: socket_addr

record add_user_request =
  au_username :: string
  au_password :: string
  au_type :: string
  au_max_allocations :: "u32 option"
  au_expires_at :: "u64 option"
  au_bandwidth_limit :: "u64 option"
  au_ip_whitelist :: "string list option"
  au_max_duration :: "u32 option"

record update_user_request =
  uu_username :: string
  uu_password :: "string option"
  uu_type :: string
  uu_max_allocations :: "u32 option"
  uu_expires_at :: "u64 option"
  uu_bandwidth_limit :: "u64 option"
  uu_ip_whitelist :: "string list option"
  uu_max_duration :: "u32 option"

record add_acl_request =
  aa_ip_range :: string
  aa_action :: string
  aa_priority :: u32

record update_acl_request =
  original_ip_range :: string
  original_priority :: u32
  ua_ip_range :: string
  ua_action :: string
  ua_priority :: u32

datatype http_request =
    GetHealth
  | PostTurnCredentials string "u64 option"
  | GetIceServers string "u64 option"
  | GetRoot
  | GetConsole
  | GetDashboard
  | PostLogin string string
  | GetStats
  | PostReload
  | PostApiLogin string string
  | PostUser add_user_request
  | DeleteUser "(string \<times> string) list"
  | PutUser update_user_request
  | PostAcl add_acl_request
  | DeleteAcl "(string \<times> string) list"
  | PutAcl update_acl_request
  | PostLogout
  | GetMetrics

section \<open>Sessions and the access list\<close>

definition SESSION_COOKIE :: string where
  "SESSION_COOKIE = ''admin_session''"

definition SESSION_VALUE :: string where
  "SESSION_VALUE = ''authenticated''"

definition check_auth :: "(string \<times> string) list \<Rightarrow> app_state \<Rightarrow> bool" where
  "check_auth jar app =
     (if admin_username app = None then True
      else case map_of jar SESSION_COOKIE of Some v \<Rightarrow> v = SESSION_VALUE | None \<Rightarrow> False)"

text \<open>\<open>HeaderValue::to_str\<close> accepts visible ASCII, spaces and tabs.\<close>

definition header_to_str :: "string \<Rightarrow> string option" where
  "header_to_str v =
     (if list_all (\<lambda>c. (of_char c :: nat) = 9 \<or> 32 \<le> (of_char c :: nat) \<and> (of_char c :: nat) < 127) v
      then Some v else None)"

definition client_ip :: "app_state \<Rightarrow> http_meta \<Rightarrow> string" where
  "client_ip app meta =
     (if trust_proxy app then
        (case Option.bind (map_of (headers meta) ''x-forwarded-for'') header_to_str of
           Some s \<Rightarrow> trim (hd (split_on CHR '','' s))
         | None \<Rightarrow>
             (case Option.bind (map_of (headers meta) ''x-real-ip'') header_to_str of
                Some s \<Rightarrow> trim s
              | None \<Rightarrow> ip_to_string (sock_ip (remote meta))))
      else ip_to_string (sock_ip (remote meta)))"

definition admin_allowed :: "app_state \<Rightarrow> http_meta \<Rightarrow> bool" where
  "admin_allowed app meta \<longleftrightarrow>
     admin_acl app = [] \<or> list_ex (\<lambda>rng. ip_in_range (client_ip app meta) rng) (admin_acl app)"

section \<open>Persistence\<close>

text \<open>The configuration that is written: the file's own, or the default, with users and rules replaced.\<close>

definition config_to_save :: "toml \<Rightarrow> http_env \<Rightarrow> string \<Rightarrow> console \<Rightarrow> config" where
  "config_to_save tm he path con =
     (let cfg = (if con_files con path \<noteq> None
        then (case config_load tm path (con_files con) of Some cfg \<Rightarrow> cfg | None \<Rightarrow> config_default (http_pkg he))
        else config_default (http_pkg he))
      in cfg\<lparr>cfg_auth := (cfg_auth cfg)\<lparr>ac_users := map user_to_config (list_users (con_auth con)),
           ac_acl_rules := map rule_to_config (list_acl_rules (con_auth con))\<rparr>\<rparr>)"

definition save_config :: "toml \<Rightarrow> http_env \<Rightarrow> app_state \<Rightarrow> console \<Rightarrow> bool \<times> console" where
  "save_config tm he app con =
     (case config_path app of
        None \<Rightarrow> (True, con)
      | Some path \<Rightarrow>
          (case config_save tm (http_write he) (config_to_save tm he path con) path (con_files con) of
             (ok, fs) \<Rightarrow> (ok, con\<lparr>con_files := fs\<rparr>)))"

text \<open>The handlers log a failed save and go on.\<close>

definition saved :: "toml \<Rightarrow> http_env \<Rightarrow> app_state \<Rightarrow> console \<Rightarrow> console" where
  "saved tm he app con = snd (save_config tm he app con)"

section \<open>Handlers\<close>

definition unauthorized :: http_response where
  "unauthorized = Json (JObj [(''success'', JBool False), (''error'', JStr ''Unauthorized'')])"

definition console_handler :: "app_state \<Rightarrow> (string \<times> string) list \<Rightarrow> http_response" where
  "console_handler app jar =
     (if check_auth jar app then Redirect ''/console/dashboard''
      else if admin_username app \<noteq> None then Html LoginPage
      else Html AdminPage)"

definition dashboard_handler :: "app_state \<Rightarrow> (string \<times> string) list \<Rightarrow> http_response" where
  "dashboard_handler app jar = (if \<not> check_auth jar app then Html RedirectPage else Html AdminPage)"

definition session_cookie :: cookie where
  "session_cookie = \<lparr>cookie_name = SESSION_COOKIE, cookie_value = SESSION_VALUE, cookie_path = ''/'',
     http_only = True, same_site_lax = True, removal = False\<rparr>"

definition credentials_match :: "app_state \<Rightarrow> string \<Rightarrow> string \<Rightarrow> bool" where
  "credentials_match app name pw =
     (case (admin_username app, admin_password app) of
        (Some u, Some p) \<Rightarrow> name = u \<and> pw = p
      | _ \<Rightarrow> False)"

definition login_handler :: "app_state \<Rightarrow> string \<Rightarrow> string \<Rightarrow> reply" where
  "login_handler app name pw =
     (if credentials_match app name pw then ([session_cookie], Redirect ''/console/dashboard'')
      else ([], Redirect ''/console?error=1''))"

definition logout_handler :: reply where
  "logout_handler =
     ([\<lparr>cookie_name = SESSION_COOKIE, cookie_value = [], cookie_path = ''/'', http_only = True,
        same_site_lax = True, removal = True\<rparr>], Redirect ''/console'')"

definition api_login_handler :: "app_state \<Rightarrow> string \<Rightarrow> string \<Rightarrow> reply" where
  "api_login_handler app name pw =
     (if credentials_match app name pw
      then ([session_cookie], Json (JObj [(''success'', JBool True), (''token'', JStr ''admin-token'')]))
      else ([], Json (JObj [(''success'', JBool False), (''error'', JStr ''Invalid credentials'')])))"

definition jopt :: "('a \<Rightarrow> json) \<Rightarrow> 'a option \<Rightarrow> json" where
  "jopt f x = (case x of Some v \<Rightarrow> f v | None \<Rightarrow> JNull)"

definition jword :: "'a :: len word \<Rightarrow> json" where
  "jword w = JNum (unat w)"

fun user_type_debug :: "user_type \<Rightarrow> string" where
  "user_type_debug Temporary = ''Temporary''"
| "user_type_debug Fixed = ''Fixed''"
| "user_type_debug ApiKey = ''ApiKey''"

definition user_json :: "user \<Rightarrow> json" where
  "user_json u = JObj
     [(''username'', JStr (username u)), (''user_type'', JStr (user_type_debug (utype u))),
      (''max_allocations'', JNum (max_allocations u)), (''expires_at'', jopt jword (expires_at u)),
      (''bandwidth_limit'', jopt jword (bandwidth_limit u)),
      (''max_allocation_duration_secs'', jopt jword (user_max_duration_secs u)),
      (''ip_whitelist'', jopt (\<lambda>ips. JArr (map JStr ips)) (ip_whitelist u))]"

definition rule_json :: "acl_rule \<Rightarrow> json" where
  "rule_json r = JObj
     [(''ip_range'', JStr (ip_range r)), (''action'', JStr (acl_action_name (acl_action r))),
      (''priority'', jword (priority r))]"

definition stats_members :: "server_stats \<Rightarrow> (string \<times> json) list" where
  "stats_members st =
     [(''total_allocations'', jword (total_allocations st)), (''active_allocations'', jword (active_allocations st)),
      (''total_bytes_relayed'', jword (total_bytes_relayed st)), (''total_messages'', jword (total_messages st))]"

definition stats_json_handler :: "http_env \<Rightarrow> app_state \<Rightarrow> (string \<times> string) list \<Rightarrow> console \<Rightarrow> http_response" where
  "stats_json_handler he app jar con =
     (if \<not> check_auth jar app then unauthorized
      else Json (JObj ([(''status'', JStr ''ok''), (''realm'', JStr (auth_realm (con_auth con)))] @
        stats_members (http_stats he) @
        [(''users'', JArr (map user_json (list_users (con_auth con)))),
         (''acl_rules'', JArr (map rule_json (list_acl_rules (con_auth con))))])))"

definition reload_handler :: "http_env \<Rightarrow> app_state \<Rightarrow> (string \<times> string) list \<Rightarrow> http_response" where
  "reload_handler he app jar =
     (if \<not> check_auth jar app then unauthorized
      else Json (JObj [(''success'', JBool True), (''message'', JStr ''Configuration reloaded''),
        (''stats'', JObj (take 2 (stats_members (http_stats he))))]))"

definition health_proxy_handler :: "http_env \<Rightarrow> http_response" where
  "health_proxy_handler he = Json (JObj ((''status'', JStr ''ok'') # stats_members (http_stats he)))"

definition max_allocations_or_10 :: "u32 option \<Rightarrow> nat" where
  "max_allocations_or_10 m = unat (case m of Some n \<Rightarrow> n | None \<Rightarrow> 10)"

definition user_reply :: "string \<Rightarrow> string \<Rightarrow> string \<Rightarrow> u32 option \<Rightarrow> http_response" where
  "user_reply msg name ty m = Json (JObj
     [(''success'', JBool True), (''message'', JStr msg),
      (''user'', JObj [(''username'', JStr name), (''user_type'', JStr ty),
        (''max_allocations'', JNum (max_allocations_or_10 m))])])"

definition add_user_handler ::
  "toml \<Rightarrow> http_env \<Rightarrow> app_state \<Rightarrow> (string \<times> string) list \<Rightarrow> add_user_request \<Rightarrow> console \<Rightarrow> console \<times> http_response" where
  "add_user_handler tm he app jar req con =
     (if \<not> check_auth jar app then (con, unauthorized)
      else let u = \<lparr>username = au_username req, password = au_password req, utype = user_type_of (au_type req),
                    user_created_at = http_secs he, expires_at = au_expires_at req,
                    max_allocations = max_allocations_or_10 (au_max_allocations req),
                    bandwidth_limit = au_bandwidth_limit req, ip_whitelist = au_ip_whitelist req,
                    user_max_duration_secs = au_max_duration req\<rparr>
        in (saved tm he app (con\<lparr>con_auth := add_user u (con_auth con)\<rparr>),
            user_reply ''User added'' (au_username req) (au_type req) (au_max_allocations req)))"

definition param_or :: "string \<Rightarrow> (string \<times> string) list \<Rightarrow> string" where
  "param_or k params = (case map_of params k of Some v \<Rightarrow> v | None \<Rightarrow> [])"

definition delete_user_handler ::
  "toml \<Rightarrow> http_env \<Rightarrow> app_state \<Rightarrow> (string \<times> string) list \<Rightarrow> (string \<times> string) list \<Rightarrow> console \<Rightarrow> console \<times> http_response" where
  "delete_user_handler tm he app jar params con =
     (if \<not> check_auth jar app then (con, unauthorized)
      else (saved tm he app (con\<lparr>con_auth := remove_user (param_or ''username'' params) (con_auth con)\<rparr>),
            Json (JObj [(''success'', JBool True), (''message'', JStr ''User deleted'')])))"

definition acl_action_of :: "string \<Rightarrow> acl_action" where
  "acl_action_of s = (if s = ''Allow'' then Allow else Deny)"

definition rule_reply :: "string \<Rightarrow> string \<Rightarrow> string \<Rightarrow> u32 \<Rightarrow> http_response" where
  "rule_reply msg rng act prio = Json (JObj
     [(''success'', JBool True), (''message'', JStr msg),
      (''rule'', JObj [(''ip_range'', JStr rng), (''action'', JStr act), (''priority'', jword prio)])])"

definition add_acl_handler ::
  "toml \<Rightarrow> http_env \<Rightarrow> app_state \<Rightarrow> (string \<times> string) list \<Rightarrow> add_acl_request \<Rightarrow> console \<Rightarrow> console \<times> http_response" where
  "add_acl_handler tm he app jar req con =
     (if \<not> check_auth jar app then (con, unauthorized)
      else let r = \<lparr>ip_range = aa_ip_range req, acl_action = acl_action_of (aa_action req), priority = aa_priority req\<rparr>
        in (saved tm he app (con\<lparr>con_auth := add_acl_rule r (con_auth con)\<rparr>),
            rule_reply ''ACL rule added'' (aa_ip_range req) (aa_action req) (aa_priority req)))"

definition delete_acl_handler ::
  "toml \<Rightarrow> http_env \<Rightarrow> app_state \<Rightarrow> (string \<times> string) list \<Rightarrow> (string \<times> string) list \<Rightarrow> console \<Rightarrow> console \<times> http_response" where
  "delete_acl_handler tm he app jar params con =
     (if \<not> check_auth jar app then (con, unauthorized)
      else let prio = (case map_of params ''priority'' of
                 Some s \<Rightarrow> (case parse_uint 32 s of Some n \<Rightarrow> word_of_nat n | None \<Rightarrow> 0) | None \<Rightarrow> 0)
        in (saved tm he app (con\<lparr>con_auth := remove_acl_rule (param_or ''ip_range'' params) prio (con_auth con)\<rparr>),
            Json (JObj [(''success'', JBool True), (''message'', JStr ''ACL rule deleted'')])))"

definition update_user_handler ::
  "toml \<Rightarrow> http_env \<Rightarrow> app_state \<Rightarrow> (string \<times> string) list \<Rightarrow> update_user_request \<Rightarrow> console \<Rightarrow> console \<times> http_response" where
  "update_user_handler tm he app jar req con =
     (if \<not> check_auth jar app then (con, unauthorized)
      else let am = remove_user (uu_username req) (con_auth con);
               u = \<lparr>username = uu_username req,
                    password = (case uu_password req of Some pw \<Rightarrow> pw | None \<Rightarrow> []),
                    utype = user_type_of (uu_type req),
                    user_created_at = http_secs he, expires_at = uu_expires_at req,
                    max_allocations = max_allocations_or_10 (uu_max_allocations req),
                    bandwidth_limit = uu_bandwidth_limit req, ip_whitelist = uu_ip_whitelist req,
                    user_max_duration_secs = uu_max_duration req\<rparr>
        in (saved tm he app (con\<lparr>con_auth := add_user u am\<rparr>),
            user_reply ''User updated'' (uu_username req) (uu_type req) (uu_max_allocations req)))"

definition update_acl_handler ::
  "toml \<Rightarrow> http_env \<Rightarrow> app_state \<Rightarrow> (string \<times> string) list \<Rightarrow> update_acl_request \<Rightarrow> console \<Rightarrow> console \<times> http_response" where
  "update_acl_handler tm he app jar req con =
     (if \<not> check_auth jar app then (con, unauthorized)
      else let am = remove_acl_rule (original_ip_range req) (original_priority req) (con_auth con);
               r = \<lparr>ip_range = ua_ip_range req, acl_action = acl_action_of (ua_action req), priority = ua_priority req\<rparr>
        in (saved tm he app (con\<lparr>con_auth := add_acl_rule r am\<rparr>),
            rule_reply ''ACL rule updated'' (ua_ip_range req) (ua_action req) (ua_priority req)))"

text \<open>The URL of a listener, if its protocol has one.\<close>

definition ice_url :: "string \<Rightarrow> string \<Rightarrow> u16 \<Rightarrow> string option" where
  "ice_url ext proto port =
     (let host = ext @ '':'' @ show_nat (unat port) in
      if proto = ''udp'' then Some (''turn:'' @ host)
      else if proto = ''tcp'' then Some (''turn:'' @ host @ ''?transport=tcp'')
      else if proto = ''tls'' then Some (''turns:'' @ host @ ''?transport=tcp'')
      else if proto = ''dtls'' then Some (''turns:'' @ host @ ''?transport=udp'')
      else None)"

fun ice_urls :: "string \<Rightarrow> listen_config list \<Rightarrow> string list rust" where
  "ice_urls ext [] = Returns []"
| "ice_urls ext (l # ls) =
     rbind (listen_addr l) (\<lambda>a. rbind (ice_urls ext ls) (\<lambda>urls.
       Returns (case ice_url ext (protocol l) (sock_port a) of Some u \<Rightarrow> u # urls | None \<Rightarrow> urls)))"

definition ice_servers_handler :: "crypto \<Rightarrow> http_env \<Rightarrow> app_state \<Rightarrow> string \<Rightarrow> u64 option \<Rightarrow> http_response rust" where
  "ice_servers_handler c he app name life =
     (if \<not> rest_enabled (turn_rest app) then Returns (Json (JArr []))
      else case credential_manager (turn_rest app) of
        None \<Rightarrow> Returns (Json (JArr []))
      | Some m \<Rightarrow>
          (case generate c m (http_secs he) name life of (uname, pw, _) \<Rightarrow>
             rbind (ice_urls (app_external_ip app) (listen_configs app)) (\<lambda>urls.
               Returns (Json (JArr [JObj
                 [(''urls'', JArr (map JStr (remdups_adj (sort urls)))), (''username'', JStr uname),
                  (''credential'', JStr pw)]])))))"

definition turn_credentials_handler :: "crypto \<Rightarrow> http_env \<Rightarrow> app_state \<Rightarrow> string \<Rightarrow> u64 option \<Rightarrow> http_response" where
  "turn_credentials_handler c he app name life =
     (if \<not> rest_enabled (turn_rest app) then
        Json (JObj [(''error'', JStr ''TURN REST API is not enabled''), (''success'', JBool False)])
      else case credential_manager (turn_rest app) of
        None \<Rightarrow> Json (JObj [(''error'', JStr ''TURN REST API credential manager not configured''), (''success'', JBool False)])
      | Some m \<Rightarrow>
          (case generate c m (http_secs he) name life of (uname, pw, expires) \<Rightarrow>
             Json (JObj [(''success'', JBool True), (''username'', JStr uname), (''password'', JStr pw),
               (''expires'', jword expires)])))"

definition prometheus_metrics_handler :: "http_env \<Rightarrow> app_state \<Rightarrow> http_response" where
  "prometheus_metrics_handler he app =
     (case app_metrics app of
        Some m \<Rightarrow> Plain (export_prometheus (http_now he) m)
      | None \<Rightarrow>
          (let st = http_stats he in Plain
            (metric_lines ''turn_total_allocations'' ''Total number of allocations created'' ''counter'' (total_allocations st) @
             metric_lines ''turn_active_allocations'' ''Current number of active allocations'' ''gauge'' (active_allocations st) @
             metric_lines ''turn_total_bytes_relayed'' ''Total bytes relayed'' ''counter'' (total_bytes_relayed st) @
             metric_lines ''turn_total_messages'' ''Total messages relayed'' ''counter'' (total_messages st))))"

section \<open>Routes\<close>

fun public_route :: "http_request \<Rightarrow> bool" where
  "public_route GetHealth = True"
| "public_route (PostTurnCredentials _ _) = True"
| "public_route (GetIceServers _ _) = True"
| "public_route _ = False"

fun dispatch :: "crypto \<Rightarrow> toml \<Rightarrow> http_env \<Rightarrow> app_state \<Rightarrow> (string \<times> string) list \<Rightarrow> http_request \<Rightarrow> console \<Rightarrow>
    (console \<times> reply) rust" where
  "dispatch c tm he app jar GetHealth con = Returns (con, [], health_proxy_handler he)"
| "dispatch c tm he app jar (PostTurnCredentials name life) con =
     Returns (con, [], turn_credentials_handler c he app name life)"
| "dispatch c tm he app jar (GetIceServers name life) con =
     rbind (ice_servers_handler c he app name life) (\<lambda>r. Returns (con, [], r))"
| "dispatch c tm he app jar GetRoot con = Returns (con, [], Redirect ''/console'')"
| "dispatch c tm he app jar GetConsole con = Returns (con, [], console_handler app jar)"
| "dispatch c tm he app jar GetDashboard con = Returns (con, [], dashboard_handler app jar)"
| "dispatch c tm he app jar (PostLogin name pw) con = Returns (con, login_handler app name pw)"
| "dispatch c tm he app jar GetStats con = Returns (con, [], stats_json_handler he app jar con)"
| "dispatch c tm he app jar PostReload con = Returns (con, [], reload_handler he app jar)"
| "dispatch c tm he app jar (PostApiLogin name pw) con = Returns (con, api_login_handler app name pw)"
| "dispatch c tm he app jar (PostUser req) con =
     (case add_user_handler tm he app jar req con of (con', r) \<Rightarrow> Returns (con', [], r))"
| "dispatch c tm he app jar (DeleteUser params) con =
     (case delete_user_handler tm he app jar params con of (con', r) \<Rightarrow> Returns (con', [], r))"
| "dispatch c tm he app jar (PutUser req) con =
     (case update_user_handler tm he app jar req con of (con', r) \<Rightarrow> Returns (con', [], r))"
| "dispatch c tm he app jar (PostAcl req) con =
     (case add_acl_handler tm he app jar req con of (con', r) \<Rightarrow> Returns (con', [], r))"
| "dispatch c tm he app jar (DeleteAcl params) con =
     (case delete_acl_handler tm he app jar params con of (con', r) \<Rightarrow> Returns (con', [], r))"
| "dispatch c tm he app jar (PutAcl req) con =
     (case update_acl_handler tm he app jar req con of (con', r) \<Rightarrow> Returns (con', [], r))"
| "dispatch c tm he app jar PostLogout con = Returns (con, logout_handler)"
| "dispatch c tm he app jar GetMetrics con = Returns (con, [], prometheus_metrics_handler he app)"

text \<open>The access list guards every route but the public ones. A panic of a handler is the
  framework's to handle; it changes no state.\<close>

definition admin_acl_middleware ::
  "app_state \<Rightarrow> http_meta \<Rightarrow> (console \<Rightarrow> (console \<times> reply) rust) \<Rightarrow> console \<Rightarrow> (console \<times> reply) rust" where
  "admin_acl_middleware app meta next_handler con =
     (if admin_allowed app meta then next_handler con else Returns (con, [], Forbidden_403))"

definition serve ::
  "crypto \<Rightarrow> toml \<Rightarrow> http_env \<Rightarrow> app_state \<Rightarrow> http_meta \<Rightarrow> http_request \<Rightarrow> console \<Rightarrow> (console \<times> reply) rust" where
  "serve c tm he app meta req con =
     (if public_route req then dispatch c tm he app (cookies meta) req con
      else admin_acl_middleware app meta (dispatch c tm he app (cookies meta) req) con)"

text \<open>The state that \<open>create_admin_routes\<close> builds from its arguments.\<close>

definition turn_rest_state_of :: "bool \<Rightarrow> string option \<Rightarrow> u64 \<Rightarrow> turn_rest_state" where
  "turn_rest_state_of enabled secret life =
     (if enabled then
        \<lparr>rest_enabled = True,
         credential_manager = Some (with_lifetime life
           (short_term_new (case secret of Some s \<Rightarrow> s | None \<Rightarrow> ''default-secret-key'')))\<rparr>
      else \<lparr>rest_enabled = False, credential_manager = None\<rparr>)"

section \<open>Invariant\<close>

definition console_inv :: "console \<Rightarrow> bool" where
  "console_inv con \<longleftrightarrow> users_wf (users (con_auth con)) \<and> acl_sorted (con_auth con)"

lemma saved_auth [simp]: "con_auth (saved tm he app con) = con_auth con"
  by (cases "config_path app")
     (simp_all add: saved_def save_config_def split: prod.splits)

lemma users_acl_ops [simp]:
  "acl_rules (add_user u m) = acl_rules m" "acl_rules (remove_user name m) = acl_rules m"
  "users (add_acl_rule r m) = users m" "users (remove_acl_rule rng prio m) = users m"
  by (simp_all add: add_user_def remove_user_def add_acl_rule_def remove_acl_rule_def)

lemma users_get_ops [simp]:
  "hm_get (users (add_user u m)) = (hm_get (users m))(username u \<mapsto> u)"
  "hm_get (users (remove_user name m)) = (hm_get (users m))(name := None)"
  by (simp_all add: add_user_def remove_user_def hm.get_insert hm.get_remove)

lemma mset_acl_ops [simp]:
  "mset (acl_rules (add_acl_rule r m)) = add_mset r (mset (acl_rules m))"
  "acl_rules (remove_acl_rule rng prio m) =
     filter (\<lambda>r. \<not> (ip_range r = rng \<and> priority r = prio)) (acl_rules m)"
  by (simp_all add: add_acl_rule_def remove_acl_rule_def)

lemma acl_sorted_users [simp]:
  "acl_sorted (add_user u m) = acl_sorted m" "acl_sorted (remove_user name m) = acl_sorted m"
  by (simp_all add: acl_sorted_def)

lemmas handler_defs = add_user_handler_def delete_user_handler_def update_user_handler_def
  add_acl_handler_def delete_acl_handler_def update_acl_handler_def

text \<open>The requests that manage users and rules; every other request leaves the console alone.\<close>

fun manages :: "http_request \<Rightarrow> bool" where
  "manages (PostUser _) = True"
| "manages (DeleteUser _) = True"
| "manages (PutUser _) = True"
| "manages (PostAcl _) = True"
| "manages (DeleteAcl _) = True"
| "manages (PutAcl _) = True"
| "manages _ = False"

lemma manages_not_public: "manages req \<Longrightarrow> \<not> public_route req"
  by (cases req) simp_all

lemma dispatch_unmanaged:
  "\<not> manages req \<Longrightarrow> dispatch c tm he app jar req con = Returns (con', rep) \<Longrightarrow> con' = con"
  by (cases req) (auto simp: rust_simps)

lemma dispatch_unauthorised:
  "manages req \<Longrightarrow> \<not> check_auth jar app \<Longrightarrow> dispatch c tm he app jar req con = Returns (con, [], unauthorized)"
  by (cases req) (simp_all add: handler_defs)

lemma dispatch_inv:
  assumes "console_inv con" and "dispatch c tm he app jar req con = Returns (con', rep)"
  shows "console_inv con'"
proof (cases "manages req")
  case True
  then show ?thesis
    using assms
    by (cases req)
       (auto simp: handler_defs console_inv_def Let_def users_wf_ops acl_sorted_add acl_sorted_remove split: if_splits)
next
  case False
  then show ?thesis using dispatch_unmanaged [OF False assms(2)] assms(1) by simp
qed

lemma serve_cases:
  assumes "serve c tm he app meta req con = Returns (con', rep)"
  obtains "public_route req \<or> admin_allowed app meta" and "dispatch c tm he app (cookies meta) req con = Returns (con', rep)"
    | "\<not> public_route req" and "\<not> admin_allowed app meta" and "con' = con" and "rep = ([], Forbidden_403)"
  using assms by (auto simp: serve_def admin_acl_middleware_def split: if_splits)

lemma serve_inv: "console_inv con \<Longrightarrow> serve c tm he app meta req con = Returns (con', rep) \<Longrightarrow> console_inv con'"
  by (erule serve_cases) (auto intro: dispatch_inv)

lemma cookie_from_login:
  assumes "dispatch c tm he app jar req con = Returns (con', cs, r)" and "session_cookie \<in> set cs"
  obtains name pw where "req = PostLogin name pw \<or> req = PostApiLogin name pw" and "credentials_match app name pw"
  using assms
  by (cases req)
     (auto simp: login_handler_def api_login_handler_def logout_handler_def session_cookie_def rust_simps
       split: if_splits prod.splits)

section \<open>Properties of the console\<close>

text \<open>C4. Users, rules and files change only through the console's management requests, from an
  address on the admin access list, and with the session cookie where an administrator is
  configured; the session cookie is handed out only to who presents the administrator's name and
  password from such an address. The user table stays well formed and the rules sorted.\<close>

theorem admin_changes_need_session:
  assumes "serve c tm he app meta req con = Returns (con', cs, r)"
  shows "(con' \<noteq> con \<longrightarrow> manages req \<and> admin_allowed app meta \<and>
      (admin_username app = None \<or> map_of (cookies meta) SESSION_COOKIE = Some SESSION_VALUE)) \<and>
    (session_cookie \<in> set cs \<longrightarrow> admin_allowed app meta \<and>
      (\<exists>name pw. (req = PostLogin name pw \<or> req = PostApiLogin name pw) \<and>
         admin_username app = Some name \<and> admin_password app = Some pw)) \<and>
    (console_inv con \<longrightarrow> console_inv con')"
  using assms
proof (rule serve_cases)
  assume guard: "public_route req \<or> admin_allowed app meta"
    and disp: "dispatch c tm he app (cookies meta) req con = Returns (con', cs, r)"
  have "manages req \<and> check_auth (cookies meta) app" if "con' \<noteq> con"
    using that dispatch_unmanaged [OF _ disp] dispatch_unauthorised [of req "cookies meta" app] disp by fastforce
  then have "con' \<noteq> con \<longrightarrow> manages req \<and> admin_allowed app meta \<and>
      (admin_username app = None \<or> map_of (cookies meta) SESSION_COOKIE = Some SESSION_VALUE)"
    using guard manages_not_public by (auto simp: check_auth_def split: if_splits option.splits)
  moreover have "admin_allowed app meta \<and>
      (\<exists>name pw. (req = PostLogin name pw \<or> req = PostApiLogin name pw) \<and>
         admin_username app = Some name \<and> admin_password app = Some pw)" if cookie: "session_cookie \<in> set cs"
  proof -
    obtain name pw where login: "req = PostLogin name pw \<or> req = PostApiLogin name pw" "credentials_match app name pw"
      by (rule cookie_from_login [OF disp cookie])
    then have "admin_username app = Some name" "admin_password app = Some pw"
      by (auto simp: credentials_match_def split: option.splits)
    moreover have "\<not> public_route req" using login(1) by auto
    ultimately show ?thesis using guard login(1) by blast
  qed
  ultimately show ?thesis using dispatch_inv [OF _ disp] by blast
qed (use assms in auto)

definition sample_toml :: toml where
  "sample_toml = \<lparr>toml_from_str = (\<lambda>_. None), toml_to_string = (\<lambda>_. None)\<rparr>"

definition sample_http :: http_env where
  "sample_http = \<lparr>http_secs = 1000, http_now = 0, http_stats = server_stats_default, http_write = Written, http_pkg = ''miuturn/0''\<rparr>"

definition sample_app :: app_state where
  "sample_app = \<lparr>admin_username = Some ''root'', admin_password = Some ''secret'',
     turn_rest = turn_rest_state_of False None 3600, app_metrics = None, config_path = None,
     app_external_ip = ''192.0.2.1'', listen_configs = [], admin_acl = [], trust_proxy = False\<rparr>"

definition sample_meta :: "(string \<times> string) list \<Rightarrow> http_meta" where
  "sample_meta jar = \<lparr>cookies = jar, headers = [], remote = SocketV4 (Ipv4 127 0 0 1) 5000\<rparr>"

definition sample_console :: console where
  "sample_console = \<lparr>con_auth = auth_manager_new ''r'', con_files = Map.empty\<rparr>"

definition sample_crypto0 :: crypto where
  "sample_crypto0 = \<lparr>hmac_sha1 = (\<lambda>k m. k @ m), md5 = id, hex_encode = of_bytes\<rparr>"

theorem admin_changes_need_session_witness:
  "\<exists>cs r. serve sample_crypto0 sample_toml sample_http sample_app (sample_meta []) (PostLogin ''root'' ''secret'') sample_console =
      Returns (sample_console, cs, r) \<and> session_cookie \<in> set cs \<and> admin_allowed sample_app (sample_meta []) \<and>
      admin_password sample_app = Some ''secret''"
proof -
  have s: "serve sample_crypto0 sample_toml sample_http sample_app (sample_meta []) (PostLogin ''root'' ''secret'') sample_console =
      Returns (sample_console, [session_cookie], Redirect ''/console/dashboard'')"
    by (simp add: serve_def admin_acl_middleware_def admin_allowed_def login_handler_def credentials_match_def sample_app_def)
  from admin_changes_need_session [OF s] show ?thesis using s by (auto simp: sample_app_def)
qed

text \<open>C27. The management requests of an authorised administrator do what they say. Adding a user
  puts exactly that user in the table, deleting removes exactly the named one, updating replaces
  it, with the empty password where the request carries none; rules are added, removed by range
  and priority, or replaced. Nothing else changes in the user database.\<close>

theorem management_effects:
  assumes "check_auth (cookies meta) app" and "admin_allowed app meta"
    and "serve c tm he app meta req con = Returns (con', rep)"
  shows "case req of
      PostUser q \<Rightarrow> acl_rules (con_auth con') = acl_rules (con_auth con) \<and>
        (\<exists>u. hm_get (users (con_auth con')) = (hm_get (users (con_auth con)))(au_username q \<mapsto> u) \<and>
          username u = au_username q \<and> password u = au_password q \<and> expires_at u = au_expires_at q)
    | PutUser q \<Rightarrow> acl_rules (con_auth con') = acl_rules (con_auth con) \<and>
        (\<exists>u. hm_get (users (con_auth con')) = (hm_get (users (con_auth con)))(uu_username q \<mapsto> u) \<and>
          username u = uu_username q \<and> expires_at u = uu_expires_at q \<and>
          password u = (case uu_password q of Some pw \<Rightarrow> pw | None \<Rightarrow> []))
    | DeleteUser params \<Rightarrow> acl_rules (con_auth con') = acl_rules (con_auth con) \<and>
        hm_get (users (con_auth con')) = (hm_get (users (con_auth con)))(param_or ''username'' params := None)
    | PostAcl q \<Rightarrow> users (con_auth con') = users (con_auth con) \<and>
        (\<exists>r. mset (acl_rules (con_auth con')) = add_mset r (mset (acl_rules (con_auth con))) \<and>
          ip_range r = aa_ip_range q \<and> priority r = aa_priority q \<and> (acl_action r = Allow \<longleftrightarrow> aa_action q = ''Allow''))
    | PutAcl q \<Rightarrow> users (con_auth con') = users (con_auth con) \<and>
        (\<exists>r. mset (acl_rules (con_auth con')) = add_mset r (mset (filter
            (\<lambda>r. \<not> (ip_range r = original_ip_range q \<and> priority r = original_priority q)) (acl_rules (con_auth con)))) \<and>
          ip_range r = ua_ip_range q \<and> priority r = ua_priority q \<and> (acl_action r = Allow \<longleftrightarrow> ua_action q = ''Allow''))
    | DeleteAcl params \<Rightarrow> users (con_auth con') = users (con_auth con) \<and>
        (\<exists>prio. acl_rules (con_auth con') =
          filter (\<lambda>r. \<not> (ip_range r = param_or ''ip_range'' params \<and> priority r = prio)) (acl_rules (con_auth con)) \<and>
          prio = (case Option.bind (map_of params ''priority'') (parse_uint 32) of Some n \<Rightarrow> word_of_nat n | None \<Rightarrow> 0))
    | _ \<Rightarrow> con' = con"
proof -
  have disp: "dispatch c tm he app (cookies meta) req con = Returns (con', rep)"
    using assms(2,3) by (auto simp: serve_def admin_acl_middleware_def split: if_splits)
  show ?thesis
  proof (cases "manages req")
    case True
    then show ?thesis
      using disp assms(1)
      by (cases req) (auto simp: handler_defs Let_def acl_action_of_def fun_upd_upd split: option.splits)
  next
    case False
    then show ?thesis using dispatch_unmanaged [OF False disp] by (cases req) simp_all
  qed
qed

definition sample_put :: update_user_request where
  "sample_put = \<lparr>uu_username = ''alice'', uu_password = None, uu_type = ''fixed'', uu_max_allocations = None,
     uu_expires_at = None, uu_bandwidth_limit = None, uu_ip_whitelist = None, uu_max_duration = None\<rparr>"

theorem management_effects_witness:
  "\<exists>con' rep u. serve sample_crypto0 sample_toml sample_http sample_app (sample_meta [(SESSION_COOKIE, SESSION_VALUE)])
       (PutUser sample_put) sample_console = Returns (con', rep) \<and>
     hm_get (users (con_auth con')) ''alice'' = Some u \<and> password u = []"
proof -
  let ?meta = "sample_meta [(SESSION_COOKIE, SESSION_VALUE)]"
  have auth: "check_auth (cookies ?meta) sample_app" "admin_allowed sample_app ?meta"
    by (simp_all add: check_auth_def sample_meta_def admin_allowed_def sample_app_def)
  obtain con' rep where s: "serve sample_crypto0 sample_toml sample_http sample_app ?meta (PutUser sample_put) sample_console =
      Returns (con', rep)"
    using auth by (simp add: serve_def admin_acl_middleware_def update_user_handler_def Let_def)
  from management_effects [OF auth s] s show ?thesis by (auto simp: sample_put_def)
qed

text \<open>C37. The session cookie proves nothing: its value is a constant, so whoever is admitted by the
  access list and sends it is an administrator without ever logging in, whatever the configured
  password, and a session that logged out can be continued with the cookie it had.\<close>

theorem forged_cookie_is_admin:
  assumes "map_of (cookies meta) ''admin_session'' = Some ''authenticated''" and "admin_allowed app meta"
    and "\<forall>name p. req \<noteq> PostLogin name p \<and> req \<noteq> PostApiLogin name p"
  shows "serve c tm he app meta req con =
    serve c tm he (app\<lparr>admin_username := None, admin_password := pw\<rparr>) meta req con"
proof -
  let ?app = "app\<lparr>admin_username := None, admin_password := pw\<rparr>"
  have auth: "check_auth (cookies meta) app" "check_auth (cookies meta) ?app"
    using assms(1) by (simp_all add: check_auth_def SESSION_COOKIE_def SESSION_VALUE_def)
  have allowed: "admin_allowed ?app meta" using assms(2) by (simp add: admin_allowed_def client_ip_def)
  have saved: "saved tm he ?app x = saved tm he app x" for x by (simp add: saved_def save_config_def)
  have "dispatch c tm he app (cookies meta) req con = dispatch c tm he ?app (cookies meta) req con"
    using assms(3) auth
    by (cases req) (simp_all add: handler_defs saved turn_credentials_handler_def ice_servers_handler_def
      console_handler_def dashboard_handler_def stats_json_handler_def reload_handler_def prometheus_metrics_handler_def
      split: option.split prod.split)
  then show ?thesis using assms(2) allowed by (auto simp: serve_def admin_acl_middleware_def)
qed

theorem forged_cookie_is_admin_witness:
  "\<exists>con' rep. serve sample_crypto0 sample_toml sample_http sample_app (sample_meta [(''admin_session'', ''authenticated'')])
       (PutUser sample_put) sample_console = Returns (con', rep) \<and>
     hm_get (users (con_auth con')) ''alice'' \<noteq> None"
proof -
  let ?meta = "sample_meta [(''admin_session'', ''authenticated'')]"
  have "serve sample_crypto0 sample_toml sample_http sample_app ?meta (PutUser sample_put) sample_console =
      serve sample_crypto0 sample_toml sample_http (sample_app\<lparr>admin_username := None, admin_password := None\<rparr>) ?meta
        (PutUser sample_put) sample_console"
    using forged_cookie_is_admin [of ?meta sample_app "PutUser sample_put" sample_crypto0 sample_toml sample_http sample_console None]
    by (simp add: sample_meta_def admin_allowed_def sample_app_def)
  then show ?thesis
    by (simp add: serve_def admin_acl_middleware_def admin_allowed_def sample_app_def update_user_handler_def
      check_auth_def Let_def sample_put_def)
qed

end
