(* ===== verification/Startup.thy ===== *)
theory Startup
  imports Admin_Console Server_Protocol
begin

text \<open>
  Start-up, \<open>src/main.rs\<close>: reading the configuration, building the server, filling the user
  database, starting listeners and the console. The user database is shared by the relay and
  the console; the server record holds its current value. Loading certificates is a parameter.
  The last section states what relay, console and configuration do together.
\<close>

section \<open>Users and rules\<close>

definition user_of_config :: "u64 \<Rightarrow> user_config \<Rightarrow> user" where
  "user_of_config secs uc =
     \<lparr>username = uc_username uc, password = uc_password uc, utype = user_type_of (uc_type uc),
      user_created_at = secs, expires_at = uc_expires_at uc,
      max_allocations = (case uc_max_allocations uc of Some n \<Rightarrow> n | None \<Rightarrow> 10),
      bandwidth_limit = uc_bandwidth_limit uc, ip_whitelist = uc_ip_whitelist uc,
      user_max_duration_secs = uc_max_duration uc\<rparr>"

definition api_key_user :: "string \<Rightarrow> user" where
  "api_key_user name =
     \<lparr>username = name, password = [], utype = ApiKey, user_created_at = 0, expires_at = None,
      max_allocations = 100, bandwidth_limit = None, ip_whitelist = None, user_max_duration_secs = None\<rparr>"

definition to_ascii_lowercase :: "string \<Rightarrow> string" where
  "to_ascii_lowercase s =
     map (\<lambda>c. if 65 \<le> (of_char c :: nat) \<and> (of_char c :: nat) \<le> 90 then char_of ((of_char c :: nat) + 32) else c) s"

definition rule_of_config :: "acl_rule_config \<Rightarrow> acl_rule" where
  "rule_of_config rc =
     \<lparr>ip_range = rc_ip_range rc,
      acl_action = (if to_ascii_lowercase (rc_action rc) = ''allow'' then Allow else Deny),
      priority = (case rc_priority rc of Some p \<Rightarrow> p | None \<Rightarrow> 0)\<rparr>"

definition load_auth :: "u64 \<Rightarrow> config \<Rightarrow> auth_manager" where
  "load_auth secs cfg =
     fold (\<lambda>rc. add_acl_rule (rule_of_config rc)) (ac_acl_rules (cfg_auth cfg))
       (fold (\<lambda>name. add_user (api_key_user name)) (hm_values (ac_api_keys (cfg_auth cfg)))
         (fold (\<lambda>uc. add_user (user_of_config secs uc)) (ac_users (cfg_auth cfg))
           (auth_manager_new (cfg_realm (cfg_server cfg)))))"

section \<open>The server\<close>

definition ipv4_or_any :: "string \<Rightarrow> ipv4_addr" where
  "ipv4_or_any s = (case parse_ipv4_addr s of Some ip \<Rightarrow> ip | None \<Rightarrow> Ipv4 0 0 0 0)"

definition startup_server :: "nat \<Rightarrow> string \<Rightarrow> config \<Rightarrow> auth_manager \<Rightarrow> turn_server" where
  "startup_server t0 pkg cfg am =
     (let sc = cfg_server cfg;
          relay_ip = ipv4_or_any (external_ip sc);
          bind_ip = ipv4_or_any (case relay_bind_ip sc of Some s \<Rightarrow> s | None \<Rightarrow> ''0.0.0.0'');
          s0 = with_port_range_limits_bind_address_and_password t0 pkg relay_ip bind_ip (cfg_realm sc)
                 (start_port sc) (end_port sc) (cfg_max_concurrent sc) (cfg_max_duration sc) ''password'' False
      in set_auth_manager am
           (set_protocol_enabled (cfg_stun_enabled sc) (cfg_turn_enabled sc)
             (set_server_name (cfg_server_name sc)
               (set_stats_dump_skip_if_no_change (cfg_dump_skip sc)
                 (set_stats_dump_interval (cfg_dump_interval sc) s0)))))"

section \<open>Listeners and the console\<close>

datatype listener_task = RunTcp socket_addr | RunTls socket_addr | RunDtls socket_addr | RunUdp socket_addr

definition start_listener :: "bool \<Rightarrow> bool \<Rightarrow> listen_config \<Rightarrow> listener_task list rust" where
  "start_listener tls dtls l =
     rbind (listen_addr l) (\<lambda>addr. Returns
       (if protocol l = ''tcp'' then [RunTcp addr]
        else if protocol l = ''tls'' then (if tls then [RunTls addr] else [])
        else if protocol l = ''dtls'' then (if dtls then [RunDtls addr] else [])
        else if protocol l = ''udp'' then [RunUdp addr]
        else []))"

fun start_listeners :: "bool \<Rightarrow> bool \<Rightarrow> listen_config list \<Rightarrow> listener_task list rust" where
  "start_listeners tls dtls [] = Returns []"
| "start_listeners tls dtls (l # ls) =
     rbind (start_listener tls dtls l) (\<lambda>ts. rbind (start_listeners tls dtls ls) (\<lambda>ts'. Returns (ts @ ts')))"

definition start_console :: "nat \<Rightarrow> string \<Rightarrow> config \<Rightarrow> http_config \<Rightarrow> socket_addr \<times> app_state" where
  "start_console t0 path cfg http =
     (case parse_socket_addr (http_address http) of Some a \<Rightarrow> a | None \<Rightarrow> SocketV4 (Ipv4 0 0 0 0) 8080,
      \<lparr>admin_username = http_admin_username http, admin_password = http_admin_password http,
       turn_rest = turn_rest_state_of (case turn_rest_enabled http of Some b \<Rightarrow> b | None \<Rightarrow> False) (turn_rest_secret http)
         (case turn_rest_default_lifetime http of Some n \<Rightarrow> n | None \<Rightarrow> 3600),
       app_metrics = Some (metrics_new t0), config_path = Some path,
       app_external_ip = external_ip (cfg_server cfg), listen_configs = listening (cfg_server cfg),
       admin_acl = http_admin_acl http,
       trust_proxy = (case http_trust_proxy http of Some b \<Rightarrow> b | None \<Rightarrow> False)\<rparr>)"

record started =
  st_server :: turn_server
  st_listeners :: "listener_task list"
  st_console :: "(socket_addr \<times> app_state) option"

text \<open>\<open>load_tls\<close> and \<open>load_dtls\<close> are the outcomes of loading the certificates, \<open>None\<close> for
  success; an error ends \<open>main\<close>.\<close>

definition main_start ::
  "toml \<Rightarrow> nat \<Rightarrow> u64 \<Rightarrow> string \<Rightarrow> (certificate_config \<Rightarrow> string option) \<Rightarrow> (certificate_config \<Rightarrow> string option) \<Rightarrow>
   string \<Rightarrow> files \<Rightarrow> (string + started) rust" where
  "main_start tm t0 secs pkg load_tls load_dtls path fs =
     (let cfg = (case config_load tm path fs of Some cfg \<Rightarrow> cfg | None \<Rightarrow> config_default pkg);
          has_tls = list_ex (\<lambda>l. protocol l = ''tls'') (listening (cfg_server cfg));
          has_dtls = list_ex (\<lambda>l. protocol l = ''dtls'') (listening (cfg_server cfg));
          run = (\<lambda>_ :: unit. rbind (start_listeners has_tls has_dtls (listening (cfg_server cfg))) (\<lambda>ts.
            Returns (Inr \<lparr>st_server = startup_server t0 pkg cfg (load_auth secs cfg), st_listeners = ts,
              st_console = map_option (start_console t0 path cfg) (cfg_http cfg)\<rparr>)))
      in if has_tls \<or> has_dtls then
           (case cfg_certificates cfg of
              None \<Rightarrow> Returns (Inl ''a [certificates] section is required when TLS or DTLS is configured'')
            | Some cc \<Rightarrow>
                (case (if has_tls then load_tls cc else None) of
                   Some err \<Rightarrow> Returns (Inl err)
                 | None \<Rightarrow>
                     (case (if has_dtls then load_dtls cc else None) of
                        Some err \<Rightarrow> Returns (Inl err)
                      | None \<Rightarrow> run ())))
         else run ())"

section \<open>Lemmas\<close>

lemma fold_add_users:
  "hm_get (users (fold (\<lambda>x. add_user (f x)) xs m)) name =
     (case find (\<lambda>x. username (f x) = name) (rev xs) of Some x \<Rightarrow> Some (f x) | None \<Rightarrow> hm_get (users m) name)"
  by (induction xs arbitrary: m) (auto simp: find_append split: option.splits)

lemma fold_add_users_acl [simp]: "acl_rules (fold (\<lambda>x. add_user (f x)) xs m) = acl_rules m"
  by (induction xs arbitrary: m) simp_all

lemma fold_add_rules_users [simp]: "users (fold (\<lambda>x. add_acl_rule (f x)) xs m) = users m"
  by (induction xs arbitrary: m) simp_all

lemma users_wf_fold: "users_wf (users m) \<Longrightarrow> users_wf (users (fold (\<lambda>x. add_user (f x)) xs m))"
  by (induction xs arbitrary: m) (simp_all add: users_wf_ops)

lemma acl_sorted_fold: "acl_sorted m \<Longrightarrow> acl_sorted (fold (\<lambda>x. add_acl_rule (f x)) xs m)"
  by (induction xs arbitrary: m) (simp_all add: acl_sorted_add)

text \<open>Who is in the database after start-up: API-key names win over users of the same name.\<close>

lemma load_auth_users:
  "hm_get (users (load_auth secs cfg)) name =
     (if name \<in> set (hm_values (ac_api_keys (cfg_auth cfg))) then Some (api_key_user name)
      else map_option (user_of_config secs) (find (\<lambda>uc. uc_username uc = name) (rev (ac_users (cfg_auth cfg)))))"
proof -
  have key: "username (api_key_user n) = n" for n by (simp add: api_key_user_def)
  have uc: "username (user_of_config secs uc) = uc_username uc" for uc by (simp add: user_of_config_def)
  have "find (\<lambda>x. x = name) ys = (if name \<in> set ys then Some name else None)" for ys
    by (induction ys) auto
  then show ?thesis
    by (simp add: load_auth_def fold_add_users key uc auth_manager_new_def split: option.splits)
qed

lemma load_auth_inv: "users_wf (users (load_auth secs cfg)) \<and> acl_sorted (load_auth secs cfg)"
  unfolding load_auth_def
  by (simp add: users_wf_fold users_wf_ops)
     (intro acl_sorted_fold, simp add: acl_sorted_def auth_manager_new_def)

text \<open>Adding the rules of a sorted list one by one rebuilds the list.\<close>

lemma sort_key_sorted: "sorted_wrt (\<lambda>r s. priority s \<le> priority r) rs \<Longrightarrow>
    sort_key (\<lambda>r. - int (unat (priority r))) rs = rs"
  by (rule sort_key_id_if_sorted) (simp add: sorted_map word_le_def)

lemma fold_add_rules_sorted:
  assumes "sorted_wrt (\<lambda>r s. priority s \<le> priority r) (acl_rules m @ rs)"
  shows "acl_rules (fold add_acl_rule rs m) = acl_rules m @ rs"
  using assms
proof (induction rs arbitrary: m)
  case (Cons r rs)
  have "acl_rules (add_acl_rule r m) = acl_rules m @ [r]"
  proof -
    have "sorted_wrt (\<lambda>r s. priority s \<le> priority r) (acl_rules m @ [r])"
      using Cons.prems by (simp add: sorted_wrt_append)
    then show ?thesis unfolding add_acl_rule_def by (simp only: sort_key_sorted) simp
  qed
  with Cons show ?case by simp
qed simp

lemma rule_config_roundtrip [simp]: "rule_of_config (rule_to_config r) = r"
proof -
  have "of_char CHR ''a'' = (97 :: nat)" by (simp add: of_char_def)
  then have "char_of (97 :: nat) = CHR ''a''" by (metis char_of_char)
  then show ?thesis
    by (cases "acl_action r") (simp_all add: rule_of_config_def rule_to_config_def to_ascii_lowercase_def of_char_def)
qed

lemma user_config_roundtrip: "user_of_config secs (user_to_config u) = u\<lparr>user_created_at := secs\<rparr>"
  by (simp add: user_of_config_def user_to_config_def)

section \<open>Relay, console and configuration together\<close>


text \<open>A database with one user, and a TOML printer that knows the configuration to be saved.\<close>

definition one_user :: user where
  "one_user = \<lparr>username = ''alice'', password = ''pw'', utype = Temporary, user_created_at = 7, expires_at = Some 9,
     max_allocations = 2, bandwidth_limit = None, ip_whitelist = Some [''10.0.0.0/8''], user_max_duration_secs = None\<rparr>"

definition one_user_console :: console where
  "one_user_console = \<lparr>con_auth = add_acl_rule high_deny (add_user one_user (auth_manager_new ''r'')), con_files = Map.empty\<rparr>"

definition one_config_toml :: "config \<Rightarrow> toml" where
  "one_config_toml cfg = \<lparr>toml_from_str = (\<lambda>_. Some cfg), toml_to_string = (\<lambda>cfg'. if cfg' = cfg then Some ''cfg'' else None)\<rparr>"

definition one_user_config :: config where
  "one_user_config = (config_default ''miuturn/0'')\<lparr>cfg_auth := \<lparr>ac_users = [user_to_config one_user], ac_api_keys = [],
     ac_acl_rules = [rule_to_config high_deny]\<rparr>\<rparr>"


section \<open>The fixed password\<close>

text \<open>The relay that start-up builds, at any later time: its tables, nonces and user database
  have evolved, the rest is as it was built.\<close>

definition running_server :: "nat \<Rightarrow> string \<Rightarrow> config \<Rightarrow> turn_server \<Rightarrow> bool" where
  "running_server t0 pkg cfg s \<longleftrightarrow>
     (\<exists>am t ct nm. s = (startup_server t0 pkg cfg am)\<lparr>alloc := t, chans := ct, nonce_map := nm\<rparr>)"

lemma startup_server_fields [simp]:
  "srv_password (startup_server t0 pkg cfg am) = ''password''" "auth_disabled (startup_server t0 pkg cfg am) = False"
  "auth (startup_server t0 pkg cfg am) = Some am" "srv_realm (startup_server t0 pkg cfg am) = cfg_realm (cfg_server cfg)"
  by (simp_all add: startup_server_def Let_def set_auth_manager_def set_protocol_enabled_def set_server_name_def
    set_stats_dump_skip_if_no_change_def set_stats_dump_interval_def
    with_port_range_limits_bind_address_and_password_def turn_server_with_def)

lemma running_server_fields:
  assumes "running_server t0 pkg cfg s"
  obtains am where "auth s = Some am" "\<not> auth_disabled s" "srv_realm s = cfg_realm (cfg_server cfg)"
    "\<And>e name. get_password_for_user e name s =
      Some (case get_user_password (unix_secs e) name am of Some pw \<Rightarrow> pw | None \<Rightarrow> ''password'')"
  using assms
  by (auto simp: running_server_def get_password_for_user_def split: option.splits)

text \<open>C38. Every name is a user of the running relay: a request that repeats a live nonce, from an
  admitted address, under a name that the user database does not know or holds as expired, is
  accepted when it is signed with the word \<open>password\<close>. So deleting or expiring a user does not
  lock out, it gives the name the fixed password.\<close>

theorem strangers_have_fixed_password:
  assumes "\<And>k x. length (hmac_sha1 c k x) = 20" and "running_server t0 pkg cfg s"
    and "auth s = Some am" and "check_acl (ip_to_string (sock_ip client)) am"
    and "get_user_password (unix_secs e) name am = None" and "is_ascii name"
    and "get_attribute req USERNAME = Some ua" and "attr_value ua = as_bytes name"
    and "get_attribute req NONCE = Some na" and "get_attribute req MESSAGE_INTEGRITY = None"
    and "hm_get (nonce_map s) (from_utf8_lossy (attr_value na)) = Some entry"
    and "(now e - nonce_created_at entry) div 1000000000 \<le> 600"
  shows "\<exists>signed. add_response_message_integrity c req
      (compute_message_integrity_key c name (cfg_realm (cfg_server cfg)) ''password'') = Returns signed \<and>
    verify_turn_auth c e signed client s = Returns (Inr name, s)"
proof -
  obtain am' where s: "auth s = Some am'" "\<not> auth_disabled s" "srv_realm s = cfg_realm (cfg_server cfg)"
    "\<And>e name. get_password_for_user e name s =
      Some (case get_user_password (unix_secs e) name am' of Some pw \<Rightarrow> pw | None \<Rightarrow> ''password'')"
    by (rule running_server_fields [OF assms(2)]) blast
  let ?key = "compute_message_integrity_key c name (cfg_realm (cfg_server cfg)) ''password''"
  obtain signed where sig: "add_response_message_integrity c req ?key = Returns signed"
    using add_integrity_eq [OF assms(1)] by blast
  have ver: "verify_message_integrity c signed ?key = Returns True"
    by (rule verify_signed [OF assms(1,10) sig])
  have at: "get_attribute signed USERNAME = Some ua" "get_attribute signed NONCE = Some na"
    using sig assms(7,9) by (auto simp: add_integrity_eq [OF assms(1)] get_attribute_add)
  have "from_utf8_lossy (attr_value ua) = name" using assms(6,8) by (simp add: from_utf8_lossy_ascii)
  moreover have "get_password_for_user e name s = Some ''password''"
    using s(1,4) assms(3,5) by simp
  ultimately have "authorised c e signed client s name"
    unfolding authorised_def using at ver assms(3,4,11,12) s(3) by simp
  then show ?thesis using sig s(2) by (simp add: verify_turn_auth_accepted)
qed

text \<open>The relay of the default configuration, with a challenge of its own outstanding.\<close>

definition default_server :: "nat \<Rightarrow> turn_server" where
  "default_server t0 = (startup_server t0 ''miuturn/0'' (config_default ''miuturn/0'')
     (load_auth 0 (config_default ''miuturn/0'')))\<lparr>nonce_map := [(''abc'', \<lparr>entry_nonce = ''abc'', nonce_created_at = t0\<rparr>)]\<rparr>"

lemma default_server_running: "running_server t0 ''miuturn/0'' (config_default ''miuturn/0'') (default_server t0)"
  unfolding running_server_def default_server_def
  by (intro exI [of _ "load_auth 0 (config_default ''miuturn/0'')"]
      exI [of _ "alloc (startup_server t0 ''miuturn/0'' (config_default ''miuturn/0'') (load_auth 0 (config_default ''miuturn/0'')))"]
      exI [of _ "chans (startup_server t0 ''miuturn/0'' (config_default ''miuturn/0'') (load_auth 0 (config_default ''miuturn/0'')))"]
      exI [of _ "[(''abc'', \<lparr>entry_nonce = ''abc'', nonce_created_at = t0\<rparr>)]"]) simp

lemma default_auth:
  "auth (default_server t0) = Some (load_auth 0 (config_default ''miuturn/0''))"
  "get_user_password t name (load_auth 0 (config_default ''miuturn/0'')) = None"
  "check_acl ip (load_auth 0 (config_default ''miuturn/0''))"
proof -
  show "auth (default_server t0) = Some (load_auth 0 (config_default ''miuturn/0''))"
    by (simp add: default_server_def)
  show "get_user_password t name (load_auth 0 (config_default ''miuturn/0'')) = None"
    by (simp add: get_user_password_def load_auth_users config_default_def hm_values_def)
  have "load_auth 0 (config_default ''miuturn/0'') = add_acl_rule (rule_of_config
      (rule_to_config \<lparr>ip_range = ''0.0.0.0/0'', acl_action = Allow, priority = 0\<rparr>)) (auth_manager_new ''miuturn'')"
    by (simp add: load_auth_def config_default_def hm_values_def rule_to_config_def)
  then show "check_acl ip (load_auth 0 (config_default ''miuturn/0''))"
    by (simp add: check_acl_def add_acl_rule_def auth_manager_new_def)
qed

theorem strangers_have_fixed_password_witness:
  "\<exists>signed. verify_turn_auth sample_crypto sample_env signed sample_client (default_server (now sample_env)) =
     Returns (Inr ''mallory'', default_server (now sample_env))"
proof -
  define ua where "ua = \<lparr>attr_type = USERNAME, attr_value = as_bytes ''mallory''\<rparr>"
  define na where "na = \<lparr>attr_type = NONCE, attr_value = as_bytes ''abc''\<rparr>"
  define req where "req = sample_request Allocate [ua, na]"
  have at: "get_attribute req USERNAME = Some ua" "get_attribute req NONCE = Some na"
      "get_attribute req MESSAGE_INTEGRITY = None"
    by (simp_all add: req_def sample_request_def get_attribute_def ua_def na_def attribute_types)
  have ascii: "is_ascii ''mallory''" "is_ascii ''abc''" by (simp_all add: is_ascii_def of_char_def)
  then have nonce: "hm_get (nonce_map (default_server (now sample_env))) (from_utf8_lossy (attr_value na)) =
      Some \<lparr>entry_nonce = ''abc'', nonce_created_at = now sample_env\<rparr>"
    by (simp add: default_server_def na_def from_utf8_lossy_ascii hm_get_def)
  show ?thesis
    using strangers_have_fixed_password [OF hmac_sample default_server_running default_auth(1,3,2) ascii(1) at(1) _ at(2,3) nonce,
        of sample_env sample_client]
    by (auto simp: ua_def)
qed


definition rest_crypto :: crypto where
  "rest_crypto = \<lparr>hmac_sha1 = (\<lambda>k m. take 20 (rev k @ replicate 20 0)), md5 = id, hex_encode = of_bytes\<rparr>"

definition rest_app :: app_state where
  "rest_app = sample_app\<lparr>turn_rest := turn_rest_state_of True (Some ''key'') 60\<rparr>"

lemma rest_key: "hmac_sha1 rest_crypto (compute_message_integrity_key rest_crypto n r p) x =
      take 20 (rev (as_bytes p) @ rev (as_bytes (n @ CHR '':'' # r @ [CHR '':''])) @ replicate 20 0)"
proof -
    have "as_bytes (n @ CHR '':'' # r @ CHR '':'' # p) = as_bytes (n @ CHR '':'' # r @ [CHR '':'']) @ as_bytes p"
      by (simp add: as_bytes_def)
    then show ?thesis
      unfolding compute_message_integrity_key_def rest_crypto_def crypto.select_convs id_apply
      by (metis rev_append append_assoc)
qed


lemma rest_key_hd: "p \<noteq> [] \<Longrightarrow> hd (hmac_sha1 rest_crypto (compute_message_integrity_key rest_crypto n r p) x) = last (as_bytes p)"
  unfolding rest_key by (cases p rule: rev_cases) (simp_all add: as_bytes_def)


end
