(* ===== verification/Process.thy ===== *)
theory Process
  imports Transports Startup
begin

text \<open>
  The whole process: the relay of \<open>Transports\<close> and the console of \<open>Admin_Console\<close>, started by
  \<open>main\<close> and running side by side over the one user database they share. An event is a step of
  the relay or one HTTP request.
\<close>

section \<open>Steps\<close>

record process =
  proc_sys :: system
  proc_files :: files

datatype proc_event = Net event | Http http_env http_meta http_request

text \<open>A panic of a handler is caught by the web framework's task.\<close>

fun proc_step :: "crypto \<Rightarrow> toml \<Rightarrow> (socket_addr \<Rightarrow> u64) \<Rightarrow> app_state \<Rightarrow> proc_event \<Rightarrow> process \<Rightarrow>
    process \<times> (effect list \<times> reply option)" where
  "proc_step c tm hash app (Net ev) p =
     (case sys_step c hash ev (proc_sys p) of (x, effs) \<Rightarrow> (p\<lparr>proc_sys := x\<rparr>, effs, None))"
| "proc_step c tm hash app (Http he meta req) p =
     (case auth (srv (proc_sys p)) of
        None \<Rightarrow> (p, [], None)
      | Some am \<Rightarrow>
          (case serve c tm he app meta req \<lparr>con_auth = am, con_files = proc_files p\<rparr> of
             Panics \<Rightarrow> (p, [], None)
           | Returns (con, rep) \<Rightarrow>
               (p\<lparr>proc_sys := (proc_sys p)\<lparr>srv := set_auth_manager (con_auth con) (srv (proc_sys p))\<rparr>,
                  proc_files := con_files con\<rparr>, [], Some rep)))"

text \<open>The process after \<open>main\<close>, with the UDP listener on \<open>addr\<close>.\<close>

definition proc_start :: "nat \<Rightarrow> socket_addr \<Rightarrow> started \<Rightarrow> files \<Rightarrow> process" where
  "proc_start cpus addr st fs = \<lparr>proc_sys = run_udp cpus addr (st_server st), proc_files = fs\<rparr>"

section \<open>What a running relay keeps\<close>

text \<open>The settings of a server: what only the constructor and the setters write.\<close>

definition settings :: "turn_server \<Rightarrow> turn_server" where
  "settings s = s\<lparr>alloc := undefined, chans := undefined, nonce_map := undefined\<rparr>"

lemma settings_updates [simp]:
  "settings (s\<lparr>alloc := t\<rparr>) = settings s" "settings (s\<lparr>chans := ct\<rparr>) = settings s"
  "settings (s\<lparr>nonce_map := m\<rparr>) = settings s"
  by (simp_all add: settings_def)

lemma settings_remove [simp]:
  "settings (remove_client_allocation k s) = settings s" "settings (remove_existing client s) = settings s"
proof -
  show *: "settings (remove_client_allocation k s) = settings s" for k
    by (simp add: remove_client_allocation_def split: prod.split)
  show "settings (remove_existing client s) = settings s"
    by (simp add: remove_existing_def * split: option.split)
qed

lemma with_auth_settings:
  assumes "with_auth c e msg client s k = Returns (s', effs, resp)"
    and "\<And>name. k name s = Returns (s', effs, resp) \<Longrightarrow> settings s' = settings s"
  shows "settings s' = settings s"
  using assms(1) by (cases rule: with_auth_cases) (auto intro: assms(2))

lemma handle_allocate_settings:
  "handle_allocate c e msg client s = Returns (s', effs, resp) \<Longrightarrow> settings s' = settings s"
  by (erule handle_allocate_cases) simp_all

lemma handle_refresh_settings:
  assumes "handle_refresh c e msg client s = Returns (s', effs, resp)"
  shows "settings s' = settings s"
  using assms unfolding handle_refresh_def
proof (rule with_auth_settings, goal_cases)
  case (1 name)
  show ?case
  proof (cases "find_allocation_by_client (alloc s) client")
    case None
    then show ?thesis using 1 by (auto simp: rust_simps)
  next
    case (Some k)
    obtain life where l: "get_lifetime msg = Returns life" using 1 by (auto simp: rust_simps)
    obtain res t where t: "refresh_allocation k life (alloc s) = (res, t)" by fastforce
    show ?thesis using 1 Some l t by (cases "life = 0"; cases res) (auto simp: rust_simps)
  qed
qed

lemma handle_create_permission_settings:
  assumes "handle_create_permission c e msg client s = Returns (s', effs, resp)"
  shows "settings s' = settings s"
  using assms unfolding handle_create_permission_def
proof (rule with_auth_settings, goal_cases)
  case (1 name)
  obtain added t where "add_permissions client (peers_of msg) (alloc s) = (added, t)" by fastforce
  then show ?case
    using 1 by (cases "find_allocation_by_client (alloc s) client") (auto simp: rust_simps Let_def split: if_splits)
qed

lemma handle_channel_bind_settings:
  "handle_channel_bind c e msg client s = Returns (s', effs, resp) \<Longrightarrow> settings s' = settings s"
  by (erule handle_channel_bind_cases) simp_all

lemma handle_send_settings: "handle_send e msg client s = Returns (s', effs, resp) \<Longrightarrow> settings s' = settings s"
  by (auto simp: handle_send_def split: if_splits option.splits prod.splits)

lemmas handler_settings = handle_allocate_settings handle_refresh_settings handle_create_permission_settings
  handle_channel_bind_settings handle_send_settings

lemma process_message_settings:
  "process_message c e msg client s = Returns (s', effs, resp) \<Longrightarrow> settings s' = settings s"
  by (auto simp: process_message_def handle_binding_def dest: handler_settings split: if_splits stun_method.splits)

lemma message_settings:
  "handle_tcp_message c e data client s = Returns (s', effs, resp) \<Longrightarrow> settings s' = settings s"
  "handle_udp_message c e data client s = Returns (s', effs, resp) \<Longrightarrow> settings s' = settings s"
  by (auto simp: handle_tcp_message_def handle_udp_message_def dest: process_message_settings split: if_splits option.splits)

lemma close_settings [simp]:
  "settings (srv (stream_close conn x)) = settings (srv x)" "settings (srv (dtls_close conn x)) = settings (srv x)"
  by (simp_all add: stream_close_def dtls_close_def split: option.split)

lemma udp_work_settings: "settings (srv (fst (udp_work c e i x))) = settings (srv x)"
  by (auto simp: udp_work_def dest: message_settings split: list.split rust.split prod.split)

lemma stream_frame_settings: "settings (srv (fst (stream_frame c e conn x))) = settings (srv x)"
  by (auto simp: stream_frame_def Let_def dest: message_settings split: option.split rust.split prod.split)

lemma dtls_recv_settings: "settings (srv (fst (dtls_recv c e conn data x))) = settings (srv x)"
  by (auto simp: dtls_recv_def handle_dtls_message_def Let_def dest: message_settings split: option.split rust.split prod.split)

lemma sys_step_settings: "settings (srv (fst (sys_step c hash ev x))) = settings (srv x)"
  by (cases ev)
     (simp_all add: udp_recv_def udp_work_settings stream_open_def stream_data_def stream_frame_settings dtls_open_def
        dtls_recv_settings allocation_cleanup_def nonce_cleanup_def channel_cleanup_def case_prod_beta Let_def split: option.split)

text \<open>A server with the settings of a started one is a running server.\<close>

lemma settings_running:
  assumes "settings s = settings (startup_server t0 pkg cfg am)"
  shows "running_server t0 pkg cfg s"
proof -
  have "s = (settings s)\<lparr>alloc := alloc s, chans := chans s, nonce_map := nonce_map s\<rparr>"
    by (cases s) (simp add: settings_def)
  also have "\<dots> = (startup_server t0 pkg cfg am)\<lparr>alloc := alloc s, chans := chans s, nonce_map := nonce_map s\<rparr>"
    unfolding assms by (cases "startup_server t0 pkg cfg am") (simp add: settings_def)
  finally show ?thesis unfolding running_server_def by blast
qed

lemma settings_set_auth_eq: "settings (set_auth_manager am s) = (settings s)\<lparr>auth := Some am\<rparr>"
  by (simp add: settings_def set_auth_manager_def)

lemma startup_set_auth: "startup_server t0 pkg cfg am' = set_auth_manager am' (startup_server t0 pkg cfg am)"
  by (simp add: startup_server_def Let_def set_auth_manager_def)

lemma settings_set_auth:
  assumes "settings s = settings (startup_server t0 pkg cfg am)"
  shows "settings (set_auth_manager am' s) = settings (startup_server t0 pkg cfg am')"
  unfolding startup_set_auth [of t0 pkg cfg am' am] settings_set_auth_eq assms ..

lemma settings_auth: "settings s = settings s' \<Longrightarrow> auth s = auth s'"
  unfolding settings_def by (drule arg_cong [where f = auth]) simp

section \<open>The invariant of the process\<close>

definition proc_inv :: "(socket_addr \<Rightarrow> u64) \<Rightarrow> nat \<Rightarrow> string \<Rightarrow> config \<Rightarrow> process \<Rightarrow> bool" where
  "proc_inv hash t0 pkg cfg p \<longleftrightarrow> sys_inv hash (proc_sys p) \<and>
     (\<exists>am. settings (srv (proc_sys p)) = settings (startup_server t0 pkg cfg am) \<and> users_wf (users am) \<and> acl_sorted am)"


lemma proc_step_inv:
  assumes "proc_inv hash t0 pkg cfg p" and "proc_step c tm hash app ev p = (p', out)"
  shows "proc_inv hash t0 pkg cfg p'"
proof -
  obtain am where am: "settings (srv (proc_sys p)) = settings (startup_server t0 pkg cfg am)"
      "users_wf (users am)" "acl_sorted am" and sys: "sys_inv hash (proc_sys p)"
    using assms(1) unfolding proc_inv_def by blast
  show ?thesis
  proof (cases ev)
    case (Net e)
    then have p': "proc_sys p' = fst (sys_step c hash e (proc_sys p))"
      using assms(2) by (auto split: prod.splits)
    have "sys_inv hash (proc_sys p')" unfolding p' by (rule sys.step_inv_fst [OF sys])
    moreover have "settings (srv (proc_sys p')) = settings (startup_server t0 pkg cfg am)"
      unfolding p' sys_step_settings by (rule am(1))
    ultimately show ?thesis unfolding proc_inv_def using am(2,3) by blast
  next
    case (Http he meta req)
    have auth: "auth (srv (proc_sys p)) = Some am" using settings_auth [OF am(1)] by simp
    let ?con = "\<lparr>con_auth = am, con_files = proc_files p\<rparr>"
    show ?thesis
    proof (cases "serve c tm he app meta req ?con")
      case Panics
      then show ?thesis using assms Http auth by simp
    next
      case (Returns r)
      obtain con rep where r: "r = (con, rep)" by (cases r)
      have "console_inv con"
        by (rule serve_inv [OF _ Returns [unfolded r]]) (simp add: console_inv_def am)
      moreover have p': "proc_sys p' = (proc_sys p)\<lparr>srv := set_auth_manager (con_auth con) (srv (proc_sys p))\<rparr>"
        using assms(2) Http auth Returns r by auto
      moreover have "settings (srv (proc_sys p')) = settings (startup_server t0 pkg cfg (con_auth con))"
        by (simp add: p' settings_set_auth [OF am(1)])
      moreover have "sys_inv hash (proc_sys p')"
        using sys by (simp add: p' sys_inv_def srv_inv_def queues_inv_def set_auth_manager_def)
      ultimately show ?thesis unfolding proc_inv_def console_inv_def by blast
    qed
  qed
qed

interpretation proc: state_machine "proc_step c tm hash app" "proc_inv hash t0 pkg cfg" for c tm hash app t0 pkg cfg
  by unfold_locales (rule proc_step_inv)

lemma srv_inv_startup:
  assumes "start_port (cfg_server cfg) \<le> end_port (cfg_server cfg)"
    and "unat (end_port (cfg_server cfg)) - unat (start_port (cfg_server cfg)) < 65535"
  shows "srv_inv (startup_server t0 pkg cfg am)"
  using srv_inv_new [OF assms]
  by (simp add: startup_server_def Let_def set_auth_manager_def set_protocol_enabled_def set_server_name_def
      set_stats_dump_skip_if_no_change_def set_stats_dump_interval_def srv_inv_def)

text \<open>What \<open>main\<close> has built when it succeeds.\<close>

lemma main_start_server:
  assumes "main_start tm t0 secs pkg load_tls load_dtls path fs = Returns (Inr st)"
  shows "st_server st = (let cfg = (case config_load tm path fs of Some cfg \<Rightarrow> cfg | None \<Rightarrow> config_default pkg)
    in startup_server t0 pkg cfg (load_auth secs cfg))"
  using assms unfolding main_start_def Let_def
  by (auto simp: rust_simps split: if_splits option.splits)

text \<open>Every state the process reaches from a start with a usable port range satisfies the invariant.\<close>

lemma proc_inv_reachable:
  assumes "main_start tm t0 secs pkg load_tls load_dtls path fs = Returns (Inr st)"
    and "cfg = (case config_load tm path fs of Some cfg \<Rightarrow> cfg | None \<Rightarrow> config_default pkg)"
    and "start_port (cfg_server cfg) \<le> end_port (cfg_server cfg)"
    and "unat (end_port (cfg_server cfg)) - unat (start_port (cfg_server cfg)) < 65535"
  shows "proc_inv hash t0 pkg cfg (fold (\<lambda>ev p. fst (proc_step c tm hash app ev p)) evs (proc_start cpus addr st fs))"
proof (rule proc.run_inv)
  have st: "st_server st = startup_server t0 pkg cfg (load_auth secs cfg)"
    using main_start_server [OF assms(1)] by (simp add: assms(2) Let_def)
  show "proc_inv hash t0 pkg cfg (proc_start cpus addr st fs)"
    unfolding proc_inv_def proc_start_def
  proof (simp, intro conjI exI [of _ "load_auth secs cfg"])
    show "sys_inv hash (run_udp cpus addr (st_server st))"
      unfolding st by (rule sys_inv_start [OF srv_inv_startup [OF assms(3,4)]])
    show "settings (srv (run_udp cpus addr (st_server st))) = settings (startup_server t0 pkg cfg (load_auth secs cfg))"
      by (simp add: run_udp_def Let_def st)
  qed (use load_auth_inv in blast)+
qed

text \<open>A start from no configuration file, for the witnesses.\<close>

lemma default_start:
  obtains st where
    "main_start sample_toml 0 0 ''miuturn/0'' (\<lambda>_. None) (\<lambda>_. None) ''f'' Map.empty = Returns (Inr st)"
    "st_listeners st = [RunUdp (SocketV4 (Ipv4 0 0 0 0) 3478), RunTcp (SocketV4 (Ipv4 0 0 0 0) 3478)]"
    "config_default ''miuturn/0'' = (case config_load sample_toml ''f'' Map.empty of Some cfg \<Rightarrow> cfg | None \<Rightarrow> config_default ''miuturn/0'')"
proof -
  let ?cfg = "config_default ''miuturn/0''"
  have cfg: "?cfg = (case config_load sample_toml ''f'' Map.empty of Some cfg \<Rightarrow> cfg | None \<Rightarrow> ?cfg)"
    by (simp add: config_load_def read_to_string_def)
  have "show_nat 0 = ''0''" "show_nat 3478 = ''3478''" by code_simp+
  then have "sock_to_string (SocketV4 (Ipv4 0 0 0 0) 3478) = ''0.0.0.0:3478''" by simp
  then have "parse_socket_addr ''0.0.0.0:3478'' = Some (SocketV4 (Ipv4 0 0 0 0) 3478)"
    using parse_sock_to_string_v4 [of "Ipv4 0 0 0 0" 3478] by metis
  then obtain st where "main_start sample_toml 0 0 ''miuturn/0'' (\<lambda>_. None) (\<lambda>_. None) ''f'' Map.empty = Returns (Inr st)"
      "st_listeners st = [RunUdp (SocketV4 (Ipv4 0 0 0 0) 3478), RunTcp (SocketV4 (Ipv4 0 0 0 0) 3478)]"
    unfolding main_start_def cfg [symmetric]
    by (simp add: Let_def config_default_def start_listener_def listen_addr_def)
  then show thesis using cfg by (rule that)
qed

lemma default_ports:
  "start_port (cfg_server (config_default pkg)) \<le> end_port (cfg_server (config_default pkg))"
  "unat (end_port (cfg_server (config_default pkg))) - unat (start_port (cfg_server (config_default pkg))) < 65535"
  by (simp_all add: config_default_def)

section \<open>Properties of the process\<close>



text \<open>The relay's answer for a name, through the contract of the shared database.\<close>

lemma password_of_settings:
  assumes "settings s = settings (startup_server t0 pkg cfg am)"
  shows "get_password_for_user e name (set_auth_manager am' s) =
      Some (case_option ''password'' id (get_user_password (unix_secs e) name am'))"
    and "get_password_for_user e name s = Some (case_option ''password'' id (get_user_password (unix_secs e) name am))"
proof -
  have "srv_password s = ''password''" using arg_cong [OF assms, of srv_password] by (simp add: settings_def)
  moreover have "auth s = Some am" using settings_auth [OF assms] by simp
  ultimately show "get_password_for_user e name (set_auth_manager am' s) =
      Some (case_option ''password'' id (get_user_password (unix_secs e) name am'))"
    and "get_password_for_user e name s = Some (case_option ''password'' id (get_user_password (unix_secs e) name am))"
    by (simp_all add: get_password_for_user_def set_auth_manager_def split: option.split)
qed

text \<open>What an authorised management request does to the relay's view of the database.\<close>

lemma http_set_auth:
  assumes "auth (srv (proc_sys p)) = Some am" and "check_auth (cookies meta) app" and "admin_allowed app meta"
  shows "\<exists>u. srv (proc_sys (fst (proc_step c tm hash app (Http he meta (PostUser q)) p))) =
      set_auth_manager (add_user u am) (srv (proc_sys p)) \<and>
      username u = au_username q \<and> password u = au_password q \<and> expires_at u = au_expires_at q"
    and "\<exists>u. srv (proc_sys (fst (proc_step c tm hash app (Http he meta (PutUser q')) p))) =
      set_auth_manager (add_user u (remove_user (uu_username q') am)) (srv (proc_sys p)) \<and>
      username u = uu_username q' \<and> password u = case_option [] id (uu_password q') \<and> expires_at u = uu_expires_at q'"
    and "srv (proc_sys (fst (proc_step c tm hash app (Http he meta (DeleteUser params)) p))) =
      set_auth_manager (remove_user (param_or ''username'' params) am) (srv (proc_sys p))"
  using assms
  by (auto simp: serve_def admin_acl_middleware_def add_user_handler_def update_user_handler_def delete_user_handler_def
      Let_def split: option.split)

text \<open>C18. The console governs the relay at once. In every state of the process, a user that an
  administrator adds or updates without an expiry is known to the relay with the password of the
  request from the next message on (the empty one where an update carries none); a deleted one
  falls back to the fixed password; and every other name keeps its password.\<close>

theorem console_governs_relay:
  assumes "main_start tm t0 secs pkg load_tls load_dtls path fs = Returns (Inr st)"
    and "cfg = (case config_load tm path fs of Some cfg \<Rightarrow> cfg | None \<Rightarrow> config_default pkg)"
    and "start_port (cfg_server cfg) \<le> end_port (cfg_server cfg)"
    and "unat (end_port (cfg_server cfg)) - unat (start_port (cfg_server cfg)) < 65535"
    and "p = fold (\<lambda>ev p. fst (proc_step c tm hash app ev p)) evs (proc_start cpus addr st fs)"
    and "check_auth (cookies meta) app" and "admin_allowed app meta"
    and "au_expires_at q = None" and "uu_expires_at q' = None"
    and "after = (\<lambda>req name. get_password_for_user e name
      (srv (proc_sys (fst (proc_step c tm hash app (Http he meta req) p)))))"
    and "before = (\<lambda>name. get_password_for_user e name (srv (proc_sys p)))"
  shows "after (PostUser q) = before(au_username q \<mapsto> au_password q) \<and>
    after (PutUser q') = before(uu_username q' \<mapsto> case_option [] id (uu_password q')) \<and>
    after (DeleteUser params) = before(param_or ''username'' params \<mapsto> ''password'')"
proof -
  obtain am where am: "settings (srv (proc_sys p)) = settings (startup_server t0 pkg cfg am)"
    using proc_inv_reachable [OF assms(1-4)] unfolding assms(5) proc_inv_def by blast
  have auth: "auth (srv (proc_sys p)) = Some am" using settings_auth [OF am] by simp
  note pw = password_of_settings [OF am] and req = http_set_auth [OF auth assms(6,7), where c = c and tm = tm and hash = hash and he = he]
  have "after (PostUser q) = before(au_username q \<mapsto> au_password q)"
  proof -
    obtain u where u: "srv (proc_sys (fst (proc_step c tm hash app (Http he meta (PostUser q)) p))) =
        set_auth_manager (add_user u am) (srv (proc_sys p))"
        "username u = au_username q" "password u = au_password q" "\<not> user_expired (unix_secs e) u"
      using req(1) [of q] assms(8) by (auto simp: user_expired_def)
    show ?thesis
      unfolding assms(10,11) u(1) pw u(2,3) [symmetric] by (rule ext) (simp add: creds.answer_put u(4))
  qed
  moreover have "after (PutUser q') = before(uu_username q' \<mapsto> case_option [] id (uu_password q'))"
  proof -
    obtain u where u: "srv (proc_sys (fst (proc_step c tm hash app (Http he meta (PutUser q')) p))) =
        set_auth_manager (add_user u (remove_user (uu_username q') am)) (srv (proc_sys p))"
        "username u = uu_username q'" "password u = case_option [] id (uu_password q')" "\<not> user_expired (unix_secs e) u"
      using req(2) [of q'] assms(9) by (auto simp: user_expired_def)
    show ?thesis
      unfolding assms(10,11) u(1) pw u(2,3) [symmetric] by (rule ext) (simp add: creds.answer_put creds.answer_replace u(4))
  qed
  moreover have "after (DeleteUser params) = before(param_or ''username'' params \<mapsto> ''password'')"
    unfolding assms(10,11) req(3) pw by (rule ext) (simp add: creds.answer_del)
  ultimately show ?thesis by blast
qed

definition sample_admin :: http_meta where
  "sample_admin = sample_meta [(''admin_session'', ''authenticated'')]"

definition sample_new_user :: add_user_request where
  "sample_new_user = \<lparr>au_username = ''bob'', au_password = ''pw'', au_type = ''fixed'', au_max_allocations = None,
     au_expires_at = None, au_bandwidth_limit = None, au_ip_whitelist = None, au_max_duration = None\<rparr>"

theorem console_governs_relay_witness:
  "\<exists>st. main_start sample_toml 0 0 ''miuturn/0'' (\<lambda>_. None) (\<lambda>_. None) ''f'' Map.empty = Returns (Inr st) \<and>
     get_password_for_user sample_env ''bob'' (srv (proc_sys (fst (proc_step sample_crypto sample_toml (\<lambda>_. 0) sample_app
       (Http sample_http sample_admin (PostUser sample_new_user))
       (proc_start 4 (SocketV4 (Ipv4 0 0 0 0) 3478) st Map.empty))))) = Some ''pw''"
proof -
  obtain st where m: "main_start sample_toml 0 0 ''miuturn/0'' (\<lambda>_. None) (\<lambda>_. None) ''f'' Map.empty = Returns (Inr st)"
      "config_default ''miuturn/0'' = (case config_load sample_toml ''f'' Map.empty of Some cfg \<Rightarrow> cfg | None \<Rightarrow> config_default ''miuturn/0'')"
    by (rule default_start)
  have admin: "check_auth (cookies sample_admin) sample_app" "admin_allowed sample_app sample_admin"
    by (simp_all add: sample_admin_def sample_meta_def sample_app_def check_auth_def admin_allowed_def SESSION_COOKIE_def SESSION_VALUE_def)
  have q: "au_expires_at sample_new_user = None" "au_username sample_new_user = ''bob''" "au_password sample_new_user = ''pw''"
    by (simp_all add: sample_new_user_def)
  have put: "uu_expires_at sample_put = None" by (simp add: sample_put_def)
  note r = console_governs_relay [where c = sample_crypto and hash = "\<lambda>_. 0" and evs = "[]" and cpus = 4
      and addr = "SocketV4 (Ipv4 0 0 0 0) 3478" and he = sample_http and e = sample_env,
      OF m default_ports refl admin q(1) put refl refl]
  show ?thesis
    using m(1) fun_cong [OF conjunct1 [OF r], of "''bob''"] by (auto simp: q simp del: proc_step.simps)
qed

end
