(* ===== verification/OAuth.thy ===== *)
theory OAuth
  imports Rust_Str
begin

text \<open>
  Bearer tokens, \<open>src/oauth.rs\<close>: the base64url front end, the textual extraction of JSON
  fields, and the validation of a token \<open>header.payload.signature\<close>. HMAC-SHA256 and the standard
  base64 engine come from third-party crates; they are the functions of the record
  \<open>jwt_crypto\<close>, which the definitions take as a parameter. Slicing a string can panic, so the
  extraction returns \<open>'a rust\<close>.
\<close>

section \<open>Data\<close>

record jwt_crypto =
  hmac_sha256 :: "bytes \<Rightarrow> bytes \<Rightarrow> bytes"  \<comment> \<open>key, message\<close>
  b64_encode :: "bytes \<Rightarrow> string"
  b64_decode :: "string \<Rightarrow> bytes option"

record oauth_config =
  jwt_secret :: string
  issuer :: string
  audience :: string
  oauth_enabled :: bool

record oauth_user_info =
  user_id :: string
  scopes :: "string list"
  info_expires_at :: "nat option"

definition oauth_config_new :: "string \<Rightarrow> oauth_config" where
  "oauth_config_new secret = \<lparr>jwt_secret = secret, issuer = [], audience = [], oauth_enabled = True\<rparr>"

definition oauth_config_default :: oauth_config where
  "oauth_config_default = \<lparr>jwt_secret = [], issuer = [], audience = [], oauth_enabled = False\<rparr>"

definition with_issuer :: "string \<Rightarrow> oauth_config \<Rightarrow> oauth_config" where
  "with_issuer iss cfg = cfg\<lparr>issuer := iss\<rparr>"

definition with_audience :: "string \<Rightarrow> oauth_config \<Rightarrow> oauth_config" where
  "with_audience aud cfg = cfg\<lparr>audience := aud\<rparr>"

section \<open>Helpers\<close>

definition extract_bearer_token :: "string \<Rightarrow> string option" where
  "extract_bearer_token auth_header = strip_prefix ''Bearer '' auth_header"

definition base64_decode :: "jwt_crypto \<Rightarrow> string \<Rightarrow> bytes option" where
  "base64_decode c input =
     (let base64 = replace_char CHR ''_'' CHR ''/'' (replace_char CHR ''-'' CHR ''+'' input);
          padding = (4 - length base64 mod 4) mod 4
      in b64_decode c (base64 @ replicate padding CHR ''=''))"

definition compute_hmac_sha256 :: "jwt_crypto \<Rightarrow> string \<Rightarrow> string \<Rightarrow> bytes" where
  "compute_hmac_sha256 c message key = hmac_sha256 c (as_bytes key) (as_bytes message)"

text \<open>The double quote, and the text \<open>"field":\<close> that is searched for.\<close>

definition dquote :: char where
  "dquote = CHR 0x22"

definition json_key :: "string \<Rightarrow> string" where
  "json_key field = dquote # field @ [dquote, CHR '':'']"

definition extract_json_field :: "string \<Rightarrow> string \<Rightarrow> string option rust" where
  "extract_json_field json field =
     (case find_str (json_key field) json of
        None \<Rightarrow> Returns None
      | Some start \<Rightarrow>
          (case drop (start + length (json_key field)) json of
             [] \<Rightarrow> Returns None
           | ch # cs \<Rightarrow>
               if ch = dquote then Returns (map_option (\<lambda>e. take e cs) (find_any [dquote] cs))
               else if ch = CHR ''t'' \<or> ch = CHR ''f'' then
                 rbind (str_prefix (ch # cs) (if prefix ''true'' (ch # cs) then 4 else 5)) (\<lambda>v. Returns (Some v))
               else
                 Returns (Some (trim (take (case find_any [CHR '','', CHR ''}''] (ch # cs) of
                     Some e \<Rightarrow> e | None \<Rightarrow> length (ch # cs)) (ch # cs))))))"

section \<open>Validation\<close>

text \<open>The \<open>?\<close> operator under code that may panic.\<close>

definition ok_or_none :: "'a option rust \<Rightarrow> ('a \<Rightarrow> 'b option rust) \<Rightarrow> 'b option rust" where
  "ok_or_none m f = rbind m (\<lambda>x. case x of None \<Rightarrow> Returns None | Some v \<Rightarrow> f v)"

definition token_payload :: "jwt_crypto \<Rightarrow> string \<Rightarrow> string option" where
  "token_payload c part = (case base64_decode c part of None \<Rightarrow> None | Some payload \<Rightarrow> from_utf8 payload)"

text \<open>\<open>t\<close> is the clock in seconds since the epoch.\<close>

definition validate_token :: "jwt_crypto \<Rightarrow> oauth_config \<Rightarrow> u64 \<Rightarrow> string \<Rightarrow> string option rust" where
  "validate_token c cfg t token =
     (if \<not> oauth_enabled cfg then Returns None
      else let parts = split_on CHR ''.'' token in
        if length parts \<noteq> 3 then Returns None
        else
          ok_or_none (Returns (token_payload c (parts ! 1))) (\<lambda>payload.
          ok_or_none (extract_json_field payload ''sub'') (\<lambda>uid.
          ok_or_none (extract_json_field payload ''exp'') (\<lambda>exp_text.
          ok_or_none (Returns (parse_uint 64 exp_text)) (\<lambda>expiry.
          rbind (extract_json_field payload ''iss'') (\<lambda>iss.
          rbind (extract_json_field payload ''aud'') (\<lambda>aud.
            if unat t > expiry then Returns None
            else if issuer cfg \<noteq> [] \<and> iss \<noteq> Some (issuer cfg) then Returns None
            else if audience cfg \<noteq> [] \<and> aud \<noteq> Some (audience cfg) then Returns None
            else
              let expected_sig = compute_hmac_sha256 c (parts ! 0 @ ''.'' @ parts ! 1) (jwt_secret cfg)
              in ok_or_none (Returns (base64_decode c (parts ! 2))) (\<lambda>provided_sig.
                   if provided_sig \<noteq> expected_sig then Returns None else Returns (Some uid)))))))))"

definition is_enabled :: "oauth_config \<Rightarrow> bool" where
  "is_enabled cfg = oauth_enabled cfg"

definition get_user_info :: "jwt_crypto \<Rightarrow> oauth_config \<Rightarrow> string \<Rightarrow> oauth_user_info option rust" where
  "get_user_info c cfg token =
     (if \<not> oauth_enabled cfg then Returns None
      else let parts = split_on CHR ''.'' token in
        if length parts \<noteq> 3 then Returns None
        else
          ok_or_none (Returns (token_payload c (parts ! 1))) (\<lambda>payload.
          ok_or_none (extract_json_field payload ''sub'') (\<lambda>uid.
          rbind (extract_json_field payload ''scope'') (\<lambda>scope.
          rbind (extract_json_field payload ''exp'') (\<lambda>exp_text.
            Returns (Some \<lparr>user_id = uid,
              scopes = (case scope of Some s \<Rightarrow> split_on CHR '' '' s | None \<Rightarrow> []),
              info_expires_at = (case exp_text of Some s \<Rightarrow> parse_uint 64 s | None \<Rightarrow> None)\<rparr>))))))"

section \<open>Lemmas\<close>

lemma ok_or_none_simps [simp]:
  "ok_or_none Panics f = Panics"
  "ok_or_none (Returns None) f = Returns None"
  "ok_or_none (Returns (Some v)) f = f v"
  by (simp_all add: ok_or_none_def)

lemma ok_or_none_SomeE:
  assumes "ok_or_none m f = Returns (Some y)"
  obtains v where "m = Returns (Some v)" and "f v = Returns (Some y)"
  using assms by (auto simp: ok_or_none_def rust_simps split: option.splits)

text \<open>A token is three parts without dots, joined by dots.\<close>

lemma split_token:
  "CHR ''.'' \<notin> set h \<Longrightarrow> CHR ''.'' \<notin> set p \<Longrightarrow> CHR ''.'' \<notin> set s \<Longrightarrow>
   split_on CHR ''.'' (h @ ''.'' @ p @ ''.'' @ s) = [h, p, s]"
  by (simp add: split_on_append split_on_no_sep)

lemma split_on_pieces: "x \<in> set (split_on c s) \<Longrightarrow> c \<notin> set x"
  by (induction s arbitrary: x) (auto split: list.splits if_splits)

lemma split_on_join:
  "split_on c s = x # y # ys \<Longrightarrow> \<exists>t. s = x @ c # t \<and> split_on c t = y # ys"
proof (induction s arbitrary: x)
  case (Cons a s)
  show ?case
  proof (cases "a = c")
    case True
    with Cons.prems show ?thesis by auto
  next
    case False
    then obtain x' where x': "split_on c s = x' # y # ys" "x = a # x'"
      using Cons.prems by (auto split: list.splits)
    from Cons.IH [OF x'(1)] x'(2) show ?thesis by auto
  qed
qed simp

lemma split_on_single: "split_on c s = [x] \<Longrightarrow> s = x"
  by (induction s arbitrary: x) (auto split: list.splits if_splits)

lemma split_token_iff:
  "split_on CHR ''.'' tok = [h, p, s] \<longleftrightarrow>
   tok = h @ ''.'' @ p @ ''.'' @ s \<and> CHR ''.'' \<notin> set h \<and> CHR ''.'' \<notin> set p \<and> CHR ''.'' \<notin> set s"
proof
  assume sp: "split_on CHR ''.'' tok = [h, p, s]"
  obtain t where t: "tok = h @ CHR ''.'' # t" "split_on CHR ''.'' t = [p, s]"
    using split_on_join [OF sp] by blast
  obtain u where u: "t = p @ CHR ''.'' # u" "split_on CHR ''.'' u = [s]"
    using split_on_join [OF t(2)] by blast
  show "tok = h @ ''.'' @ p @ ''.'' @ s \<and> CHR ''.'' \<notin> set h \<and> CHR ''.'' \<notin> set p \<and> CHR ''.'' \<notin> set s"
    using t(1) u(1) split_on_single [OF u(2)] split_on_pieces [of _ "CHR ''.''" tok] sp by simp
qed (auto simp: split_on_append split_on_no_sep)

lemma length_3_iff: "length xs = 3 \<longleftrightarrow> (\<exists>a b c. xs = [a, b, c])"
  by (auto simp: numeral_3_eq_3 length_Suc_conv)

text \<open>
  What stands after the first occurrence of a key. The value of a field is read from there, so
  this is all the extraction depends on.
\<close>

definition after_key :: "string \<Rightarrow> string \<Rightarrow> string option" where
  "after_key f json = map_option (\<lambda>n. drop (n + length (json_key f)) json) (find_str (json_key f) json)"

lemma extract_after_string:
  "after_key f json = Some (dquote # v @ dquote # post) \<Longrightarrow> dquote \<notin> set v \<Longrightarrow>
   extract_json_field json f = Returns (Some v)"
  using find_any_skip [of v "[dquote]" dquote post]
  by (auto simp: after_key_def extract_json_field_def)

lemma dquote_neq [simp]: "dquote \<noteq> CHR ''t''" "dquote \<noteq> CHR ''f''" "\<not> is_digit dquote"
    "dquote \<noteq> CHR '':''" "dquote \<noteq> CHR '',''" "dquote \<noteq> CHR ''{''" "dquote \<noteq> CHR ''}''"
    "dquote \<noteq> CHR ''s''" "dquote \<noteq> CHR ''u''" "dquote \<noteq> CHR ''b''" "dquote \<noteq> CHR ''e''" "dquote \<noteq> CHR ''x''" "dquote \<noteq> CHR ''p''" "dquote \<noteq> CHR ''i''" "dquote \<noteq> CHR ''a''" "dquote \<noteq> CHR ''d''"
  by (simp_all add: dquote_def is_digit_def of_char_def)

lemmas dquote_neq_sym [simp] = dquote_neq(1-2,4-7) [symmetric]

lemma extract_after_number:
  assumes "after_key f json = Some (show_nat k @ sep # post)" and "sep = CHR '','' \<or> sep = CHR ''}''"
  shows "extract_json_field json f = Returns (Some (show_nat k))"
proof -
  obtain d ds where d: "show_nat k = d # ds" by (cases "show_nat k") auto
  have "is_digit d" using show_nat_digits [of k] d by (simp add: list_all_iff)
  then have "d \<noteq> dquote" "d \<noteq> CHR ''t''" "d \<noteq> CHR ''f''"
    using dquote_neq(3) by (auto simp: is_digit_def of_char_def)
  moreover have "find_any [CHR '','', CHR ''}''] (show_nat k @ sep # post) = Some (length (show_nat k))"
  proof (rule find_any_skip)
    have "\<not> is_digit CHR '',''" "\<not> is_digit CHR ''}''" by (simp_all add: is_digit_def of_char_def)
    then show "set (show_nat k) \<inter> set [CHR '','', CHR ''}''] = {}"
      using show_nat_digits [of k] by (auto simp: list_all_iff)
  qed (use assms(2) in auto)
  moreover obtain n where "find_str (json_key f) json = Some n"
      "drop (n + length (json_key f)) json = d # ds @ sep # post"
    using assms(1) d by (auto simp: after_key_def)
  ultimately show ?thesis
    using trim_show_nat [of k] by (simp add: extract_json_field_def d)
qed

lemma after_key_here: "after_key f (json_key f @ r) = Some r"
  by (simp add: after_key_def json_key_def)

lemma after_key_Cons:
  "\<not> prefix (json_key f) (c # cs) \<Longrightarrow> after_key f (c # cs) = after_key f cs"
  by (cases "find_str (json_key f) cs") (simp_all add: after_key_def)

lemma after_key_skip: "dquote \<notin> set xs \<Longrightarrow> after_key f (xs @ ys) = after_key f ys"
proof (induction xs)
  case (Cons x xs)
  then have "\<not> prefix (json_key f) (x # xs @ ys)" by (simp add: json_key_def)
  with Cons show ?case by (simp add: after_key_Cons)
qed simp

lemma json_key_no_match:
  assumes "dquote \<notin> set f" and "dquote \<notin> set v" and "v \<noteq> f \<or> sep \<noteq> CHR '':''"
  shows "\<not> prefix (json_key f) (dquote # v @ dquote # sep # r)"
proof
  assume "prefix (json_key f) (dquote # v @ dquote # sep # r)"
  then obtain z where "v @ dquote # sep # r = f @ dquote # CHR '':'' # z"
    by (auto simp: json_key_def prefix_def)
  with assms show False by (metis append_sep_inj list.inject)
qed

text \<open>Skipping a quoted word that is not the key, and a whole field of another name.\<close>

lemma after_key_word:
  assumes "dquote \<notin> set f" and "dquote \<notin> set v" and "v \<noteq> f \<or> sep \<noteq> CHR '':''" and "sep \<noteq> dquote" and "sep \<notin> set f"
  shows "after_key f (dquote # v @ dquote # sep # r) = after_key f r"
proof -
  have "after_key f (dquote # v @ dquote # sep # r) = after_key f (dquote # sep # r)"
    using after_key_Cons [OF json_key_no_match [OF assms(1-3)]] after_key_skip [OF assms(2)] by simp
  also have "\<dots> = after_key f (sep # r)"
    by (rule after_key_Cons) (use assms in \<open>auto simp: json_key_def prefix_def append_eq_Cons_conv Cons_eq_append_conv\<close>)
  also have "\<dots> = after_key f r"
    using after_key_skip [of "[sep]"] assms(4) by simp
  finally show ?thesis .
qed

lemma after_key_string_field:
  assumes "dquote \<notin> set f" and "CHR '':'' \<notin> set f" and "CHR '','' \<notin> set f"
    and "g \<noteq> f" and "dquote \<notin> set g" and "dquote \<notin> set v"
  shows "after_key f (json_key g @ dquote # v @ dquote # CHR '','' # r) = after_key f r"
  using after_key_word [of f g "CHR '':''" "dquote # v @ dquote # CHR '','' # r"]
    after_key_word [of f v "CHR '',''" r] assms
  by (simp add: json_key_def)

lemma after_key_number_field:
  assumes "dquote \<notin> set f" and "CHR '':'' \<notin> set f" and "g \<noteq> f" and "dquote \<notin> set g"
  shows "after_key f (json_key g @ show_nat k @ CHR '','' # r) = after_key f r"
proof -
  have "dquote \<notin> set (show_nat k @ [CHR '',''])"
    using show_nat_digits [of k] by (auto simp: list_all_iff)
  then show ?thesis
    using after_key_word [of f g "CHR '':''" "show_nat k @ CHR '','' # r"]
      after_key_skip [of "show_nat k @ [CHR '','']" f r] assms
    by (simp add: json_key_def)
qed

section \<open>Issued tokens\<close>

text \<open>
  The payload the validator documents, \<open>{"sub":"user_id","exp":timestamp,"iss":"issuer","aud":"audience"}\<close>,
  and a token over it, signed with a key.
\<close>

definition claims_json :: "string \<Rightarrow> nat \<Rightarrow> string \<Rightarrow> string \<Rightarrow> string" where
  "claims_json uid expiry iss aud =
     ''{'' @ json_key ''sub'' @ dquote # uid @ dquote # CHR '','' # json_key ''exp'' @ show_nat expiry @
     CHR '','' # json_key ''iss'' @ dquote # iss @ dquote # CHR '','' # json_key ''aud'' @ dquote # aud @ dquote # ''}''"

definition signed_token :: "jwt_crypto \<Rightarrow> string \<Rightarrow> string \<Rightarrow> string \<Rightarrow> string" where
  "signed_token c key hdr claims =
     (let h = b64_encode c (as_bytes hdr); p = b64_encode c (as_bytes claims)
      in h @ ''.'' @ p @ ''.'' @ b64_encode c (compute_hmac_sha256 c (h @ ''.'' @ p) key))"

text \<open>What is documented of the standard base64 engine: padded groups of four characters of its
  alphabet, which decode to what was encoded.\<close>

definition base64_engine :: "jwt_crypto \<Rightarrow> bool" where
  "base64_engine c \<longleftrightarrow>
     (\<forall>bs. b64_decode c (b64_encode c bs) = Some bs \<and> 4 dvd length (b64_encode c bs) \<and>
        set (b64_encode c bs) \<inter> {CHR ''.'', CHR ''-'', CHR ''_''} = {})"

lemma base64_decode_encode: "base64_engine c \<Longrightarrow> base64_decode c (b64_encode c bs) = Some bs"
  by (simp add: base64_engine_def base64_decode_def replace_char_id)

lemma claims_fields:
  assumes "dquote \<notin> set uid" and "dquote \<notin> set iss" and "dquote \<notin> set aud"
  shows "extract_json_field (claims_json uid n iss aud) ''sub'' = Returns (Some uid)"
    and "extract_json_field (claims_json uid n iss aud) ''exp'' = Returns (Some (show_nat n))"
    and "extract_json_field (claims_json uid n iss aud) ''iss'' = Returns (Some iss)"
    and "extract_json_field (claims_json uid n iss aud) ''aud'' = Returns (Some aud)"
proof -
  have sub: "after_key ''sub'' (claims_json uid n iss aud) =
      Some (dquote # uid @ dquote # CHR '','' # json_key ''exp'' @ show_nat n @
        CHR '','' # json_key ''iss'' @ dquote # iss @ dquote # CHR '','' # json_key ''aud'' @ dquote # aud @ dquote # ''}'')"
    unfolding claims_json_def by (subst after_key_skip) (simp_all only: after_key_here, simp)
  have exp: "after_key ''exp'' (claims_json uid n iss aud) =
      Some (show_nat n @ CHR '','' # json_key ''iss'' @ dquote # iss @ dquote # CHR '','' #
        json_key ''aud'' @ dquote # aud @ dquote # ''}'')"
    unfolding claims_json_def
    by (subst after_key_skip, simp, subst after_key_string_field) (use assms in \<open>simp_all add: after_key_here\<close>)
  have iss: "after_key ''iss'' (claims_json uid n iss aud) =
      Some (dquote # iss @ dquote # CHR '','' # json_key ''aud'' @ dquote # aud @ dquote # ''}'')"
    unfolding claims_json_def
    by (subst after_key_skip, simp, subst after_key_string_field)
       (use assms in \<open>simp_all add: after_key_here after_key_number_field\<close>)
  have aud: "after_key ''aud'' (claims_json uid n iss aud) = Some (dquote # aud @ dquote # ''}'')"
    unfolding claims_json_def
    by (subst after_key_skip, simp, subst after_key_string_field)
       (use assms in \<open>simp_all add: after_key_here after_key_number_field after_key_string_field\<close>)
  show "extract_json_field (claims_json uid n iss aud) ''sub'' = Returns (Some uid)"
    by (rule extract_after_string [OF sub assms(1)])
  show "extract_json_field (claims_json uid n iss aud) ''exp'' = Returns (Some (show_nat n))"
    by (rule extract_after_number [OF exp]) simp
  show "extract_json_field (claims_json uid n iss aud) ''iss'' = Returns (Some iss)"
    by (rule extract_after_string [OF iss assms(2)])
  show "extract_json_field (claims_json uid n iss aud) ''aud'' = Returns (Some aud)"
    by (rule extract_after_string [OF aud assms(3)])
qed

lemma is_str_claims: "is_str uid \<Longrightarrow> is_str iss \<Longrightarrow> is_str aud \<Longrightarrow> is_str (claims_json uid n iss aud)"
proof -
  assume strs: "is_str uid" "is_str iss" "is_str aud"
  have "is_ascii (show_nat n)"
    using show_nat_digits [of n] by (auto simp: is_ascii_def list_all_iff is_digit_def)
  then have a: "is_str (dquote # CHR '','' # json_key ''exp'' @ show_nat n @ CHR '','' # json_key ''iss'' @ [dquote])"
    by (intro is_str_ascii) (simp add: is_ascii_def json_key_def dquote_def of_char_def)
  have b: "is_str (''{'' @ json_key ''sub'' @ [dquote])" "is_str (dquote # CHR '','' # json_key ''aud'' @ [dquote])"
      "is_str (dquote # ''}'')"
    by (intro is_str_ascii; simp add: is_ascii_def json_key_def dquote_def of_char_def)+
  have "claims_json uid n iss aud = (''{'' @ json_key ''sub'' @ [dquote]) @ uid @
      (dquote # CHR '','' # json_key ''exp'' @ show_nat n @ CHR '','' # json_key ''iss'' @ [dquote]) @ iss @
      (dquote # CHR '','' # json_key ''aud'' @ [dquote]) @ aud @ (dquote # ''}'')"
    by (simp add: claims_json_def)
  then show ?thesis using strs a b by (simp only: is_str_append)
qed

text \<open>The decisions of the validator, once the token is in its parts and the payload is read.\<close>

lemma validate_token_parts:
  assumes "split_on CHR ''.'' tok = [h, p, s]" and "token_payload c p = Some payload"
    and "extract_json_field payload ''sub'' = Returns (Some uid)"
    and "extract_json_field payload ''exp'' = Returns (Some e)" and "parse_uint 64 e = Some expiry"
    and "extract_json_field payload ''iss'' = Returns iss" and "extract_json_field payload ''aud'' = Returns aud"
  shows "validate_token c cfg t tok = Returns
    (if oauth_enabled cfg \<and> unat t \<le> expiry \<and> (issuer cfg = [] \<or> iss = Some (issuer cfg)) \<and>
        (audience cfg = [] \<or> aud = Some (audience cfg)) \<and>
        base64_decode c s = Some (compute_hmac_sha256 c (h @ ''.'' @ p) (jwt_secret cfg))
     then Some uid else None)"
  using assms by (cases "base64_decode c s") (auto simp: validate_token_def Let_def)

lemma validate_token_SomeE:
  assumes "validate_token c cfg t tok = Returns (Some uid)"
  obtains h p s payload e expiry iss aud where
    "split_on CHR ''.'' tok = [h, p, s]" and "token_payload c p = Some payload"
    and "extract_json_field payload ''sub'' = Returns (Some uid)"
    and "extract_json_field payload ''exp'' = Returns (Some e)" and "parse_uint 64 e = Some expiry"
    and "extract_json_field payload ''iss'' = Returns iss" and "extract_json_field payload ''aud'' = Returns aud"
proof -
  have "length (split_on CHR ''.'' tok) = 3"
    using assms by (auto simp: validate_token_def Let_def split: if_splits)
  then obtain h p s where parts: "split_on CHR ''.'' tok = [h, p, s]" by (auto simp: length_3_iff)
  have "oauth_enabled cfg" using assms by (auto simp: validate_token_def split: if_splits)
  note body = assms [unfolded validate_token_def parts Let_def, simplified this, simplified]
  from body obtain payload where payload: "token_payload c p = Some payload"
    by (elim ok_or_none_SomeE) simp
  from body obtain uid' where uid': "extract_json_field payload ''sub'' = Returns (Some uid')"
    unfolding payload ok_or_none_simps by (elim ok_or_none_SomeE) blast
  from body obtain e where e: "extract_json_field payload ''exp'' = Returns (Some e)"
    unfolding payload uid' ok_or_none_simps by (elim ok_or_none_SomeE) blast
  from body obtain expiry where expiry: "parse_uint 64 e = Some expiry"
    unfolding payload uid' e ok_or_none_simps by (elim ok_or_none_SomeE) blast
  from body obtain iss where iss: "extract_json_field payload ''iss'' = Returns iss"
    unfolding payload uid' e expiry ok_or_none_simps by (auto simp: rust_simps)
  from body obtain aud where aud: "extract_json_field payload ''aud'' = Returns aud"
    unfolding payload uid' e expiry iss ok_or_none_simps by (auto simp: rust_simps)
  have "uid' = uid"
    using validate_token_parts [OF parts payload uid' e expiry iss aud, of cfg t] assms
    by (simp split: if_splits)
  then show thesis using that parts payload uid' e expiry iss aud by blast
qed

section \<open>Properties of token validation\<close>

text \<open>A token is accepted for a user exactly when validation is enabled, the token is
  \<open>header.payload.signature\<close>, the signature decodes to the keyed hash of \<open>header.payload\<close> under the
  configured secret, the payload decodes to text whose \<open>sub\<close> field is the user, whose \<open>exp\<close> field is
  a number that the clock has not passed, and whose issuer and audience are the configured ones
  where any are configured.\<close>

theorem token_accepted_iff:
  "validate_token c cfg t tok = Returns (Some uid) \<longleftrightarrow>
   oauth_enabled cfg \<and>
   (\<exists>h p s payload e expiry iss aud.
      tok = h @ ''.'' @ p @ ''.'' @ s \<and> CHR ''.'' \<notin> set h \<and> CHR ''.'' \<notin> set p \<and> CHR ''.'' \<notin> set s \<and>
      base64_decode c s = Some (hmac_sha256 c (as_bytes (jwt_secret cfg)) (as_bytes (h @ ''.'' @ p))) \<and>
      token_payload c p = Some payload \<and>
      extract_json_field payload ''sub'' = Returns (Some uid) \<and>
      extract_json_field payload ''exp'' = Returns (Some e) \<and> parse_uint 64 e = Some expiry \<and> unat t \<le> expiry \<and>
      extract_json_field payload ''iss'' = Returns iss \<and> (issuer cfg = [] \<or> iss = Some (issuer cfg)) \<and>
      extract_json_field payload ''aud'' = Returns aud \<and> (audience cfg = [] \<or> aud = Some (audience cfg)))"
    (is "?L \<longleftrightarrow> ?R")
proof
  assume L: ?L
  then obtain h p s payload e expiry iss aud where
    parts: "split_on CHR ''.'' tok = [h, p, s]" and fields: "token_payload c p = Some payload"
      "extract_json_field payload ''sub'' = Returns (Some uid)"
      "extract_json_field payload ''exp'' = Returns (Some e)" "parse_uint 64 e = Some expiry"
      "extract_json_field payload ''iss'' = Returns iss" "extract_json_field payload ''aud'' = Returns aud"
    by (rule validate_token_SomeE)
  have "oauth_enabled cfg \<and> unat t \<le> expiry \<and> (issuer cfg = [] \<or> iss = Some (issuer cfg)) \<and>
      (audience cfg = [] \<or> aud = Some (audience cfg)) \<and>
      base64_decode c s = Some (hmac_sha256 c (as_bytes (jwt_secret cfg)) (as_bytes (h @ ''.'' @ p)))"
    using validate_token_parts [OF parts fields, of cfg t] L
    by (simp only: compute_hmac_sha256_def) (simp split: if_splits)
  then show ?R using parts [unfolded split_token_iff] fields by blast
next
  assume ?R
  then obtain h p s payload e expiry iss aud where
    parts: "split_on CHR ''.'' tok = [h, p, s]" and en: "oauth_enabled cfg" and
    sig: "base64_decode c s = Some (compute_hmac_sha256 c (h @ ''.'' @ p) (jwt_secret cfg))" and
    fields: "token_payload c p = Some payload"
      "extract_json_field payload ''sub'' = Returns (Some uid)"
      "extract_json_field payload ''exp'' = Returns (Some e)" "parse_uint 64 e = Some expiry"
      "extract_json_field payload ''iss'' = Returns iss" "extract_json_field payload ''aud'' = Returns aud" and
    checks: "unat t \<le> expiry" "issuer cfg = [] \<or> iss = Some (issuer cfg)"
      "audience cfg = [] \<or> aud = Some (audience cfg)"
    unfolding split_token_iff compute_hmac_sha256_def by blast
  then show ?L
    unfolding validate_token_parts [OF parts fields, of cfg t] by simp
qed

text \<open>C28. An issued token, with the documented claims about strings without a double quote, is
  validated exactly as its claims say: under an engine that decodes what it encodes, the user is
  returned until the expiry when issuer and audience are the configured ones (or none is
  configured) and the two keys give the same hash, and the token is refused otherwise.\<close>

theorem issued_token_validates:
  assumes "base64_engine c"
    and "is_str uid" and "is_str iss" and "is_str aud"
    and "dquote \<notin> set uid" and "dquote \<notin> set iss" and "dquote \<notin> set aud" and "expiry < 2 ^ 64"
    and "tok = signed_token c key hdr (claims_json uid expiry iss aud)"
  shows "validate_token c cfg t tok = Returns
    (if oauth_enabled cfg \<and> unat t \<le> expiry \<and> (issuer cfg = [] \<or> issuer cfg = iss) \<and>
        (audience cfg = [] \<or> audience cfg = aud) \<and>
        (let signed = b64_encode c (as_bytes hdr) @ ''.'' @ b64_encode c (as_bytes (claims_json uid expiry iss aud))
         in compute_hmac_sha256 c signed (jwt_secret cfg) = compute_hmac_sha256 c signed key)
     then Some uid else None)"
proof -
  let ?h = "b64_encode c (as_bytes hdr)" and ?p = "b64_encode c (as_bytes (claims_json uid expiry iss aud))"
  let ?s = "b64_encode c (compute_hmac_sha256 c (?h @ ''.'' @ ?p) key)"
  have "CHR ''.'' \<notin> set (b64_encode c bs)" for bs using assms(1) by (auto simp: base64_engine_def)
  then have parts: "split_on CHR ''.'' tok = [?h, ?p, ?s]"
    unfolding split_token_iff by (simp add: assms(9) signed_token_def Let_def)
  have payload: "token_payload c ?p = Some (claims_json uid expiry iss aud)"
    using assms(2-4) by (simp add: token_payload_def base64_decode_encode [OF assms(1)] from_utf8_as_bytes is_str_claims)
  have e: "parse_uint 64 (show_nat expiry) = Some expiry"
    using assms(8) by (simp add: parse_uint_show_nat)
  show ?thesis
    unfolding validate_token_parts [OF parts payload claims_fields(1,2) [OF assms(5-7)] e
        claims_fields(3,4) [OF assms(5-7)], of cfg t]
    by (auto simp: base64_decode_encode [OF assms(1)] Let_def)
qed

text \<open>An instance: every byte as two letters and two padding letters.\<close>

definition letters_encode :: "bytes \<Rightarrow> string" where
  "letters_encode bs =
     concat (map (\<lambda>b. [char_of (65 + unat b div 16), char_of (65 + unat b mod 16), CHR ''A'', CHR ''A'']) bs)"

fun letters_decode :: "string \<Rightarrow> bytes option" where
  "letters_decode [] = Some []"
| "letters_decode (a # b # _ # _ # r) =
     map_option ((#) (word_of_nat ((of_char a - 65) * 16 + (of_char b - 65)))) (letters_decode r)"
| "letters_decode _ = None"

definition sample_jwt :: jwt_crypto where
  "sample_jwt = \<lparr>hmac_sha256 = (\<lambda>k m. k @ m), b64_encode = letters_encode, b64_decode = letters_decode\<rparr>"

lemma letters_nibbles: "(of_char (char_of (65 + unat b div 16) :: char) :: nat) = 65 + unat b div 16"
      "(of_char (char_of (65 + unat b mod 16) :: char) :: nat) = 65 + unat b mod 16" for b :: u8
    using unsigned_less [of b, where ?'a = nat] by simp_all

lemma letters_byte: "word_of_nat ((of_char (char_of (65 + unat b div 16) :: char) - 65) * 16 +
      (of_char (char_of (65 + unat b mod 16) :: char) - 65)) = b" for b :: u8
    unfolding letters_nibbles diff_add_inverse div_mult_mod_eq by simp

lemma letters_Cons: "letters_encode (b # bs) =
      char_of (65 + unat b div 16) # char_of (65 + unat b mod 16) # CHR ''A'' # CHR ''A'' # letters_encode bs"
    by (simp add: letters_encode_def)

lemma letters_roundtrip: "letters_decode (letters_encode bs) = Some bs"
  proof (induction bs)
    case (Cons b bs)
    then show ?case unfolding letters_Cons letters_decode.simps letters_byte by simp
  qed (simp add: letters_encode_def)


lemma letters_length: "length (letters_encode bs) = 4 * length bs"
    by (induction bs) (simp_all add: letters_encode_def)

lemma letters_range: "x \<in> set (letters_encode bs) \<Longrightarrow> 65 \<le> (of_char x :: nat) \<and> (of_char x :: nat) \<le> 80"
proof (induction bs)
  case (Cons b bs)
    have le: "unat b div 16 < 16" "unat b mod 16 < 16" using unsigned_less [of b, where ?'a = nat] by simp_all
    have A: "(of_char CHR ''A'' :: nat) = 65" by (simp add: of_char_def)
    consider "x = char_of (65 + unat b div 16)" | "x = char_of (65 + unat b mod 16)" | "x = CHR ''A''"
        | "x \<in> set (letters_encode bs)"
      using Cons.prems unfolding letters_Cons list.set by blast
    then show ?case
    proof cases
      case 1 then show ?thesis unfolding 1 letters_nibbles using le by linarith
    next
      case 2 then show ?thesis unfolding 2 letters_nibbles using le by linarith
    next
      case 3 then show ?thesis unfolding 3 A by linarith
    next
      case 4 then show ?thesis by (rule Cons.IH)
    qed
qed (simp add: letters_encode_def)

lemma letters_alphabet: "set (letters_encode bs) \<inter> {CHR ''.'', CHR ''-'', CHR ''_''} = {}"
proof -
  have "(of_char CHR ''.'' :: nat) = 46" "(of_char CHR ''-'' :: nat) = 45" "(of_char CHR ''_'' :: nat) = 95"
    by (simp_all add: of_char_def)
  then have "CHR ''.'' \<notin> set (letters_encode bs)" "CHR ''-'' \<notin> set (letters_encode bs)"
      "CHR ''_'' \<notin> set (letters_encode bs)"
    using letters_range [of "CHR ''.''" bs] letters_range [of "CHR ''-''" bs] letters_range [of "CHR ''_''" bs]
    by linarith+
  then show ?thesis by blast
qed

lemma sample_jwt_engine: "base64_engine sample_jwt"
  by (simp add: base64_engine_def sample_jwt_def letters_roundtrip letters_length letters_alphabet)

theorem issued_token_validates_witness:
  "let tok = signed_token sample_jwt ''key'' ''{}'' (claims_json ''alice'' 2000 ''idp'' ''turn'');
       cfg = with_issuer ''idp'' (oauth_config_new ''key'')
   in validate_token sample_jwt cfg 2000 tok = Returns (Some ''alice'') \<and>
      validate_token sample_jwt cfg 2001 tok = Returns None \<and>
      validate_token sample_jwt (with_audience ''web'' cfg) 2000 tok = Returns None"
proof -
  have "is_str ''alice''" "is_str ''idp''" "is_str ''turn''"
    by (intro is_str_ascii; simp add: is_ascii_def of_char_def)+
  moreover have "dquote \<notin> set ''alice''" "dquote \<notin> set ''idp''" "dquote \<notin> set ''turn''"
    by (simp_all add: dquote_def)
  ultimately have v: "validate_token sample_jwt cfg t
      (signed_token sample_jwt ''key'' ''{}'' (claims_json ''alice'' 2000 ''idp'' ''turn'')) = Returns
      (if oauth_enabled cfg \<and> unat t \<le> 2000 \<and> (issuer cfg = [] \<or> issuer cfg = ''idp'') \<and>
        (audience cfg = [] \<or> audience cfg = ''turn'') \<and>
        (let signed = b64_encode sample_jwt (as_bytes ''{}'') @ ''.'' @
           b64_encode sample_jwt (as_bytes (claims_json ''alice'' 2000 ''idp'' ''turn''))
         in compute_hmac_sha256 sample_jwt signed (jwt_secret cfg) = compute_hmac_sha256 sample_jwt signed ''key'')
       then Some ''alice'' else None)" for cfg t
    by (rule issued_token_validates [OF sample_jwt_engine]) simp_all
  show ?thesis
    unfolding Let_def v by (simp add: with_issuer_def with_audience_def oauth_config_new_def)
qed

text \<open>C40. An unsigned token can make the validator panic: the payload is searched before the
  signature is checked, and a value that starts with \<open>t\<close> or \<open>f\<close>, is not \<open>true\<close> and has fewer than
  five bytes left is sliced past its end. Header, signature and the secret do not matter.\<close>

theorem unsigned_token_panics:
  assumes "oauth_enabled cfg"
    and "CHR ''.'' \<notin> set h" and "CHR ''.'' \<notin> set p" and "CHR ''.'' \<notin> set s"
    and "token_payload c p = Some (''{'' @ json_key ''sub'' @ ch # cs)"
    and "ch = CHR ''t'' \<or> ch = CHR ''f''" and "\<not> prefix ''true'' (ch # cs)" and "length cs < 4"
  shows "validate_token c cfg t (h @ ''.'' @ p @ ''.'' @ s) = Panics \<and>
    get_user_info c cfg (h @ ''.'' @ p @ ''.'' @ s) = Panics"
proof -
  have "after_key ''sub'' (''{'' @ json_key ''sub'' @ ch # cs) = Some (ch # cs)"
    by (subst after_key_skip) (simp_all add: after_key_here)
  then obtain n where "find_str (json_key ''sub'') (''{'' @ json_key ''sub'' @ ch # cs) = Some n"
      "drop (n + length (json_key ''sub'')) (''{'' @ json_key ''sub'' @ ch # cs) = ch # cs"
    unfolding after_key_def by blast
  moreover have "ch \<noteq> dquote" using assms(6) by auto
  ultimately have "extract_json_field (''{'' @ json_key ''sub'' @ ch # cs) ''sub'' = Panics"
    using assms(6-8) str_prefix_short [of "ch # cs" 5] unfolding extract_json_field_def by auto
  moreover have "split_on CHR ''.'' (h @ ''.'' @ p @ ''.'' @ s) = [h, p, s]"
    using assms(2-4) by (rule split_token)
  ultimately show ?thesis
    using assms(1,5) unfolding validate_token_def get_user_info_def Let_def by simp
qed

theorem unsigned_token_panics_witness:
  "validate_token sample_jwt (oauth_config_new ''key'') 0
     ([] @ ''.'' @ letters_encode (as_bytes (''{'' @ json_key ''sub'' @ ''t}'')) @ ''.'' @ []) = Panics"
proof -
  let ?p = "letters_encode (as_bytes (''{'' @ json_key ''sub'' @ ''t}''))"
  have p: "?p = b64_encode sample_jwt (as_bytes (''{'' @ json_key ''sub'' @ ''t}''))" by (simp add: sample_jwt_def)
  have "CHR ''.'' \<notin> set ?p" unfolding p using sample_jwt_engine by (auto simp: base64_engine_def)
  moreover have "is_str (''{'' @ json_key ''sub'' @ ''t}'')"
    by (intro is_str_ascii) (simp add: is_ascii_def json_key_def dquote_def of_char_def)
  then have "token_payload sample_jwt ?p = Some (''{'' @ json_key ''sub'' @ CHR ''t'' # ''}'')"
    unfolding p by (simp add: token_payload_def base64_decode_encode [OF sample_jwt_engine] from_utf8_as_bytes)
  ultimately show ?thesis
    using unsigned_token_panics [of "oauth_config_new ''key''" "[]" ?p "[]" sample_jwt "CHR ''t''" "''}''" 0]
    by (simp add: oauth_config_new_def)
qed

text \<open>The user information is read from the payload alone: no signature and no expiry is checked.\<close>

lemma get_user_info_unsigned:
  "CHR ''.'' \<notin> set h \<Longrightarrow> CHR ''.'' \<notin> set p \<Longrightarrow> CHR ''.'' \<notin> set s \<Longrightarrow>
   CHR ''.'' \<notin> set h' \<Longrightarrow> CHR ''.'' \<notin> set s' \<Longrightarrow>
   get_user_info c (cfg\<lparr>jwt_secret := k\<rparr>) (h' @ ''.'' @ p @ ''.'' @ s') = get_user_info c cfg (h @ ''.'' @ p @ ''.'' @ s)"
  unfolding get_user_info_def split_token by simp

lemma bearer_token_iff: "extract_bearer_token hdr = Some tok \<longleftrightarrow> hdr = ''Bearer '' @ tok"
  unfolding extract_bearer_token_def by (rule strip_prefix_Some_iff)

end
