(* ===== verification/Sds_Client.thy ===== *)
theory Sds_Client
  imports Config
begin

text \<open>
  The certificate client of \<open>src/sds.rs\<close>: the subscription that the configuration gives, the
  requests it sends, how a certificate is taken from a response, and the two loops over a response
  stream, one that waits for the first certificate and one that watches for updates. The messages
  are those of the protocol files under \<open>proto/\<close>, without the fields \<open>canary\<close>, \<open>aliases\<close> and
  \<open>initial_resource_versions\<close>, which the client neither reads nor sets. The transport and the generated decoder of a
  Secret are third-party or generated code: the decoder is a parameter and a stream is the list
  of what happens on it.
\<close>

section \<open>Messages\<close>

record node =
  node_id :: string
  node_cluster :: string

datatype specifier = Filename string | InlineBytes bytes | InlineString string

text \<open>A data source may carry no specifier.\<close>

type_synonym data_source = "specifier option"

record tls_certificate =
  certificate_chain :: "data_source option"
  private_key :: "data_source option"

record secret =
  secret_name :: string
  secret_type :: "tls_certificate option"

record any_message =
  any_type_url :: string
  any_value :: bytes

record discovery_request =
  rq_version_info :: string
  rq_node :: "node option"
  rq_resource_names :: "string list"
  rq_type_url :: string
  rq_response_nonce :: string

record discovery_response =
  rs_version_info :: string
  rs_resources :: "any_message list"
  rs_type_url :: string
  rs_nonce :: string

record delta_request =
  dq_node :: "node option"
  dq_type_url :: string
  dq_subscribe :: "string list"
  dq_unsubscribe :: "string list"
  dq_response_nonce :: string

record delta_resource =
  dr_version :: string
  dr_resource :: "any_message option"
  dr_name :: string

record delta_response =
  ds_system_version :: string
  ds_resources :: "delta_resource list"
  ds_type_url :: string
  ds_nonce :: string
  ds_removed :: "string list"

record sds_certificate =
  cert_pem :: string
  key_pem :: string
  version_info :: string
  cert_nonce :: string

datatype sds_error =
    MissingSetting string
  | UnsupportedApi string
  | UnexpectedTypeUrl string
  | BadSecret
  | NotATlsCertificate string
  | MissingField string
  | NoSpecifier string
  | NotUtf8
  | FileUnreadable string
  | StreamFailed
  | StreamClosed
  | SendFailed
  | TimedOut
  | UpdateFailed

section \<open>Subscription\<close>

definition SECRET_TYPE_URL :: string where
  "SECRET_TYPE_URL = ''type.googleapis.com/envoy.extensions.transport_sockets.tls.v3.Secret''"

datatype xds_stream_api = Ads | Sds | DeltaAds | DeltaSds

definition api_from_config :: "certificate_config \<Rightarrow> sds_error + xds_stream_api" where
  "api_from_config cc =
     (let api = (case sds_api cc of Some a \<Rightarrow> a | None \<Rightarrow> ''ads'') in
      if api = ''ads'' then Inr Ads
      else if api = ''sds'' then Inr Sds
      else if api = ''delta_ads'' then Inr DeltaAds
      else if api = ''delta_sds'' then Inr DeltaSds
      else Inl (UnsupportedApi api))"

fun api_path :: "xds_stream_api \<Rightarrow> string" where
  "api_path Ads = ''/envoy.service.discovery.v3.AggregatedDiscoveryService/StreamAggregatedResources''"
| "api_path Sds = ''/envoy.service.secret.v3.SecretDiscoveryService/StreamSecrets''"
| "api_path DeltaAds = ''/envoy.service.discovery.v3.AggregatedDiscoveryService/DeltaAggregatedResources''"
| "api_path DeltaSds = ''/envoy.service.secret.v3.SecretDiscoveryService/DeltaSecrets''"

fun api_as_str :: "xds_stream_api \<Rightarrow> string" where
  "api_as_str Ads = ''ads''"
| "api_as_str Sds = ''sds''"
| "api_as_str DeltaAds = ''delta_ads''"
| "api_as_str DeltaSds = ''delta_sds''"

fun is_delta :: "xds_stream_api \<Rightarrow> bool" where
  "is_delta DeltaAds = True"
| "is_delta DeltaSds = True"
| "is_delta _ = False"

record subscription =
  endpoint :: string
  api :: xds_stream_api
  resource_name :: string
  sub_node :: node
  timeout_secs :: u64

definition normalize_endpoint :: "string \<Rightarrow> string" where
  "normalize_endpoint a = (if str_contains ''://'' a then a else ''http://'' @ a)"

text \<open>\<open>.map(trim).filter(non-empty)\<close>\<close>

definition non_blank :: "string option \<Rightarrow> string option" where
  "non_blank s = (case s of Some v \<Rightarrow> if trim v \<noteq> [] then Some (trim v) else None | None \<Rightarrow> None)"

text \<open>\<open>hostname\<close> is the environment variable \<open>HOSTNAME\<close>.\<close>

definition system_hostname :: "string option \<Rightarrow> files \<Rightarrow> string option" where
  "system_hostname hostname fs =
     (case non_blank hostname of Some v \<Rightarrow> Some v | None \<Rightarrow> non_blank (read_to_string ''/etc/hostname'' fs))"

definition configured_or_hostname :: "string option \<Rightarrow> files \<Rightarrow> string option \<Rightarrow> string" where
  "configured_or_hostname hostname fs configured =
     (case non_blank configured of
        Some v \<Rightarrow> v
      | None \<Rightarrow> (case system_hostname hostname fs of Some v \<Rightarrow> v | None \<Rightarrow> ''miuturn''))"

definition subscription_from_config :: "string option \<Rightarrow> files \<Rightarrow> certificate_config \<Rightarrow> sds_error + subscription" where
  "subscription_from_config hostname fs cc =
     (case sds_address cc of
        None \<Rightarrow> Inl (MissingSetting ''certificates.sds_address'')
      | Some addr \<Rightarrow>
          (case sds_resource_name cc of
             None \<Rightarrow> Inl (MissingSetting ''certificates.sds_resource_name'')
           | Some rname \<Rightarrow>
               (case api_from_config cc of
                  Inl err \<Rightarrow> Inl err
                | Inr a \<Rightarrow> Inr
                    \<lparr>endpoint = normalize_endpoint addr, api = a, resource_name = rname,
                     sub_node = \<lparr>node_id = configured_or_hostname hostname fs (sds_node_id cc),
                       node_cluster = (case sds_cluster cc of Some cl \<Rightarrow> cl | None \<Rightarrow> [])\<rparr>,
                     timeout_secs = (case sds_timeout_secs cc of Some n \<Rightarrow> n | None \<Rightarrow> 10)\<rparr>)))"

definition initial_sotw_request :: "subscription \<Rightarrow> discovery_request" where
  "initial_sotw_request sub =
     \<lparr>rq_version_info = [], rq_node = Some (sub_node sub), rq_resource_names = [resource_name sub],
      rq_type_url = SECRET_TYPE_URL, rq_response_nonce = []\<rparr>"

definition ack_sotw_request :: "subscription \<Rightarrow> discovery_response \<Rightarrow> discovery_request" where
  "ack_sotw_request sub rs =
     \<lparr>rq_version_info = rs_version_info rs, rq_node = Some (sub_node sub), rq_resource_names = [resource_name sub],
      rq_type_url = SECRET_TYPE_URL, rq_response_nonce = rs_nonce rs\<rparr>"

definition initial_delta_request :: "subscription \<Rightarrow> delta_request" where
  "initial_delta_request sub =
     \<lparr>dq_node = Some (sub_node sub), dq_type_url = SECRET_TYPE_URL, dq_subscribe = [resource_name sub],
      dq_unsubscribe = [], dq_response_nonce = []\<rparr>"

definition ack_delta_request :: "subscription \<Rightarrow> delta_response \<Rightarrow> delta_request" where
  "ack_delta_request sub rs =
     \<lparr>dq_node = Some (sub_node sub), dq_type_url = SECRET_TYPE_URL, dq_subscribe = [],
      dq_unsubscribe = [], dq_response_nonce = ds_nonce rs\<rparr>"

section \<open>Certificates in responses\<close>

definition utf8_result :: "bytes \<Rightarrow> sds_error + string" where
  "utf8_result bs = (case from_utf8 bs of Some s \<Rightarrow> Inr s | None \<Rightarrow> Inl NotUtf8)"

definition data_source_to_string :: "files \<Rightarrow> data_source option \<Rightarrow> string \<Rightarrow> sds_error + string" where
  "data_source_to_string fs ds field =
     (case ds of
        None \<Rightarrow> Inl (MissingField field)
      | Some None \<Rightarrow> Inl (NoSpecifier field)
      | Some (Some (InlineString v)) \<Rightarrow> Inr v
      | Some (Some (InlineBytes bs)) \<Rightarrow> utf8_result bs
      | Some (Some (Filename path)) \<Rightarrow>
          (case fs path of None \<Rightarrow> Inl (FileUnreadable path) | Some content \<Rightarrow> utf8_result (as_bytes content)))"

definition extract_certificate_from_secret :: "files \<Rightarrow> secret \<Rightarrow> sds_error + string \<times> string" where
  "extract_certificate_from_secret fs sec =
     (case secret_type sec of
        None \<Rightarrow> Inl (NotATlsCertificate (secret_name sec))
      | Some tc \<Rightarrow>
          (case data_source_to_string fs (certificate_chain tc) ''tls_certificate.certificate_chain'' of
             Inl err \<Rightarrow> Inl err
           | Inr chain \<Rightarrow>
               (case data_source_to_string fs (private_key tc) ''tls_certificate.private_key'' of
                  Inl err \<Rightarrow> Inl err
                | Inr key \<Rightarrow> Inr (chain, key))))"

type_synonym secret_decoder = "bytes \<Rightarrow> secret option"

fun sotw_scan :: "secret_decoder \<Rightarrow> files \<Rightarrow> discovery_response \<Rightarrow> string \<Rightarrow> any_message list \<Rightarrow>
    sds_error + sds_certificate option" where
  "sotw_scan dec fs rs rname [] = Inr None"
| "sotw_scan dec fs rs rname (r # rest) =
     (if any_type_url r \<noteq> SECRET_TYPE_URL then sotw_scan dec fs rs rname rest
      else case dec (any_value r) of
        None \<Rightarrow> Inl BadSecret
      | Some sec \<Rightarrow>
          if secret_name sec \<noteq> rname then sotw_scan dec fs rs rname rest
          else (case extract_certificate_from_secret fs sec of
                  Inl err \<Rightarrow> Inl err
                | Inr (chain, key) \<Rightarrow>
                    Inr (Some \<lparr>cert_pem = chain, key_pem = key, version_info = rs_version_info rs, cert_nonce = rs_nonce rs\<rparr>)))"

definition try_extract_sotw :: "secret_decoder \<Rightarrow> files \<Rightarrow> discovery_response \<Rightarrow> string \<Rightarrow>
    sds_error + sds_certificate option" where
  "try_extract_sotw dec fs rs rname =
     (if rs_type_url rs \<noteq> SECRET_TYPE_URL then Inl (UnexpectedTypeUrl (rs_type_url rs))
      else sotw_scan dec fs rs rname (rs_resources rs))"

fun delta_scan :: "secret_decoder \<Rightarrow> files \<Rightarrow> delta_response \<Rightarrow> string \<Rightarrow> delta_resource list \<Rightarrow>
    sds_error + sds_certificate option" where
  "delta_scan dec fs rs rname [] = Inr None"
| "delta_scan dec fs rs rname (r # rest) =
     (case dr_resource r of
        None \<Rightarrow> delta_scan dec fs rs rname rest
      | Some a \<Rightarrow>
          if any_type_url a \<noteq> SECRET_TYPE_URL then delta_scan dec fs rs rname rest
          else case dec (any_value a) of
            None \<Rightarrow> Inl BadSecret
          | Some sec \<Rightarrow>
              if dr_name r \<noteq> rname \<and> secret_name sec \<noteq> rname then delta_scan dec fs rs rname rest
              else (case extract_certificate_from_secret fs sec of
                      Inl err \<Rightarrow> Inl err
                    | Inr (chain, key) \<Rightarrow>
                        Inr (Some \<lparr>cert_pem = chain, key_pem = key,
                          version_info = (if dr_version r = [] then ds_system_version rs else dr_version r),
                          cert_nonce = ds_nonce rs\<rparr>)))"

definition try_extract_delta :: "secret_decoder \<Rightarrow> files \<Rightarrow> delta_response \<Rightarrow> string \<Rightarrow>
    sds_error + sds_certificate option" where
  "try_extract_delta dec fs rs rname =
     (if ds_type_url rs \<noteq> SECRET_TYPE_URL then Inl (UnexpectedTypeUrl (ds_type_url rs))
      else if rname \<in> set (ds_removed rs) then Inr None
      else delta_scan dec fs rs rname (ds_resources rs))"

section \<open>Streams\<close>

text \<open>
  What happens on an open stream, in order: a response arrives, with whether the answer to it can be
  sent; the stream fails; the time runs out (the wait of the fetch, the deadline of the endpoint). A list that ends is a stream the server closed.
\<close>

datatype 'r stream_event = Response 'r bool | Failure | Timeout

fun fetch_loop :: "('r \<Rightarrow> sds_error + sds_certificate option) \<Rightarrow> ('r \<Rightarrow> 'q) \<Rightarrow> 'r stream_event list \<Rightarrow>
    (sds_error + sds_certificate) \<times> 'q list" where
  "fetch_loop take_cert ack [] = (Inl StreamClosed, [])"
| "fetch_loop take_cert ack (Failure # evs) = (Inl StreamFailed, [])"
| "fetch_loop take_cert ack (Timeout # evs) = (Inl TimedOut, [])"
| "fetch_loop take_cert ack (Response r sends # evs) =
     (case take_cert r of
        Inl err \<Rightarrow> (Inl err, [])
      | Inr (Some cert) \<Rightarrow> (Inr cert, [])
      | Inr None \<Rightarrow>
          if \<not> sends then (Inl SendFailed, [])
          else (case fetch_loop take_cert ack evs of (res, qs) \<Rightarrow> (res, ack r # qs)))"

text \<open>One connection of the watcher: every certificate goes to \<open>on_update\<close>, every response is
  answered. It ends with an error and the state that the updates left.\<close>

fun watch_loop :: "('r \<Rightarrow> sds_error + sds_certificate option) \<Rightarrow> ('r \<Rightarrow> 'q) \<Rightarrow>
    (sds_certificate \<Rightarrow> 'st \<Rightarrow> bool \<times> 'st) \<Rightarrow> 'r stream_event list \<Rightarrow> 'st \<Rightarrow> sds_error \<times> 'q list \<times> 'st" where
  "watch_loop take_cert ack upd [] st = (StreamClosed, [], st)"
| "watch_loop take_cert ack upd (Failure # evs) st = (StreamFailed, [], st)"
| "watch_loop take_cert ack upd (Timeout # evs) st = (TimedOut, [], st)"
| "watch_loop take_cert ack upd (Response r sends # evs) st =
     (case take_cert r of
        Inl err \<Rightarrow> (err, [], st)
      | Inr c \<Rightarrow>
          (case (case c of Some cert \<Rightarrow> upd cert st | None \<Rightarrow> (True, st)) of (ok, st1) \<Rightarrow>
             if \<not> ok then (UpdateFailed, [], st1)
             else if \<not> sends then (SendFailed, [], st1)
             else (case watch_loop take_cert ack upd evs st1 of (err, qs, st2) \<Rightarrow> (err, ack r # qs, st2))))"

definition fetch_sotw :: "secret_decoder \<Rightarrow> files \<Rightarrow> subscription \<Rightarrow> discovery_response stream_event list \<Rightarrow>
    (sds_error + sds_certificate) \<times> discovery_request list" where
  "fetch_sotw dec fs sub evs =
     (case fetch_loop (\<lambda>r. try_extract_sotw dec fs r (resource_name sub)) (ack_sotw_request sub) evs of
        (res, qs) \<Rightarrow> (res, initial_sotw_request sub # qs))"

definition fetch_delta :: "secret_decoder \<Rightarrow> files \<Rightarrow> subscription \<Rightarrow> delta_response stream_event list \<Rightarrow>
    (sds_error + sds_certificate) \<times> delta_request list" where
  "fetch_delta dec fs sub evs =
     (case fetch_loop (\<lambda>r. try_extract_delta dec fs r (resource_name sub)) (ack_delta_request sub) evs of
        (res, qs) \<Rightarrow> (res, initial_delta_request sub # qs))"

definition watch_sotw_once :: "secret_decoder \<Rightarrow> files \<Rightarrow> subscription \<Rightarrow>
    (sds_certificate \<Rightarrow> 'st \<Rightarrow> bool \<times> 'st) \<Rightarrow> discovery_response stream_event list \<Rightarrow> 'st \<Rightarrow>
    sds_error \<times> discovery_request list \<times> 'st" where
  "watch_sotw_once dec fs sub upd evs st =
     (case watch_loop (\<lambda>r. try_extract_sotw dec fs r (resource_name sub)) (ack_sotw_request sub) upd evs st of
        (err, qs, st') \<Rightarrow> (err, initial_sotw_request sub # qs, st'))"

definition watch_delta_once :: "secret_decoder \<Rightarrow> files \<Rightarrow> subscription \<Rightarrow>
    (sds_certificate \<Rightarrow> 'st \<Rightarrow> bool \<times> 'st) \<Rightarrow> delta_response stream_event list \<Rightarrow> 'st \<Rightarrow>
    sds_error \<times> delta_request list \<times> 'st" where
  "watch_delta_once dec fs sub upd evs st =
     (case watch_loop (\<lambda>r. try_extract_delta dec fs r (resource_name sub)) (ack_delta_request sub) upd evs st of
        (err, qs, st') \<Rightarrow> (err, initial_delta_request sub # qs, st'))"

text \<open>A connection attempt: it may fail before the stream opens.\<close>

datatype connection =
    ConnectFails
  | SotwStream "discovery_response stream_event list"
  | DeltaStream "delta_response stream_event list"

fun fetch_update :: "secret_decoder \<Rightarrow> files \<Rightarrow> subscription \<Rightarrow> connection \<Rightarrow> sds_error + sds_certificate" where
  "fetch_update dec fs sub ConnectFails = Inl StreamFailed"
| "fetch_update dec fs sub (SotwStream evs) =
     (if is_delta (api sub) then Inl StreamFailed else fst (fetch_sotw dec fs sub evs))"
| "fetch_update dec fs sub (DeltaStream evs) =
     (if is_delta (api sub) then fst (fetch_delta dec fs sub evs) else Inl StreamFailed)"

definition fetch_sds_certificate :: "secret_decoder \<Rightarrow> string option \<Rightarrow> files \<Rightarrow> certificate_config \<Rightarrow> connection \<Rightarrow>
    sds_error + string \<times> string" where
  "fetch_sds_certificate dec hostname fs cc con =
     (case subscription_from_config hostname fs cc of
        Inl err \<Rightarrow> Inl err
      | Inr sub \<Rightarrow>
          (case fetch_update dec fs sub con of Inl err \<Rightarrow> Inl err | Inr cert \<Rightarrow> Inr (cert_pem cert, key_pem cert)))"

text \<open>The watcher reconnects for ever: its state after any number of connections.\<close>

fun watch_connection :: "secret_decoder \<Rightarrow> files \<Rightarrow> subscription \<Rightarrow> (sds_certificate \<Rightarrow> 'st \<Rightarrow> bool \<times> 'st) \<Rightarrow>
    connection \<Rightarrow> 'st \<Rightarrow> 'st" where
  "watch_connection dec fs sub upd ConnectFails st = st"
| "watch_connection dec fs sub upd (SotwStream evs) st =
     (if is_delta (api sub) then st else snd (snd (watch_sotw_once dec fs sub upd evs st)))"
| "watch_connection dec fs sub upd (DeltaStream evs) st =
     (if is_delta (api sub) then snd (snd (watch_delta_once dec fs sub upd evs st)) else st)"

definition watch_sds_certificates :: "secret_decoder \<Rightarrow> files \<Rightarrow> subscription \<Rightarrow>
    (sds_certificate \<Rightarrow> 'st \<Rightarrow> bool \<times> 'st) \<Rightarrow> connection list \<Rightarrow> 'st \<Rightarrow> 'st" where
  "watch_sds_certificates dec fs sub upd cons st = fold (watch_connection dec fs sub upd) cons st"

section \<open>Where certificates come from\<close>

text \<open>A response carries a certificate for a resource when it has the type of Secrets and contains a
  Secret of that name, of that type, whose two data sources are readable.\<close>

definition carries_sotw :: "secret_decoder \<Rightarrow> files \<Rightarrow> string \<Rightarrow> discovery_response \<Rightarrow> sds_certificate \<Rightarrow> bool" where
  "carries_sotw dec fs rname rs cert \<longleftrightarrow> rs_type_url rs = SECRET_TYPE_URL \<and>
     version_info cert = rs_version_info rs \<and> cert_nonce cert = rs_nonce rs \<and>
     (\<exists>a\<in>set (rs_resources rs). \<exists>sec. any_type_url a = SECRET_TYPE_URL \<and> dec (any_value a) = Some sec \<and>
        secret_name sec = rname \<and> extract_certificate_from_secret fs sec = Inr (cert_pem cert, key_pem cert))"

text \<open>A delta response names its resources as well, and must not remove the one that is asked for.\<close>

definition carries_delta :: "secret_decoder \<Rightarrow> files \<Rightarrow> string \<Rightarrow> delta_response \<Rightarrow> sds_certificate \<Rightarrow> bool" where
  "carries_delta dec fs rname rs cert \<longleftrightarrow> ds_type_url rs = SECRET_TYPE_URL \<and> rname \<notin> set (ds_removed rs) \<and>
     cert_nonce cert = ds_nonce rs \<and>
     (\<exists>r\<in>set (ds_resources rs). \<exists>a sec. dr_resource r = Some a \<and> any_type_url a = SECRET_TYPE_URL \<and>
        dec (any_value a) = Some sec \<and> (dr_name r = rname \<or> secret_name sec = rname) \<and>
        extract_certificate_from_secret fs sec = Inr (cert_pem cert, key_pem cert))"

fun carried :: "secret_decoder \<Rightarrow> files \<Rightarrow> subscription \<Rightarrow> connection \<Rightarrow> sds_certificate \<Rightarrow> bool" where
  "carried dec fs sub ConnectFails cert = False"
| "carried dec fs sub (SotwStream evs) cert =
     (\<not> is_delta (api sub) \<and> (\<exists>r b. Response r b \<in> set evs \<and> carries_sotw dec fs (resource_name sub) r cert))"
| "carried dec fs sub (DeltaStream evs) cert =
     (is_delta (api sub) \<and> (\<exists>r b. Response r b \<in> set evs \<and> carries_delta dec fs (resource_name sub) r cert))"

lemma sotw_scan_sound:
  "sotw_scan dec fs rs rname msgs = Inr (Some cert) \<Longrightarrow>
   version_info cert = rs_version_info rs \<and> cert_nonce cert = rs_nonce rs \<and>
   (\<exists>a\<in>set msgs. \<exists>sec. any_type_url a = SECRET_TYPE_URL \<and> dec (any_value a) = Some sec \<and>
      secret_name sec = rname \<and> extract_certificate_from_secret fs sec = Inr (cert_pem cert, key_pem cert))"
  by (induction msgs) (auto split: if_splits option.splits sum.splits)

lemma delta_scan_sound:
  "delta_scan dec fs rs rname msgs = Inr (Some cert) \<Longrightarrow> cert_nonce cert = ds_nonce rs \<and>
   (\<exists>r\<in>set msgs. \<exists>a sec. dr_resource r = Some a \<and> any_type_url a = SECRET_TYPE_URL \<and> dec (any_value a) = Some sec \<and>
     (dr_name r = rname \<or> secret_name sec = rname) \<and>
     extract_certificate_from_secret fs sec = Inr (cert_pem cert, key_pem cert))"
  by (induction msgs) (auto split: if_splits option.splits sum.splits)

lemma try_extract_sotw_sound: "try_extract_sotw dec fs rs rname = Inr (Some cert) \<Longrightarrow> carries_sotw dec fs rname rs cert"
  using sotw_scan_sound [of dec fs rs rname "rs_resources rs" cert]
  unfolding try_extract_sotw_def carries_sotw_def by (simp split: if_splits)

lemma try_extract_delta_sound: "try_extract_delta dec fs rs rname = Inr (Some cert) \<Longrightarrow> carries_delta dec fs rname rs cert"
  using delta_scan_sound [of dec fs rs rname "ds_resources rs" cert]
  unfolding try_extract_delta_def carries_delta_def by (simp split: if_splits)

section \<open>The loops\<close>

text \<open>A fetch ends at the first response with a certificate; it has answered exactly the ones before.\<close>

lemma fetch_loop_Inr:
  "fetch_loop take_cert ack evs = (Inr cert, qs) \<Longrightarrow>
   \<exists>rs r b post. evs = map (\<lambda>r. Response r True) rs @ Response r b # post \<and> take_cert r = Inr (Some cert) \<and>
     (\<forall>r'\<in>set rs. take_cert r' = Inr None) \<and> qs = map ack rs"
proof (induction take_cert ack evs arbitrary: qs rule: fetch_loop.induct)
  case (4 take_cert ack r sends evs)
  show ?case
  proof (cases "take_cert r")
    case (Inr c)
    show ?thesis
    proof (cases c)
      case None
      then obtain qs' where q: "fetch_loop take_cert ack evs = (Inr cert, qs')" "qs = ack r # qs'" sends
        using 4(2) Inr by (auto split: if_splits prod.splits)
      obtain rs r0 b post where rs: "evs = map (\<lambda>r. Response r True) rs @ Response r0 b # post"
          "take_cert r0 = Inr (Some cert)" "\<forall>r'\<in>set rs. take_cert r' = Inr None" "qs' = map ack rs"
        using 4(1) [OF Inr None _ q(1)] q(3) by blast
      then have "Response r sends # evs = map (\<lambda>r. Response r True) (r # rs) @ Response r0 b # post" using q(3) by simp
      then show ?thesis using rs q(2) Inr None by (metis list.simps(9) set_ConsD)
    next
      case (Some c')
      then have "Response r sends # evs = map (\<lambda>r. Response r True) [] @ Response r sends # evs"
          "take_cert r = Inr (Some cert)" "qs = map ack []"
        using 4(2) Inr by auto
      then show ?thesis by (metis empty_iff empty_set)
    qed
  qed (use 4(2) in simp)
qed simp_all

lemma fetch_update_carried:
  assumes "fetch_update dec fs sub con = Inr cert"
  shows "carried dec fs sub con cert"
proof (cases con)
  case (SotwStream evs)
  then obtain qs where "\<not> is_delta (api sub)"
      "fetch_loop (\<lambda>r. try_extract_sotw dec fs r (resource_name sub)) (ack_sotw_request sub) evs = (Inr cert, qs)"
    using assms by (auto simp: fetch_sotw_def split: if_splits prod.splits)
  moreover from fetch_loop_Inr [OF this(2)] obtain r b where "Response r b \<in> set evs"
      "try_extract_sotw dec fs r (resource_name sub) = Inr (Some cert)" by (metis in_set_conv_decomp)
  ultimately show ?thesis using SotwStream try_extract_sotw_sound by auto
next
  case (DeltaStream evs)
  then obtain qs where "is_delta (api sub)"
      "fetch_loop (\<lambda>r. try_extract_delta dec fs r (resource_name sub)) (ack_delta_request sub) evs = (Inr cert, qs)"
    using assms by (auto simp: fetch_delta_def split: if_splits prod.splits)
  moreover from fetch_loop_Inr [OF this(2)] obtain r b where "Response r b \<in> set evs"
      "try_extract_delta dec fs r (resource_name sub) = Inr (Some cert)" by (metis in_set_conv_decomp)
  ultimately show ?thesis using DeltaStream try_extract_delta_sound by auto
qed (use assms in simp)

text \<open>An invariant of the updates is an invariant of the watcher.\<close>

lemma watch_loop_inv:
  assumes "\<And>r b cert st ok st'. Response r b \<in> set evs \<Longrightarrow> take_cert r = Inr (Some cert) \<Longrightarrow> P st \<Longrightarrow>
      upd cert st = (ok, st') \<Longrightarrow> P st'"
    and "P st"
  shows "P (snd (snd (watch_loop take_cert ack upd evs st)))"
  using assms
proof (induction take_cert ack upd evs st rule: watch_loop.induct)
  case (4 take_cert ack upd r sends evs st)
  show ?case
  proof (cases "take_cert r")
    case (Inr c)
    obtain ok st1 where st1: "(case c of Some cert \<Rightarrow> upd cert st | None \<Rightarrow> (True, st)) = (ok, st1)" by fastforce
    have P1: "P st1"
    proof (cases c)
      case (Some cert)
      then show ?thesis using st1 Inr 4(2) [of r sends cert st ok st1] 4(3) by simp
    qed (use st1 4(3) in simp)
    show ?thesis
    proof (cases "ok \<and> sends")
      case True
      then have "P (snd (snd (watch_loop take_cert ack upd evs st1)))"
        using 4(1) [OF Inr st1 [symmetric]] P1 4(2) by (meson list.set_intros(2))
      then show ?thesis
        using Inr st1 True by (cases "watch_loop take_cert ack upd evs st1") simp
    qed (use Inr st1 P1 in auto)
  qed (use 4(3) in simp)
qed simp_all

lemma watch_inv:
  assumes "\<And>con cert st ok st'. con \<in> set cons \<Longrightarrow> carried dec fs sub con cert \<Longrightarrow> P st \<Longrightarrow>
      upd cert st = (ok, st') \<Longrightarrow> P st'"
    and "P st"
  shows "P (watch_sds_certificates dec fs sub upd cons st)"
proof -
  have step: "P (watch_connection dec fs sub upd con st)" if con: "con \<in> set cons" "P st" for con st
  proof (cases con)
    case (SotwStream evs)
    have "P (snd (snd (watch_loop (\<lambda>r. try_extract_sotw dec fs r (resource_name sub)) (ack_sotw_request sub) upd evs st)))"
      if delta: "\<not> is_delta (api sub)"
    proof (rule watch_loop_inv [where P = P, of evs])
      fix r b cert st ok st'
      assume r: "Response r b \<in> set evs" "try_extract_sotw dec fs r (resource_name sub) = Inr (Some cert)"
        and upd: "P st" "upd cert st = (ok, st')"
      have "carried dec fs sub con cert"
        using r(1) try_extract_sotw_sound [OF r(2)] delta SotwStream by auto
      then show "P st'" using assms(1) [OF con(1) _ upd] by blast
    qed (rule con(2))
    then show ?thesis using SotwStream con(2) by (auto simp: watch_sotw_once_def split: prod.splits)
  next
    case (DeltaStream evs)
    have "P (snd (snd (watch_loop (\<lambda>r. try_extract_delta dec fs r (resource_name sub)) (ack_delta_request sub) upd evs st)))"
      if delta: "is_delta (api sub)"
    proof (rule watch_loop_inv [where P = P, of evs])
      fix r b cert st ok st'
      assume r: "Response r b \<in> set evs" "try_extract_delta dec fs r (resource_name sub) = Inr (Some cert)"
        and upd: "P st" "upd cert st = (ok, st')"
      have "carried dec fs sub con cert"
        using r(1) try_extract_delta_sound [OF r(2)] delta DeltaStream by auto
      then show "P st'" using assms(1) [OF con(1) _ upd] by blast
    qed (rule con(2))
    then show ?thesis using DeltaStream con(2) by (auto simp: watch_delta_once_def split: prod.splits)
  qed (use con in simp)
  have "set cs \<subseteq> set cons \<Longrightarrow> P st \<Longrightarrow> P (fold (watch_connection dec fs sub upd) cs st)" for cs st
    by (induction cs arbitrary: st) (auto intro: step)
  then show ?thesis using assms(2) by (simp add: watch_sds_certificates_def)
qed

end
