(* ===== verification/Certificates.thy ===== *)
theory Certificates
  imports Sds_Client
begin

text \<open>
  Certificates, \<open>src/tls.rs\<close>: reading PEM chains and keys, where a certificate comes from (local
  files, an ACME order, the SDS client), its cache, and the resolver that serves the current one
  while a watcher replaces it. PEM, DER, X.509 and key handling are third-party crates: the
  record \<open>pki\<close> is a parameter. The outcome of the ACME order is a parameter too; the loop
  over its authorisations is modelled.
\<close>

section \<open>Data\<close>

datatype private_key_kind = Pkcs1 | Pkcs8 | Sec1

record pki =
  pem_parse_many :: "bytes \<Rightarrow> (string \<times> bytes) list option"  \<comment> \<open>tag and contents of each block\<close>
  key_kind_of :: "bytes \<Rightarrow> private_key_kind option"  \<comment> \<open>\<open>PrivateKeyDer::try_from\<close>\<close>
  accepts_key :: "bytes list \<Rightarrow> bytes \<Rightarrow> private_key_kind \<Rightarrow> bool"  \<comment> \<open>\<open>CertifiedKey::from_der\<close>\<close>
  x509_not_after :: "bytes \<Rightarrow> int option"
  sec1_to_pkcs8 :: "bytes \<Rightarrow> bytes option"
  pem_encode :: "string \<Rightarrow> bytes \<Rightarrow> string"
  dtls_key_is_rsa :: "string \<Rightarrow> bool option"  \<comment> \<open>\<open>Certificate::from_pem\<close> of the DTLS crate\<close>

record tls_config =
  cert_der :: bytes
  cert_chain_der :: "bytes list"
  key_der :: bytes
  key_kind :: private_key_kind

datatype tls_error =
    BadPem
  | NoCertificateBlocks
  | NoPrivateKey
  | NoDtlsPrivateKey
  | KeyRejected
  | CertSettingMissing string
  | UnsupportedSource string
  | UnsupportedEnvironment string
  | NoDomains
  | BadX509
  | CertFileError
  | AcmeError
  | SdsUnavailable string sds_error
  | DtlsRejected
  | DtlsRsaKey

section \<open>PEM\<close>

definition parse_certificate_chain :: "pki \<Rightarrow> bytes \<Rightarrow> tls_error + bytes list" where
  "parse_certificate_chain k pem =
     (case pem_parse_many k pem of
        None \<Rightarrow> Inl BadPem
      | Some blocks \<Rightarrow>
          (let certs = map snd (filter (\<lambda>(tag, _). tag = ''CERTIFICATE'') blocks)
           in if certs = [] then Inl NoCertificateBlocks else Inr certs))"

fun first_key :: "pki \<Rightarrow> (string \<times> bytes) list \<Rightarrow> tls_error + bytes \<times> private_key_kind" where
  "first_key k [] = Inl NoPrivateKey"
| "first_key k ((tag, der) # blocks) =
     (case key_kind_of k der of Some kind \<Rightarrow> Inr (der, kind) | None \<Rightarrow> first_key k blocks)"

definition parse_private_key :: "pki \<Rightarrow> bytes \<Rightarrow> tls_error + bytes \<times> private_key_kind" where
  "parse_private_key k pem = (case pem_parse_many k pem of None \<Rightarrow> Inl BadPem | Some blocks \<Rightarrow> first_key k blocks)"

definition tls_from_pem :: "pki \<Rightarrow> string \<Rightarrow> string \<Rightarrow> tls_error + tls_config" where
  "tls_from_pem k cert key =
     (case parse_certificate_chain k (as_bytes cert) of
        Inl err \<Rightarrow> Inl err
      | Inr chain \<Rightarrow>
          (case parse_private_key k (as_bytes key) of
             Inl err \<Rightarrow> Inl err
           | Inr (der, kind) \<Rightarrow>
               (case chain of
                  [] \<Rightarrow> Inl NoCertificateBlocks
                | leaf # _ \<Rightarrow> Inr \<lparr>cert_der = leaf, cert_chain_der = chain, key_der = der, key_kind = kind\<rparr>)))"

text \<open>A certified key is the configuration it was made from.\<close>

definition into_certified_key :: "pki \<Rightarrow> tls_config \<Rightarrow> tls_error + tls_config" where
  "into_certified_key k cfg =
     (if accepts_key k (cert_chain_der cfg) (key_der cfg) (key_kind cfg) then Inr cfg else Inl KeyRejected)"

definition certified_from_pem :: "pki \<Rightarrow> string \<Rightarrow> string \<Rightarrow> tls_error + tls_config" where
  "certified_from_pem k cert key =
     (case tls_from_pem k cert key of Inl err \<Rightarrow> Inl err | Inr cfg \<Rightarrow> into_certified_key k cfg)"

section \<open>DTLS keys\<close>

definition dtls_key_of_block :: "pki \<Rightarrow> bytes \<Rightarrow> bytes option" where
  "dtls_key_of_block k der = (if key_kind_of k der = Some Pkcs8 then Some der else sec1_to_pkcs8 k der)"

fun first_dtls_key :: "pki \<Rightarrow> (string \<times> bytes) list \<Rightarrow> tls_error + string" where
  "first_dtls_key k [] = Inl NoDtlsPrivateKey"
| "first_dtls_key k ((tag, der) # blocks) =
     (case dtls_key_of_block k der of
        Some d \<Rightarrow> Inr (pem_encode k ''PRIVATE_KEY'' d)
      | None \<Rightarrow> first_dtls_key k blocks)"

definition normalize_dtls_private_key_pem :: "pki \<Rightarrow> bytes \<Rightarrow> tls_error + string" where
  "normalize_dtls_private_key_pem k pem =
     (case pem_parse_many k pem of None \<Rightarrow> Inl BadPem | Some blocks \<Rightarrow> first_dtls_key k blocks)"

definition dtls_certificate_from_pem :: "pki \<Rightarrow> string \<Rightarrow> string \<Rightarrow> tls_error + string" where
  "dtls_certificate_from_pem k cert key =
     (case normalize_dtls_private_key_pem k (as_bytes key) of
        Inl err \<Rightarrow> Inl err
      | Inr key' \<Rightarrow>
          (let pem = trim key' @ CHR 0x0A # trim cert in
           case dtls_key_is_rsa k pem of
             None \<Rightarrow> Inl DtlsRejected
           | Some rsa \<Rightarrow> if rsa then Inl DtlsRsaKey else Inr pem))"

section \<open>The cache\<close>

text \<open>One output character per Unicode character: the continuation bytes of UTF-8 are dropped.\<close>

definition sanitize_filename :: "string \<Rightarrow> string" where
  "sanitize_filename s =
     map (\<lambda>c. let n = (of_char c :: nat) in
       if 48 \<le> n \<and> n \<le> 57 \<or> 65 \<le> n \<and> n \<le> 90 \<or> 97 \<le> n \<and> n \<le> 122 \<or> c = CHR ''.'' \<or> c = CHR ''-'' then c else CHR ''_'')
       (filter (\<lambda>c. \<not> (128 \<le> (of_char c :: nat) \<and> (of_char c :: nat) < 192)) s)"

definition cache_prefix :: "string \<Rightarrow> string list \<Rightarrow> string" where
  "cache_prefix env doms = ''letsencrypt-'' @ env @ ''-'' @ join_with ''-'' (map sanitize_filename doms)"

text \<open>\<open>Path::join\<close> with a relative name.\<close>

definition path_join :: "string \<Rightarrow> string \<Rightarrow> string" where
  "path_join dir name = (if dir = [] \<or> last dir = CHR ''/'' then dir @ name else dir @ CHR ''/'' # name)"

definition cache_dir_of :: "certificate_config \<Rightarrow> string" where
  "cache_dir_of cc = (case cache_dir cc of Some d \<Rightarrow> d | None \<Rightarrow> ''./cert-cache'')"

definition renew_days_of :: "certificate_config \<Rightarrow> u64" where
  "renew_days_of cc = (case renew_before_days cc of Some n \<Rightarrow> n | None \<Rightarrow> 30)"

definition cache_paths :: "certificate_config \<Rightarrow> string \<Rightarrow> string list \<Rightarrow> string \<times> string" where
  "cache_paths cc env doms =
     (path_join (cache_dir_of cc) (cache_prefix env doms @ ''.fullchain.pem''),
      path_join (cache_dir_of cc) (cache_prefix env doms @ ''.privkey.pem''))"

text \<open>\<open>dir_ok\<close>: whether the cache directory could be created.\<close>

definition sds_cache_paths :: "bool \<Rightarrow> certificate_config \<Rightarrow> tls_error + string \<times> string \<times> string \<times> u64" where
  "sds_cache_paths dir_ok cc =
     (case sds_resource_name cc of
        None \<Rightarrow> Inl (CertSettingMissing ''certificates.sds_resource_name'')
      | Some rname \<Rightarrow>
          if \<not> dir_ok then Inl CertFileError
          else case cache_paths cc ''sds'' [rname] of (cp, kp) \<Rightarrow> Inr (rname, cp, kp, renew_days_of cc))"

definition write_cached_certificate ::
  "write_outcome \<Rightarrow> write_outcome \<Rightarrow> string \<Rightarrow> string \<Rightarrow> string \<Rightarrow> string \<Rightarrow> files \<Rightarrow> bool \<times> files" where
  "write_cached_certificate w1 w2 cp kp cert key fs =
     (case fs_write w1 cp cert fs of
        (False, fs1) \<Rightarrow> (False, fs1)
      | (True, fs1) \<Rightarrow> fs_write w2 kp key fs1)"

text \<open>\<open>i64::saturating_sub\<close>\<close>

definition sat_sub_i64 :: "int \<Rightarrow> int \<Rightarrow> int" where
  "sat_sub_i64 a b = max (- (2 ^ 63)) (min (2 ^ 63 - 1) (a - b))"

text \<open>\<open>t\<close> is the clock in seconds since the epoch; it and the renewal time are cast to \<open>i64\<close>.\<close>

definition cached_certificate_is_usable :: "pki \<Rightarrow> u64 \<Rightarrow> files \<Rightarrow> string \<Rightarrow> string \<Rightarrow> u64 \<Rightarrow> tls_error + bool" where
  "cached_certificate_is_usable k t fs cp kp days =
     (if fs cp = None \<or> fs kp = None then Inr False
      else case parse_certificate_chain k (as_bytes (the (fs cp))) of
        Inl err \<Rightarrow> Inl err
      | Inr certs \<Rightarrow>
          (case x509_not_after k (certs ! 0) of
             None \<Rightarrow> Inl BadX509
           | Some not_after \<Rightarrow>
               Inr (sint t < sat_sub_i64 not_after (sint (sat_mul_u64 days (24 * 60 * 60))))))"

definition read_pair :: "files \<Rightarrow> string \<Rightarrow> string \<Rightarrow> tls_error + string \<times> string" where
  "read_pair fs cp kp =
     (case read_to_string cp fs of
        None \<Rightarrow> Inl CertFileError
      | Some cert \<Rightarrow> (case read_to_string kp fs of None \<Rightarrow> Inl CertFileError | Some key \<Rightarrow> Inr (cert, key)))"

section \<open>Sources\<close>

text \<open>What the runtime decides while a certificate is loaded.\<close>

record cert_env =
  ce_secs :: u64
  ce_dir_ok :: bool
  ce_hostname :: "string option"
  ce_write1 :: write_outcome
  ce_write2 :: write_outcome
  ce_connection :: connection
  ce_acme :: "(string \<times> string) option"  \<comment> \<open>private key and chain of a completed order\<close>
  ce_self_signed_ok :: bool

text \<open>The directory is named by the ACME crate; only the choice is the program's.\<close>

definition letsencrypt_environment :: "string \<Rightarrow> tls_error + bool" where
  "letsencrypt_environment env =
     (if env = ''production'' then Inr True
      else if env = ''staging'' then Inr False
      else Inl (UnsupportedEnvironment env))"

definition provision_letsencrypt :: "pki \<Rightarrow> cert_env \<Rightarrow> certificate_config \<Rightarrow> files \<Rightarrow>
    (tls_error + string \<times> string) \<times> files" where
  "provision_letsencrypt k ce cc fs =
     (if domains cc = [] then (Inl NoDomains, fs)
      else let env = (case environment cc of Some e \<Rightarrow> e | None \<Rightarrow> ''staging'') in
        if \<not> ce_dir_ok ce then (Inl CertFileError, fs)
        else case cache_paths cc env (domains cc) of (cp, kp) \<Rightarrow>
          (case cached_certificate_is_usable k (ce_secs ce) fs cp kp (renew_days_of cc) of
             Inl err \<Rightarrow> (Inl err, fs)
           | Inr True \<Rightarrow> (read_pair fs cp kp, fs)
           | Inr False \<Rightarrow>
               (case letsencrypt_environment env of
                  Inl err \<Rightarrow> (Inl err, fs)
                | Inr _ \<Rightarrow>
                    (case ce_acme ce of
                       None \<Rightarrow> (Inl AcmeError, fs)
                     | Some (key, chain) \<Rightarrow>
                         (case write_cached_certificate (ce_write1 ce) (ce_write2 ce) cp kp chain key fs of
                            (ok, fs') \<Rightarrow> (if ok then Inr (chain, key) else Inl CertFileError, fs'))))))"

definition load_sds_certificate :: "pki \<Rightarrow> secret_decoder \<Rightarrow> cert_env \<Rightarrow> certificate_config \<Rightarrow> files \<Rightarrow>
    (tls_error + string \<times> string) \<times> files" where
  "load_sds_certificate k dec ce cc fs =
     (case sds_cache_paths (ce_dir_ok ce) cc of
        Inl err \<Rightarrow> (Inl err, fs)
      | Inr (rname, cp, kp, days) \<Rightarrow>
          (case fetch_sds_certificate dec (ce_hostname ce) fs cc (ce_connection ce) of
             Inr (cert, key) \<Rightarrow>
               (case tls_from_pem k cert key of
                  Inl err \<Rightarrow> (Inl err, fs)
                | Inr _ \<Rightarrow>
                    (case write_cached_certificate (ce_write1 ce) (ce_write2 ce) cp kp cert key fs of
                       (ok, fs') \<Rightarrow> (if ok then Inr (cert, key) else Inl CertFileError, fs')))
           | Inl err \<Rightarrow>
               (case cached_certificate_is_usable k (ce_secs ce) fs cp kp days of
                  Inl err' \<Rightarrow> (Inl err', fs)
                | Inr True \<Rightarrow> (read_pair fs cp kp, fs)
                | Inr False \<Rightarrow> (Inl (SdsUnavailable rname err), fs))))"

definition load_certificate_pem :: "pki \<Rightarrow> secret_decoder \<Rightarrow> cert_env \<Rightarrow> certificate_config \<Rightarrow> files \<Rightarrow>
    (tls_error + string \<times> string) \<times> files" where
  "load_certificate_pem k dec ce cc fs =
     (if source cc = ''local'' then
        (case cert_path cc of
           None \<Rightarrow> (Inl (CertSettingMissing ''certificates.cert_path''), fs)
         | Some cp \<Rightarrow>
             (case key_path cc of
                None \<Rightarrow> (Inl (CertSettingMissing ''certificates.key_path''), fs)
              | Some kp \<Rightarrow> (read_pair fs cp kp, fs)))
      else if source cc = ''letsencrypt'' then provision_letsencrypt k ce cc fs
      else if source cc = ''sds'' then load_sds_certificate k dec ce cc fs
      else (Inl (UnsupportedSource (source cc)), fs))"

definition default_self_signed_domains :: "certificate_config \<Rightarrow> string list" where
  "default_self_signed_domains cc = (if domains cc = [] then [''localhost''] else domains cc)"

section \<open>Watchers and the resolver\<close>

text \<open>The served key of \<open>DynamicCertResolver\<close>, the files, and the registry of watchers.\<close>

record cert_state =
  served :: tls_config
  cert_files :: files

definition update_from_pem :: "pki \<Rightarrow> string \<Rightarrow> string \<Rightarrow> cert_state \<Rightarrow> bool \<times> cert_state" where
  "update_from_pem k cert key st =
     (case certified_from_pem k cert key of Inl _ \<Rightarrow> (False, st) | Inr ck \<Rightarrow> (True, st\<lparr>served := ck\<rparr>))"

definition on_tls_update :: "pki \<Rightarrow> cert_env \<Rightarrow> string \<Rightarrow> string \<Rightarrow> sds_certificate \<Rightarrow> cert_state \<Rightarrow> bool \<times> cert_state" where
  "on_tls_update k ce cp kp cert st =
     (case update_from_pem k (cert_pem cert) (key_pem cert) st of
        (False, st1) \<Rightarrow> (False, st1)
      | (True, st1) \<Rightarrow>
          (case write_cached_certificate (ce_write1 ce) (ce_write2 ce) cp kp (cert_pem cert) (key_pem cert) (cert_files st1) of
             (ok, fs) \<Rightarrow> (ok, st1\<lparr>cert_files := fs\<rparr>)))"

definition on_cache_update :: "pki \<Rightarrow> cert_env \<Rightarrow> string \<Rightarrow> string \<Rightarrow> sds_certificate \<Rightarrow> cert_state \<Rightarrow> bool \<times> cert_state" where
  "on_cache_update k ce cp kp cert st =
     (case tls_from_pem k (cert_pem cert) (key_pem cert) of
        Inl _ \<Rightarrow> (False, st)
      | Inr _ \<Rightarrow>
          (case write_cached_certificate (ce_write1 ce) (ce_write2 ce) cp kp (cert_pem cert) (key_pem cert) (cert_files st) of
             (ok, fs) \<Rightarrow> (ok, st\<lparr>cert_files := fs\<rparr>)))"

definition sds_watcher_key :: "certificate_config \<Rightarrow> tls_error + string" where
  "sds_watcher_key cc =
     (case sds_address cc of
        None \<Rightarrow> Inl (CertSettingMissing ''certificates.sds_address'')
      | Some addr \<Rightarrow>
          (case sds_resource_name cc of
             None \<Rightarrow> Inl (CertSettingMissing ''certificates.sds_resource_name'')
           | Some rname \<Rightarrow> Inr (addr @ ''|'' @ rname)))"

definition register_sds_watcher :: "string \<Rightarrow> string set \<Rightarrow> bool \<times> string set" where
  "register_sds_watcher key ws = (key \<notin> ws, insert key ws)"

text \<open>The two \<open>start_sds_*_watcher\<close> functions: whether a watcher is spawned.\<close>

definition start_sds_watcher :: "bool \<Rightarrow> certificate_config \<Rightarrow> string set \<Rightarrow> (tls_error + bool) \<times> string set" where
  "start_sds_watcher dir_ok cc ws =
     (case sds_watcher_key cc of
        Inl err \<Rightarrow> (Inl err, ws)
      | Inr key \<Rightarrow>
          (case register_sds_watcher key ws of
             (False, ws') \<Rightarrow> (Inr False, ws')
           | (True, ws') \<Rightarrow>
               (case sds_cache_paths dir_ok cc of Inl err \<Rightarrow> (Inl err, ws') | Inr _ \<Rightarrow> (Inr True, ws'))))"

text \<open>Loading for TLS: the key that is served, the files, the registry.\<close>

definition load_certificate_config :: "pki \<Rightarrow> secret_decoder \<Rightarrow> cert_env \<Rightarrow> certificate_config \<Rightarrow> string set \<Rightarrow> files \<Rightarrow>
    (tls_error + tls_config) \<times> string set \<times> files" where
  "load_certificate_config k dec ce cc ws fs =
     (case (if source cc = ''sds'' then load_sds_certificate k dec ce cc fs else load_certificate_pem k dec ce cc fs) of
        (Inl err, fs') \<Rightarrow> (Inl err, ws, fs')
      | (Inr (cert, key), fs') \<Rightarrow>
          (case certified_from_pem k cert key of
             Inl err \<Rightarrow> (Inl err, ws, fs')
           | Inr ck \<Rightarrow>
               if source cc = ''sds'' then
                 (case start_sds_watcher (ce_dir_ok ce) cc ws of
                    (Inl err, ws') \<Rightarrow> (Inl err, ws', fs')
                  | (Inr _, ws') \<Rightarrow> (Inr ck, ws', fs'))
               else (Inr ck, ws, fs')))"

text \<open>Loading for DTLS falls back to a self-signed certificate for the configured domains.\<close>

datatype dtls_certificate = Configured string | SelfSigned "string list"

definition load_dtls_inner :: "pki \<Rightarrow> secret_decoder \<Rightarrow> cert_env \<Rightarrow> certificate_config \<Rightarrow> string set \<Rightarrow> files \<Rightarrow>
    (tls_error + dtls_certificate) \<times> string set \<times> files" where
  "load_dtls_inner k dec ce cc ws fs =
     (case load_certificate_pem k dec ce cc fs of
        (Inl err, fs') \<Rightarrow> (Inl err, ws, fs')
      | (Inr (cert, key), fs') \<Rightarrow>
          (case dtls_certificate_from_pem k cert key of
             Inl err \<Rightarrow> (Inl err, ws, fs')
           | Inr pem \<Rightarrow>
               if source cc = ''sds'' then
                 (case start_sds_watcher (ce_dir_ok ce) cc ws of
                    (Inl err, ws') \<Rightarrow> (Inl err, ws', fs')
                  | (Inr _, ws') \<Rightarrow> (Inr (Configured pem), ws', fs'))
               else (Inr (Configured pem), ws, fs')))"

definition load_dtls_certificate_config :: "pki \<Rightarrow> secret_decoder \<Rightarrow> cert_env \<Rightarrow> certificate_config \<Rightarrow> string set \<Rightarrow> files \<Rightarrow>
    (tls_error + dtls_certificate) \<times> string set \<times> files" where
  "load_dtls_certificate_config k dec ce cc ws fs =
     (case load_dtls_inner k dec ce cc ws fs of
        (Inr c, ws', fs') \<Rightarrow> (Inr c, ws', fs')
      | (Inl _, ws', fs') \<Rightarrow>
          (if ce_self_signed_ok ce then Inr (SelfSigned (default_self_signed_domains cc)) else Inl DtlsRejected, ws', fs'))"

section \<open>The HTTP-01 challenge\<close>

datatype authz_status = AuthzPending | AuthzValid | AuthzOther

record authz =
  az_status :: authz_status
  az_challenge :: "(string \<times> string) option"  \<comment> \<open>token and key authorisation of the HTTP-01 challenge\<close>
  az_ready_ok :: bool

fun answer_challenges :: "authz list \<Rightarrow> (string, string) hashmap \<Rightarrow> bool \<times> (string, string) hashmap" where
  "answer_challenges [] store = (True, store)"
| "answer_challenges (a # as) store =
     (case az_status a of
        AuthzValid \<Rightarrow> answer_challenges as store
      | AuthzOther \<Rightarrow> (False, store)
      | AuthzPending \<Rightarrow>
          (case az_challenge a of
             None \<Rightarrow> (False, store)
           | Some (token, key_auth) \<Rightarrow>
               (let store' = hm_insert token key_auth store in
                if az_ready_ok a then answer_challenges as store' else (False, store'))))"

text \<open>\<open>Inr\<close> is 200 with the key authorisation, \<open>Inl\<close> is 404.\<close>

definition http01_challenge_handler :: "string \<Rightarrow> (string, string) hashmap \<Rightarrow> string + string" where
  "http01_challenge_handler token store =
     (case hm_get store token of Some v \<Rightarrow> Inr v | None \<Rightarrow> Inl ''challenge token not found'')"

section \<open>Lemmas\<close>

lemma sanitize_no_slash: "CHR ''/'' \<notin> set (sanitize_filename s)"
  by (auto simp: sanitize_filename_def Let_def of_char_def split: if_splits)

text \<open>The cache files of a subscription lie in the cache directory and are distinct.\<close>

lemma cache_paths_distinct: "cache_paths cc env doms = (cp, kp) \<Longrightarrow> cp \<noteq> kp"
  by (auto simp: cache_paths_def path_join_def split: if_splits)

lemma fs_write_other: "p \<noteq> path \<Longrightarrow> snd (fs_write w path body fs) p = fs p"
  by (cases w) simp_all

lemma write_cached_other:
  "p \<noteq> cp \<Longrightarrow> p \<noteq> kp \<Longrightarrow> snd (write_cached_certificate w1 w2 cp kp cert key fs) p = fs p"
  by (cases w1; cases w2) (simp_all add: write_cached_certificate_def)

lemma write_cached_ok:
  assumes "write_cached_certificate w1 w2 cp kp cert key fs = (True, fs')" and "cp \<noteq> kp"
  shows "fs' cp = Some cert \<and> fs' kp = Some key"
  using assms by (cases w1; cases w2) (auto simp: write_cached_certificate_def)

lemma write_cached_restrict:
  "snd (write_cached_certificate w1 w2 cp kp cert key fs) |` (- {cp, kp}) = fs |` (- {cp, kp})"
  by (rule ext) (simp add: restrict_map_def write_cached_other)

text \<open>Two names may share their cache files: everything but letters, digits, dots and dashes becomes
  an underscore, and the separator of domains may occur in a domain.\<close>

lemma cache_prefix_collides:
  "cache_prefix ''sds'' [''team/a''] = cache_prefix ''sds'' [''team_a'']"
  "cache_prefix ''production'' [''a'', ''b.org''] = cache_prefix ''production'' [''a-b.org'']"
  by (simp_all add: cache_prefix_def sanitize_filename_def of_char_def)

text \<open>A renewal window of more seconds than an \<open>i64\<close> holds turns negative: an expired certificate
  counts as usable.\<close>

lemma huge_window_never_renews:
  assumes "fs cp = Some cert" and "fs kp = Some key" and "parse_certificate_chain k (as_bytes cert) = Inr (leaf # rest)"
    and "x509_not_after k leaf = Some 1000"
  shows "cached_certificate_is_usable k 2000 fs cp kp 106751991167301 = Inr True"
proof -
  have "sint (sat_mul_u64 106751991167301 (24 * 60 * 60)) = - 9223372036854745216"
    by (simp add: sat_mul_u64_def)
  then show ?thesis using assms by (simp add: cached_certificate_is_usable_def sat_sub_i64_def)
qed

text \<open>A TLS certificate that is served was read as a chain and accepted with its key; DTLS always
  has one while self-signed certificates can be made.\<close>

lemma load_certificate_config_sound:
  "load_certificate_config k dec ce cc ws fs = (Inr ck, ws', fs') \<Longrightarrow>
   \<exists>cert key. load_certificate_pem k dec ce cc fs = (Inr (cert, key), fs') \<and> certified_from_pem k cert key = Inr ck"
  by (auto simp: load_certificate_config_def load_certificate_pem_def split: if_splits prod.splits sum.splits)

lemma load_dtls_total:
  "ce_self_signed_ok ce \<Longrightarrow> \<exists>c ws' fs'. load_dtls_certificate_config k dec ce cc ws fs = (Inr c, ws', fs')"
  by (auto simp: load_dtls_certificate_config_def split: prod.splits sum.splits)

text \<open>A challenge that was answered is what the challenge server serves.\<close>

lemma answer_challenges_serves:
  assumes "answer_challenges az store = (True, store')" and "a \<in> set az" and "az_status a = AuthzPending"
    and "distinct (map (\<lambda>a. fst (the (az_challenge a))) (filter (\<lambda>a. az_status a = AuthzPending) az))"
  obtains token key_auth where "az_challenge a = Some (token, key_auth)"
    and "http01_challenge_handler token store' = Inr key_auth"
proof -
  have keep: "answer_challenges az store = (True, store') \<Longrightarrow>
      \<forall>a\<in>set az. az_status a = AuthzPending \<longrightarrow> fst (the (az_challenge a)) \<noteq> tok \<Longrightarrow> hm_get store' tok = hm_get store tok"
    for az store store' tok
    by (induction az store rule: answer_challenges.induct)
       (auto simp: hm.get_insert Let_def split: authz_status.splits option.splits if_splits)
  have "\<exists>token key_auth. az_challenge a = Some (token, key_auth) \<and> hm_get store' token = Some key_auth"
    using assms
  proof (induction az store rule: answer_challenges.induct)
    case (2 b bs store)
    show ?case
    proof (cases "az_status b = AuthzPending")
      case True
      then obtain token key_auth where b: "az_challenge b = Some (token, key_auth)" "az_ready_ok b"
          "answer_challenges bs (hm_insert token key_auth store) = (True, store')"
        using 2(3) by (auto simp: Let_def split: option.splits if_splits)
      show ?thesis
      proof (cases "a = b")
        case eq: True
        have "hm_get store' token = hm_get (hm_insert token key_auth store) token"
          by (rule keep [OF b(3)]) (use 2(6) True b(1) in force)
        then show ?thesis using b(1) eq by (simp add: hm.get_insert)
      next
        case False
        then show ?thesis using 2(1) [OF True b(1) refl refl b(2,3)] 2(4-6) True by auto
      qed
    next
      case False
      then have "az_status b = AuthzValid" "answer_challenges bs store = (True, store')" "a \<in> set bs"
        using 2(3-5) by (auto split: authz_status.splits)
      then show ?thesis using 2(2) 2(5,6) False by simp
    qed
  qed simp
  then show thesis using that by (auto simp: http01_challenge_handler_def)
qed

section \<open>Properties of certificates\<close>

text \<open>C17. Over any number of connections of the watcher, the resolver serves the certificate it
  started with or one that a response carried for the subscribed resource, with a key that parsed
  and was accepted for it: a bad update leaves the served one alone. Only the two cache files of
  the subscription are written.\<close>

theorem watcher_serves_only_delivered:
  "let st = watch_sds_certificates dec fs sub (on_tls_update k ce cp kp) cons st0 in
   (served st = served st0 \<or>
    (\<exists>con\<in>set cons. \<exists>cert. carried dec fs sub con cert \<and>
       certified_from_pem k (cert_pem cert) (key_pem cert) = Inr (served st))) \<and>
   cert_files st |` (- {cp, kp}) = cert_files st0 |` (- {cp, kp})"
proof -
  let ?P = "\<lambda>st. (served st = served st0 \<or>
    (\<exists>con\<in>set cons. \<exists>cert. carried dec fs sub con cert \<and>
       certified_from_pem k (cert_pem cert) (key_pem cert) = Inr (served st))) \<and>
   cert_files st |` (- {cp, kp}) = cert_files st0 |` (- {cp, kp})"
  have "?P (watch_sds_certificates dec fs sub (on_tls_update k ce cp kp) cons st0)"
  proof (rule watch_inv [where P = ?P])
    fix con cert st ok st'
    assume con: "con \<in> set cons" "carried dec fs sub con cert" and P: "?P st"
      and upd: "on_tls_update k ce cp kp cert st = (ok, st')"
    show "?P st'"
    proof (cases "certified_from_pem k (cert_pem cert) (key_pem cert)")
      case (Inl err)
      then show ?thesis using P upd by (simp add: on_tls_update_def update_from_pem_def)
    next
      case (Inr ck)
      then have "st' = st\<lparr>served := ck, cert_files := snd (write_cached_certificate (ce_write1 ce) (ce_write2 ce) cp kp
          (cert_pem cert) (key_pem cert) (cert_files st))\<rparr>"
        using upd by (auto simp: on_tls_update_def update_from_pem_def split: prod.splits)
      then show ?thesis using P con Inr by (auto simp: write_cached_restrict)
    qed
  qed simp
  then show ?thesis by (simp add: Let_def)
qed

text \<open>C21. A certificate that was fetched survives an outage of its source: once a load has fetched and
  cached it, a later load whose fetch fails returns the same chain and key, as long as the clock
  is before the renewal time of the cached certificate, and writes nothing.\<close>

theorem sds_outage_uses_cache:
  assumes "fetch_sds_certificate dec (ce_hostname ce) fs cc (ce_connection ce) = Inr (cert, key)"
    and "load_sds_certificate k dec ce cc fs = (Inr (cert, key), fs1)" and "is_str cert" and "is_str key"
    and "fetch_sds_certificate dec (ce_hostname ce') fs1 cc (ce_connection ce') = Inl err" and "ce_dir_ok ce'"
    and "parse_certificate_chain k (as_bytes cert) = Inr chain" and "x509_not_after k (chain ! 0) = Some not_after"
    and "sint (ce_secs ce') < sat_sub_i64 not_after (sint (sat_mul_u64 (renew_days_of cc) (24 * 60 * 60)))"
  shows "load_sds_certificate k dec ce' cc fs1 = (Inr (cert, key), fs1)"
proof -
  obtain rname cp kp where paths: "sds_cache_paths (ce_dir_ok ce) cc = Inr (rname, cp, kp, renew_days_of cc)"
      "cache_paths cc ''sds'' [rname] = (cp, kp)" "sds_resource_name cc = Some rname" "ce_dir_ok ce"
    using assms(2)
    by (auto simp: load_sds_certificate_def sds_cache_paths_def split: option.splits if_splits prod.splits)
  have "write_cached_certificate (ce_write1 ce) (ce_write2 ce) cp kp cert key fs = (True, fs1)"
    using assms(1,2) paths(1)
    by (auto simp: load_sds_certificate_def split: sum.splits prod.splits if_splits)
  from write_cached_ok [OF this cache_paths_distinct [OF paths(2)]]
  have cached: "fs1 cp = Some cert" "fs1 kp = Some key" by simp_all
  have "sds_cache_paths (ce_dir_ok ce') cc = Inr (rname, cp, kp, renew_days_of cc)"
    using paths assms(6) by (simp add: sds_cache_paths_def)
  moreover have "cached_certificate_is_usable k (ce_secs ce') fs1 cp kp (renew_days_of cc) = Inr True"
    using cached assms(7-9) by (simp add: cached_certificate_is_usable_def)
  moreover have "read_pair fs1 cp kp = Inr (cert, key)"
    using cached assms(3,4) by (simp add: read_pair_def read_to_string_def)
  ultimately show ?thesis using assms(5) by (simp add: load_sds_certificate_def)
qed

definition sample_pki :: pki where
  "sample_pki = \<lparr>pem_parse_many = (\<lambda>bs. Some [(''CERTIFICATE'', bs)]), key_kind_of = (\<lambda>_. Some Pkcs8),
     accepts_key = (\<lambda>_ _ _. True), x509_not_after = (\<lambda>_. Some 10000000), sec1_to_pkcs8 = (\<lambda>_. None),
     pem_encode = (\<lambda>tag bs. of_bytes bs), dtls_key_is_rsa = (\<lambda>_. Some False)\<rparr>"

definition sample_cert_config :: certificate_config where
  "sample_cert_config = \<lparr>source = ''sds'', cert_path = None, key_path = None, domains = [], email = None, environment = None,
     cache_dir = None, http01_address = None, renew_before_days = None, sds_address = Some ''h:1'', sds_api = Some ''sds'',
     sds_resource_name = Some ''r'', sds_node_id = Some ''n'', sds_cluster = None, sds_timeout_secs = None\<rparr>"

definition sample_decoder :: secret_decoder where
  "sample_decoder bs = Some \<lparr>secret_name = ''r'', secret_type = Some \<lparr>certificate_chain = Some (Some (InlineString ''cert'')),
     private_key = Some (Some (InlineString ''key''))\<rparr>\<rparr>"

definition sample_stream :: connection where
  "sample_stream = SotwStream [Response \<lparr>rs_version_info = ''1'',
     rs_resources = [\<lparr>any_type_url = SECRET_TYPE_URL, any_value = []\<rparr>], rs_type_url = SECRET_TYPE_URL, rs_nonce = ''x''\<rparr> True]"

definition sample_cert_env :: "connection \<Rightarrow> cert_env" where
  "sample_cert_env con = \<lparr>ce_secs = 1000, ce_dir_ok = True, ce_hostname = None, ce_write1 = Written, ce_write2 = Written,
     ce_connection = con, ce_acme = None, ce_self_signed_ok = True\<rparr>"

theorem sds_outage_uses_cache_witness:
  "\<exists>fs1. load_sds_certificate sample_pki sample_decoder (sample_cert_env sample_stream) sample_cert_config Map.empty =
      (Inr (''cert'', ''key''), fs1) \<and>
    load_sds_certificate sample_pki sample_decoder (sample_cert_env ConnectFails) sample_cert_config fs1 =
      (Inr (''cert'', ''key''), fs1)"
proof -
  let ?ce = "sample_cert_env sample_stream" and ?ce' = "sample_cert_env ConnectFails" and ?cc = sample_cert_config
  have api: "api_from_config ?cc = Inr Sds" by (simp add: api_from_config_def sample_cert_config_def)
  have fetch: "fetch_sds_certificate sample_decoder (ce_hostname ?ce) Map.empty ?cc (ce_connection ?ce) = Inr (''cert'', ''key'')"
    unfolding fetch_sds_certificate_def subscription_from_config_def api
    by (simp add: sample_cert_config_def sample_cert_env_def sample_stream_def fetch_sotw_def
      try_extract_sotw_def sample_decoder_def extract_certificate_from_secret_def data_source_to_string_def)
  have outage: "\<exists>err. fetch_sds_certificate sample_decoder (ce_hostname ?ce') fs ?cc (ce_connection ?ce') = Inl err" for fs
    unfolding fetch_sds_certificate_def subscription_from_config_def api
    by (simp add: sample_cert_config_def sample_cert_env_def)
  have pem: "parse_certificate_chain sample_pki (as_bytes ''cert'') = Inr [as_bytes ''cert'']"
    by (simp add: parse_certificate_chain_def sample_pki_def)
  have "tls_from_pem sample_pki ''cert'' ''key'' \<noteq> Inl err" for err
    by (simp add: tls_from_pem_def pem parse_private_key_def) (simp add: sample_pki_def)
  then obtain cfg where "tls_from_pem sample_pki ''cert'' ''key'' = Inr cfg" by (cases "tls_from_pem sample_pki ''cert'' ''key''") auto
  then obtain fs1 where load: "load_sds_certificate sample_pki sample_decoder ?ce ?cc Map.empty = (Inr (''cert'', ''key''), fs1)"
    unfolding load_sds_certificate_def fetch
    by (simp add: sds_cache_paths_def cache_paths_def sample_cert_config_def sample_cert_env_def write_cached_certificate_def)
  have str: "is_str ''cert''" "is_str ''key''" by (intro is_str_ascii; simp add: is_ascii_def of_char_def)+
  obtain err where "fetch_sds_certificate sample_decoder (ce_hostname ?ce') fs1 ?cc (ce_connection ?ce') = Inl err"
    using outage by blast
  moreover have "ce_dir_ok ?ce'" by (simp add: sample_cert_env_def)
  moreover have "x509_not_after sample_pki ([as_bytes ''cert''] ! 0) = Some 10000000" by (simp add: sample_pki_def)
  moreover have "sint (ce_secs ?ce') < sat_sub_i64 10000000 (sint (sat_mul_u64 (renew_days_of ?cc) (24 * 60 * 60)))"
    by (simp add: sample_cert_env_def renew_days_of_def sample_cert_config_def sat_mul_u64_def sat_sub_i64_def)
  ultimately have "load_sds_certificate sample_pki sample_decoder ?ce' ?cc fs1 = (Inr (''cert'', ''key''), fs1)"
    using sds_outage_uses_cache [OF fetch load str _ _ pem] by blast
  then show ?thesis using load by blast
qed

end
