(* ===== verification/Spec2Isabelle.thy ===== *)
theory Spec2Isabelle
  imports Process OAuth Certificates
begin

text \<open>
  Verification development for miuturn, a STUN and TURN relay server.

  \<^bold>\<open>The program.\<close> Clients reach the server over UDP, TCP, TLS or DTLS. A datagram or a
  stream frame is a STUN message or ChannelData. \<open>src/message.rs\<close> parses and prints
  messages; \<open>src/server.rs\<close> authenticates requests and dispatches them to one handler per
  method; the handlers work on the allocation table and the channel table of
  \<open>src/allocation.rs\<close>. An allocation owns a relay port, taken from a bitmap allocator, a socket
  bound to it, and a task that forwards what peers send to the client. Users, API keys and the
  access list are in \<open>src/auth.rs\<close>, token buckets in \<open>src/bandwidth.rs\<close>, time-limited
  credentials in \<open>src/short_term.rs\<close>, counters and their export in \<open>src/metrics.rs\<close>. An HTTP
  console, \<open>src/health.rs\<close>, manages users and rules of the same database and saves them to the
  configuration file of \<open>src/config.rs\<close>; \<open>src/main.rs\<close> starts everything from that file.
  Certificates of the TLS and DTLS listeners come from files, an ACME order or a secret discovery
  server, \<open>src/tls.rs\<close> and \<open>src/sds.rs\<close>. \<open>src/oauth.rs\<close> validates bearer tokens.

  \<^bold>\<open>How it is modelled.\<close> The semantics is that of the release profile: integers of a width
  wrap, an index out of range or a division by zero panics. A panic is the value
  \<open>Panics\<close> of \<open>'a rust\<close>. A call of an operation is one atomic transition of an explicit state
  record: this is what the locks and the per-client worker give the code for each table, and
  interleavings are sequences of such calls. \<open>HashMap\<close> is an association list, whose order
  stands for the unspecified iteration order. \<open>Instant\<close> and \<open>Duration\<close> are natural numbers of
  nanoseconds. What the environment decides during a call (clock, entropy, which binds and sends
  fail, spurious failures of weak exchanges) is the record \<open>env\<close>. HMAC-SHA1, MD5 and the hex
  printer are third-party code: the record \<open>crypto\<close> is a parameter, and the theorems that need
  it assume that HMAC-SHA1 returns 20 bytes and that hexadecimal digits are ASCII. What leaves
  the server is a list of effects, packets to peers and packets to clients. The other libraries
  are parameters in the same way: the TOML printer and parser (\<open>toml\<close>, with the law that a
  printed configuration parses back), base64 and HMAC-SHA256 (\<open>jwt_crypto\<close>), PEM, DER and X.509
  (\<open>pki\<close>), the protobuf decoder of a Secret. Files are a map from paths to contents; a write may
  fail and leave the file cut short. Rust strings are their UTF-8 bytes.

  \<^bold>\<open>Theories.\<close>
  \<^item> \<open>Turn_Prelude\<close>: big-endian words, slices, outcomes, saturating arithmetic.
  \<^item> \<open>Hash_Map\<close>: the contract of a map (locale \<open>rust_map\<close>) and the association lists as its model.
  \<^item> \<open>Rust_Text\<close>: strings, decimal printing and parsing, splitting, lossy UTF-8.
  \<^item> \<open>Net_Addr\<close>: IP and socket addresses and their printed forms.
  \<^item> \<open>Stun_Message\<close> (\<open>src/message.rs\<close>): headers, attributes, messages, XOR addresses, responses.
    Encoding and parsing are inverse, the hand-written Binding response equals the general one
    for IPv4.
  \<^item> \<open>Stream_Framing\<close> (\<open>src/server.rs\<close>): frames on byte streams under the locales
    \<open>stream_codec\<close> and \<open>stream_writer\<close>: segmentation does not matter, written frames are read back.
  \<^item> \<open>Port_Allocator\<close>: the bitmap refines a set of ports, locale \<open>port_pool\<close>.
  \<^item> \<open>Channel_Table\<close> (and \<open>src/errors.rs\<close>): channel bindings.
  \<^item> \<open>Bandwidth\<close> (\<open>src/bandwidth.rs\<close>): token buckets under the locale \<open>token_bucket\<close>.
  \<^item> \<open>Allocation_Table\<close>: allocations, permissions, relaying, expiry, relay tasks; the invariant
    \<open>table_inv\<close> ties entries, ports, counters, trackers and tasks together.
  \<^item> \<open>Auth_Manager\<close> (\<open>src/auth.rs\<close>), whose locale \<open>credential_store\<close> is the contract of the user
    database between relay and console, \<open>Short_Term\<close> (\<open>src/short_term.rs\<close>), \<open>Metrics\<close>
    (\<open>src/metrics.rs\<close>).
  \<^item> \<open>Turn_Server\<close> (\<open>src/server.rs\<close>): the server record, authentication, one definition per
    handler, the entry points of the transports, one tick of each background task.
  \<^item> \<open>Server_Safety\<close>: the server invariant \<open>srv_inv\<close> (table invariant, one allocation per client,
    no channel without its allocation) is kept by every handler and cleanup; what needs
    credentials; where relayed data can go.
  \<^item> \<open>Server_Protocol\<close>: signing and verifying, challenge and response, the reply to Allocate, which
    messages panic.
  \<^item> \<open>Transports\<close>: the listeners as one \<open>system\<close> with an event per step between suspension points:
    UDP worker queues, stream and DTLS connections, relay tasks, cleanup ticks. Reachability is
    an inductive relation; the invariant, the order of a client's datagrams and what a panic
    does to a worker hold for every interleaving (locale \<open>state_machine\<close>).
  \<^item> \<open>Rust_Str\<close>, \<open>Addr_Parse\<close>: what the code uses of \<open>str\<close> (search, trimming, slicing at character
    boundaries, UTF-8 checks) and of \<open>FromStr\<close> for addresses, with printing and parsing inverse.
  \<^item> \<open>OAuth\<close> (\<open>src/oauth.rs\<close>): which tokens are accepted, issued tokens validate, which panic.
  \<^item> \<open>Config\<close> (\<open>src/config.rs\<close>): the configuration records, defaults, load and save.
  \<^item> \<open>Admin_Console\<close> (\<open>src/health.rs\<close>): every route as a transition of the user database and the
    files: who may change them, what each request changes.
  \<^item> \<open>Startup\<close> (\<open>src/main.rs\<close>): from the configuration to the running server. A saved database is
    restored; how the relay treats names it does not know.
  \<^item> \<open>Sds_Client\<close> (\<open>src/sds.rs\<close>), \<open>Certificates\<close> (\<open>src/tls.rs\<close>): what a discovery stream can make the
    server serve, the cache that bridges an outage, renewal.
  \<^item> \<open>Process\<close>: relay and console side by side over the shared database, a second interpretation of
    \<open>state_machine\<close>: the invariant of the whole process from \<open>main\<close> on, and that changes made
    in the console reach the relay at once.

  \<^bold>\<open>Bounds.\<close> Loops of the code are structural recursions or functions with a measure; no fuel is
  used. The bind loop of \<open>create_allocation\<close> counts down the code's own 100 attempts.

  The watch loop of the discovery client has no end in the code; it is modelled over the finite
  list of connections made so far.

  \<^bold>\<open>Not modelled.\<close> Binding and accepting sockets, TLS handshakes, the capacity check of the stream
  read buffer (its contents are bounded by the framing); the floating-point formatting of the
  statistics log line; logging and its set-up. Of the console: how the web framework extracts
  requests and renders responses, CORS headers, the text of the static pages. Of the
  certificates: the calls of the ACME library for accounts and orders, whose outcome is a
  parameter, and the generation of self-signed certificates. Of secret discovery: the gRPC
  transport and generated code. The build script runs the protobuf compiler. The setting
  \<open>max_bandwidth_bytes_per_sec\<close> is stored by the constructors in a field that nothing reads and is
  left out of the server record.
\<close>

end
